theory Spec2Isabelle
  imports Complex_Main "HOL-Library.Word" "HOL-Library.Sublist"
begin

section \<open>Terrain LOD quadtree (QuadTree.h, QuadTree.cpp)\<close>

text \<open>
  Conventions of the embedding.
  \<^item> A C++ \<open>float\<close> is a \<open>float32\<close>: a finite value \<open>Fnum x\<close>, an infinity or NaN. The
    operations \<open>+\<close>, \<open>-\<close>, \<open>*\<close>, \<open>sqrtf\<close> and the conversion from \<open>int\<close> compute the exact
    result and round it to the nearest IEEE 754 binary32 number, ties to even, with
    gradual underflow and overflow to infinity; every operation is rounded on its own (no
    fused multiply-add, no wider intermediate format); the comparisons are false on NaN.
    The two zeros are one value: the code never divides, so the sign of a zero cannot be
    seen.
    The theorems quantify over every \<open>Fnum x\<close>, the binary32 numbers among them.
  \<^item> \<open>UINT\<close> is \<^typ>\<open>32 word\<close> (\<open>++\<close> wraps). \<open>int\<close> is \<^typ>\<open>int\<close>: the counters of type
    \<open>int\<close> count nodes of a tree held in memory and stay far below \<open>2^31\<close>; the two
    places where 32 bits matter, the shift \<open>1 << k\<close> and the subtraction
    \<open>mMaxLODLevels - 1\<close>, are written out.
  \<^item> A \<open>std::unique_ptr\<close> is an \<open>option\<close> (\<open>None\<close> is the null pointer). A node is
    owned by exactly one parent slot, so a \<open>TerrainNode*\<close> into the tree is the path of
    child indices that leads from the root to the node.
  \<^item> \<open>const XMFLOAT4* frustumPlanes\<close> is a function from the index to the plane; the
    code reads the indices \<open>0..5\<close>.
  \<^item> Member functions take the object as an argument and return the updated object.
\<close>

subsection \<open>Single precision arithmetic\<close>

datatype float32 = Fnum real | PosInf | NegInf | NaN

text \<open>Rounding a real to the nearest integer, ties to the even one.\<close>

definition rne :: "real \<Rightarrow> int" where
  "rne r = (let f = \<lfloor>r\<rfloor>; d = r - of_int f
            in if d < 1 / 2 then f
               else if 1 / 2 < d then f + 1
               else if even f then f else f + 1)"

text \<open>The exponent of the binade of \<open>a \<ge> 0\<close>: the largest \<open>e\<close> in \<open>-126 \<dots> 127\<close> with
  \<open>2^e \<le> a\<close>, and \<open>-126\<close> for the subnormal range. The unit in the last place of a
  24-bit significand there is \<open>2^(e - 23)\<close>.\<close>

primrec expo_from :: "nat \<Rightarrow> real \<Rightarrow> int" where
  "expo_from 0 a = - 126"
| "expo_from (Suc n) a = (if 2 powi (int n - 126) \<le> a then int n - 126 else expo_from n a)"

definition expo :: "real \<Rightarrow> int" where
  "expo x = expo_from 254 \<bar>x\<bar>"

definition ulp :: "real \<Rightarrow> real" where
  "ulp x = 2 powi (expo x - 23)"

text \<open>Rounding to the nearest multiple of the unit in the last place; a result of
  magnitude \<open>2^128\<close> is beyond the largest binary32 number and becomes an infinity.\<close>

definition fl :: "real \<Rightarrow> real" where
  "fl x = sgn x * of_int (rne (\<bar>x\<bar> / ulp x)) * ulp x"

definition round32 :: "real \<Rightarrow> float32" where
  "round32 x = (let y = fl x
                in if 2 powi 128 \<le> y then PosInf
                   else if y \<le> - (2 powi 128) then NegInf
                   else Fnum y)"

instantiation float32 :: "{plus, minus, uminus, times, ord}"
begin

fun uminus_float32 :: "float32 \<Rightarrow> float32" where
  "uminus_float32 (Fnum a) = Fnum (- a)"
| "uminus_float32 PosInf = NegInf"
| "uminus_float32 NegInf = PosInf"
| "uminus_float32 NaN = NaN"

fun plus_float32 :: "float32 \<Rightarrow> float32 \<Rightarrow> float32" where
  "plus_float32 (Fnum a) (Fnum b) = round32 (a + b)"
| "plus_float32 NaN b = NaN"
| "plus_float32 a NaN = NaN"
| "plus_float32 PosInf NegInf = NaN"
| "plus_float32 NegInf PosInf = NaN"
| "plus_float32 PosInf b = PosInf"
| "plus_float32 NegInf b = NegInf"
| "plus_float32 a PosInf = PosInf"
| "plus_float32 a NegInf = NegInf"

definition minus_float32 :: "float32 \<Rightarrow> float32 \<Rightarrow> float32" where
  "minus_float32 a b = a + (- b)"

fun times_float32 :: "float32 \<Rightarrow> float32 \<Rightarrow> float32" where
  "times_float32 (Fnum a) (Fnum b) = round32 (a * b)"
| "times_float32 NaN b = NaN"
| "times_float32 a NaN = NaN"
| "times_float32 (Fnum a) PosInf = (if a = 0 then NaN else if 0 < a then PosInf else NegInf)"
| "times_float32 (Fnum a) NegInf = (if a = 0 then NaN else if 0 < a then NegInf else PosInf)"
| "times_float32 PosInf (Fnum b) = (if b = 0 then NaN else if 0 < b then PosInf else NegInf)"
| "times_float32 NegInf (Fnum b) = (if b = 0 then NaN else if 0 < b then NegInf else PosInf)"
| "times_float32 PosInf PosInf = PosInf"
| "times_float32 PosInf NegInf = NegInf"
| "times_float32 NegInf PosInf = NegInf"
| "times_float32 NegInf NegInf = PosInf"

fun less_float32 :: "float32 \<Rightarrow> float32 \<Rightarrow> bool" where
  "less_float32 (Fnum a) (Fnum b) = (a < b)"
| "less_float32 NaN b = False"
| "less_float32 a NaN = False"
| "less_float32 a NegInf = False"
| "less_float32 PosInf b = False"
| "less_float32 NegInf b = True"
| "less_float32 a PosInf = True"

fun less_eq_float32 :: "float32 \<Rightarrow> float32 \<Rightarrow> bool" where
  "less_eq_float32 (Fnum a) (Fnum b) = (a \<le> b)"
| "less_eq_float32 NaN b = False"
| "less_eq_float32 a NaN = False"
| "less_eq_float32 NegInf b = True"
| "less_eq_float32 a PosInf = True"
| "less_eq_float32 a NegInf = False"
| "less_eq_float32 PosInf b = False"

instance ..

end

fun sqrtf :: "float32 \<Rightarrow> float32" where
  "sqrtf (Fnum a) = (if a < 0 then NaN else Fnum (fl (sqrt a)))"
| "sqrtf PosInf = PosInf"
| "sqrtf NegInf = NaN"
| "sqrtf NaN = NaN"

text \<open>The conversion \<open>(float)i\<close> of an \<open>int\<close>.\<close>

definition float_of_int :: "int \<Rightarrow> float32" where
  "float_of_int i = round32 (of_int i)"

text \<open>The real number a finite value stands for.\<close>

fun val :: "float32 \<Rightarrow> real" where
  "val (Fnum a) = a"
| "val PosInf = 0"
| "val NegInf = 0"
| "val NaN = 0"

fun finite32 :: "float32 \<Rightarrow> bool" where
  "finite32 (Fnum a) = True"
| "finite32 PosInf = False"
| "finite32 NegInf = False"
| "finite32 NaN = False"

subsection \<open>Data model\<close>

datatype XMFLOAT3 = XMFLOAT3 (x3: float32) (y3: float32) (z3: float32)

datatype XMFLOAT4 = XMFLOAT4 (x4: float32) (y4: float32) (z4: float32) (w4: float32)

record BoundingBoxAABB =
  Center :: XMFLOAT3
  Extents :: XMFLOAT3

text \<open>The scalar members of \<open>struct TerrainNode\<close>; the array \<open>Children[4]\<close> is the second
  argument of the constructor \<open>TerrainNode\<close> below.\<close>

record NodeFields =
  X :: float32
  Z :: float32
  Size :: float32
  LODLevel :: int
  MaxLOD :: int
  Bounds :: BoundingBoxAABB
  MinY :: float32
  MaxY :: float32
  IsLeaf :: bool
  IsVisible :: bool
  ObjectCBIndex :: "32 word"

datatype TerrainNode = TerrainNode (Fields: NodeFields) (Children: "TerrainNode option list")

text \<open>The constructor \<open>TerrainNode::TerrainNode()\<close>. \<open>Bounds\<close> has no initialiser in the
  source; every path that reads it has gone through \<open>BuildTree\<close>, which sets it.\<close>

definition TerrainNode_ctor :: TerrainNode where
  "TerrainNode_ctor =
     TerrainNode \<lparr>X = Fnum 0, Z = Fnum 0, Size = Fnum 0, LODLevel = 0, MaxLOD = 0,
                  Bounds = \<lparr>Center = XMFLOAT3 (Fnum 0) (Fnum 0) (Fnum 0),
                            Extents = XMFLOAT3 (Fnum 0) (Fnum 0) (Fnum 0)\<rparr>,
                  MinY = Fnum 0, MaxY = Fnum 0, IsLeaf = True, IsVisible = False,
                  ObjectCBIndex = 0\<rparr>
                 [None, None, None, None]"

record QuadTree =
  mRoot :: "TerrainNode option"
  mTerrainSize :: float32
  mMinNodeSize :: float32
  mMaxLODLevels :: int
  mLODDistances :: "float32 list"
  mVisibleNodeCount :: int
  mTotalNodeCount :: int
  mNextObjectCBIndex :: "32 word"

text \<open>The constructor \<open>QuadTree::QuadTree()\<close>.\<close>

definition QuadTree_ctor :: QuadTree where
  "QuadTree_ctor =
     \<lparr>mRoot = None, mTerrainSize = Fnum 0, mMinNodeSize = Fnum 0, mMaxLODLevels = 0,
      mLODDistances = [], mVisibleNodeCount = 0, mTotalNodeCount = 0,
      mNextObjectCBIndex = 0\<rparr>"

definition GetVisibleNodeCount :: "QuadTree \<Rightarrow> int" where
  "GetVisibleNodeCount q = mVisibleNodeCount q"

definition GetTotalNodeCount :: "QuadTree \<Rightarrow> int" where
  "GetTotalNodeCount q = mTotalNodeCount q"

definition SetLODDistances :: "float32 list \<Rightarrow> QuadTree \<Rightarrow> QuadTree" where
  "SetLODDistances distances q = q\<lparr>mLODDistances := distances\<rparr>"

subsection \<open>Tree construction\<close>

text \<open>\<open>QuadTree::BuildTree\<close>. The members \<open>mMinNodeSize\<close> and \<open>mMaxLODLevels\<close> it reads are
  the first two arguments, the counter \<open>mTotalNodeCount\<close> it increments is threaded
  through as the last argument \<open>cnt\<close> and returned with the node. The parameter \<open>size\<close>
  of the source is \<open>sz\<close>. The four children are fresh nodes (\<open>std::make_unique\<close>).\<close>

text \<open>The result of an \<open>int\<close> subtraction as the 32-bit machine leaves it: the value
  modulo \<open>2^32\<close> in the range \<open>-2^31 \<dots> 2^31 - 1\<close>. \<open>mMaxLODLevels - 1\<close> wraps to the largest
  \<open>int\<close> when \<open>mMaxLODLevels\<close> is the most negative one.\<close>

definition wrap32 :: "int \<Rightarrow> int" where
  "wrap32 i = (i + 2147483648) mod 4294967296 - 2147483648"

function BuildTree ::
  "float32 \<Rightarrow> int \<Rightarrow> TerrainNode \<Rightarrow> float32 \<Rightarrow> float32 \<Rightarrow> float32 \<Rightarrow> int \<Rightarrow> int
     \<Rightarrow> TerrainNode \<times> int" where
  "BuildTree minNodeSize maxLODLevels node x z sz depth cnt =
     (let f0 = (Fields node)\<lparr>X := x, Z := z, Size := sz, LODLevel := depth,
                              MaxLOD := wrap32 (maxLODLevels - 1), MinY := Fnum 0,
                              MaxY := Fnum 100\<rparr>;
          f1 = f0\<lparr>Bounds := \<lparr>Center = XMFLOAT3 x ((MinY f0 + MaxY f0) * Fnum 0.5) z,
                              Extents = XMFLOAT3 (sz * Fnum 0.5)
                                                 ((MaxY f0 - MinY f0) * Fnum 0.5 + Fnum 10)
                                                 (sz * Fnum 0.5)\<rparr>\<rparr>;
          cnt0 = cnt + 1
      in if sz > minNodeSize \<and> depth < wrap32 (maxLODLevels - 1) then
           (let halfSize = sz * Fnum 0.5;
                quarterSize = sz * Fnum 0.25;
                (c0, cnt1) = BuildTree minNodeSize maxLODLevels TerrainNode_ctor
                               (x - quarterSize) (z + quarterSize) halfSize (depth + 1) cnt0;
                (c1, cnt2) = BuildTree minNodeSize maxLODLevels TerrainNode_ctor
                               (x + quarterSize) (z + quarterSize) halfSize (depth + 1) cnt1;
                (c2, cnt3) = BuildTree minNodeSize maxLODLevels TerrainNode_ctor
                               (x - quarterSize) (z - quarterSize) halfSize (depth + 1) cnt2;
                (c3, cnt4) = BuildTree minNodeSize maxLODLevels TerrainNode_ctor
                               (x + quarterSize) (z - quarterSize) halfSize (depth + 1) cnt3
            in (TerrainNode (f1\<lparr>IsLeaf := False\<rparr>) [Some c0, Some c1, Some c2, Some c3], cnt4))
         else (TerrainNode (f1\<lparr>IsLeaf := True\<rparr>) (Children node), cnt0))"
  by pat_completeness auto
termination
  by (relation "measure (\<lambda>(minNodeSize, maxLODLevels, node, x, z, sz, depth, cnt).
                           nat (wrap32 (maxLODLevels - 1) - depth))") auto

declare BuildTree.simps [simp del]

text \<open>The default thresholds of \<open>Initialize\<close>. \<open>mLODDistances.resize(maxLODLevels)\<close> converts
  the \<open>int\<close> to \<open>size_t\<close>: a negative count becomes a size beyond \<open>max_size()\<close> and
  \<open>resize\<close> throws \<open>std::length_error\<close>. \<open>1 << k\<close> on a 32-bit \<open>int\<close> is \<open>2^k\<close> for
  \<open>k < 31\<close>, the most negative \<open>int\<close> for \<open>k = 31\<close>, and undefined from 32 on.\<close>

datatype error = LengthError | UndefinedShift

definition shl1 :: "int \<Rightarrow> error + int" where
  "shl1 k = (if 0 \<le> k \<and> k < 31 then Inr (2 ^ nat k)
             else if k = 31 then Inr (- (2 ^ 31))
             else Inl UndefinedShift)"

function DefaultLODDistances_loop ::
  "float32 \<Rightarrow> int \<Rightarrow> int \<Rightarrow> float32 list \<Rightarrow> error + float32 list" where
  "DefaultLODDistances_loop minNodeSize maxLODLevels i ds =
     (if i < maxLODLevels then
        (case shl1 (maxLODLevels - i - 1) of
           Inl e \<Rightarrow> Inl e
         | Inr v \<Rightarrow> DefaultLODDistances_loop minNodeSize maxLODLevels (i + 1)
                      (ds[nat i := minNodeSize * float_of_int v * Fnum 2.0]))
      else Inr ds)"
  by pat_completeness auto
termination
  by (relation "measure (\<lambda>(minNodeSize, maxLODLevels, i, ds). nat (maxLODLevels - i))") auto

declare DefaultLODDistances_loop.simps [simp del]

definition DefaultLODDistances :: "float32 \<Rightarrow> int \<Rightarrow> error + float32 list" where
  "DefaultLODDistances minNodeSize maxLODLevels =
     (if maxLODLevels < 0 then Inl LengthError
      else DefaultLODDistances_loop minNodeSize maxLODLevels 0
             (replicate (nat maxLODLevels) (Fnum 0)))"

text \<open>\<open>QuadTree::Initialize\<close>.\<close>

definition Initialize :: "float32 \<Rightarrow> float32 \<Rightarrow> int \<Rightarrow> QuadTree \<Rightarrow> error + QuadTree" where
  "Initialize terrainSize minNodeSize maxLODLevels q =
     (let q1 = q\<lparr>mTerrainSize := terrainSize, mMinNodeSize := minNodeSize,
                 mMaxLODLevels := maxLODLevels, mTotalNodeCount := 0\<rparr>
      in case (if mLODDistances q1 = []
               then DefaultLODDistances minNodeSize maxLODLevels
               else Inr (mLODDistances q1)) of
           Inl e \<Rightarrow> Inl e
         | Inr ds \<Rightarrow>
             (let q2 = q1\<lparr>mLODDistances := ds\<rparr>;
                  (rt, cnt) = BuildTree (mMinNodeSize q2) (mMaxLODLevels q2) TerrainNode_ctor
                                    (Fnum 0.0) (Fnum 0.0) terrainSize 0 (mTotalNodeCount q2)
              in Inr (q2\<lparr>mRoot := Some rt, mTotalNodeCount := cnt\<rparr>)))"

subsection \<open>Frustum test\<close>

text \<open>One iteration of the loop of \<open>BoundingBoxAABB::Intersects\<close>: the signed distance of
  the positive vertex of the box from one plane.\<close>

definition positiveVertex :: "BoundingBoxAABB \<Rightarrow> XMFLOAT4 \<Rightarrow> XMFLOAT3" where
  "positiveVertex b pl =
     XMFLOAT3 (if x4 pl \<ge> Fnum 0 then x3 (Center b) + x3 (Extents b) else x3 (Center b) - x3 (Extents b))
              (if y4 pl \<ge> Fnum 0 then y3 (Center b) + y3 (Extents b) else y3 (Center b) - y3 (Extents b))
              (if z4 pl \<ge> Fnum 0 then z3 (Center b) + z3 (Extents b) else z3 (Center b) - z3 (Extents b))"

definition planeDistance :: "XMFLOAT4 \<Rightarrow> XMFLOAT3 \<Rightarrow> float32" where
  "planeDistance pl v = x4 pl * x3 v + y4 pl * y3 v + z4 pl * z3 v + w4 pl"

function Intersects_loop :: "BoundingBoxAABB \<Rightarrow> (nat \<Rightarrow> XMFLOAT4) \<Rightarrow> nat \<Rightarrow> bool" where
  "Intersects_loop b frustumPlanes i =
     (if i < 6 then
        (if planeDistance (frustumPlanes i) (positiveVertex b (frustumPlanes i)) < Fnum 0 then False
         else Intersects_loop b frustumPlanes (i + 1))
      else True)"
  by pat_completeness auto
termination
  by (relation "measure (\<lambda>(b, frustumPlanes, i). 6 - i)") auto

declare Intersects_loop.simps [simp del]

definition Intersects :: "BoundingBoxAABB \<Rightarrow> (nat \<Rightarrow> XMFLOAT4) \<Rightarrow> bool" where
  "Intersects b frustumPlanes = Intersects_loop b frustumPlanes 0"

subsection \<open>Per-frame selection\<close>

text \<open>\<open>QuadTree::CalculateLOD\<close>: the loop over \<open>mLODDistances\<close> walks the list, \<open>i\<close> is the
  index reached.\<close>

fun CalculateLOD_loop :: "float32 \<Rightarrow> float32 list \<Rightarrow> int \<Rightarrow> int option" where
  "CalculateLOD_loop distance [] i = None"
| "CalculateLOD_loop distance (d # ds) i =
     (if distance < d then Some i else CalculateLOD_loop distance ds (i + 1))"

definition CalculateLOD :: "QuadTree \<Rightarrow> NodeFields \<Rightarrow> XMFLOAT3 \<Rightarrow> int" where
  "CalculateLOD q node cameraPos =
     (let dx = x3 cameraPos - X node;
          dy = y3 cameraPos - (MinY node + MaxY node) * Fnum 0.5;
          dz = z3 cameraPos - Z node;
          distance = sqrtf (dx * dx + dy * dy + dz * dz)
      in case CalculateLOD_loop distance (mLODDistances q) 0 of
           Some i \<Rightarrow> i
         | None \<Rightarrow> wrap32 (mMaxLODLevels q - 1))"

text \<open>\<open>QuadTree::ShouldSubdivide\<close>.\<close>

definition ShouldSubdivide :: "NodeFields \<Rightarrow> XMFLOAT3 \<Rightarrow> bool" where
  "ShouldSubdivide node cameraPos =
     (if IsLeaf node then False
      else (let dx = x3 cameraPos - X node;
                dz = z3 cameraPos - Z node;
                distance = sqrtf (dx * dx + dz * dz)
            in distance < Size node * Fnum 1.5))"

text \<open>\<open>QuadTree::UpdateNode\<close>. The object \<open>q\<close> carries the two counters the recursion
  increments; the node is returned with the object. \<open>UpdateChildren\<close> is the loop over
  \<open>Children[0..3]\<close>, which skips the null slots.\<close>

fun UpdateNode ::
      "TerrainNode \<Rightarrow> XMFLOAT3 \<Rightarrow> (nat \<Rightarrow> XMFLOAT4) \<Rightarrow> QuadTree \<Rightarrow> TerrainNode \<times> QuadTree"
  and UpdateChildren ::
      "TerrainNode option list \<Rightarrow> XMFLOAT3 \<Rightarrow> (nat \<Rightarrow> XMFLOAT4) \<Rightarrow> QuadTree
         \<Rightarrow> TerrainNode option list \<times> QuadTree" where
  "UpdateNode (TerrainNode f cs) cameraPos frustumPlanes q =
     (let f1 = f\<lparr>IsVisible := Intersects (Bounds f) frustumPlanes\<rparr>
      in if \<not> IsVisible f1 then (TerrainNode f1 cs, q)
         else
           (let desiredLOD = CalculateLOD q f1 cameraPos;
                f2 = f1\<lparr>LODLevel := desiredLOD\<rparr>
            in if \<not> IsLeaf f2 \<and> ShouldSubdivide f2 cameraPos then
                 (let f3 = f2\<lparr>IsVisible := False\<rparr>;
                      (cs', q') = UpdateChildren cs cameraPos frustumPlanes q
                  in (TerrainNode f3 cs', q'))
               else
                 (TerrainNode (f2\<lparr>ObjectCBIndex := mNextObjectCBIndex q\<rparr>) cs,
                  q\<lparr>mNextObjectCBIndex := mNextObjectCBIndex q + 1,
                    mVisibleNodeCount := mVisibleNodeCount q + 1\<rparr>)))"
| "UpdateChildren [] cameraPos frustumPlanes q = ([], q)"
| "UpdateChildren (None # cs) cameraPos frustumPlanes q =
     (let (cs', q') = UpdateChildren cs cameraPos frustumPlanes q in (None # cs', q'))"
| "UpdateChildren (Some c # cs) cameraPos frustumPlanes q =
     (let (c', q1) = UpdateNode c cameraPos frustumPlanes q;
          (cs', q2) = UpdateChildren cs cameraPos frustumPlanes q1
      in (Some c' # cs', q2))"

text \<open>\<open>QuadTree::Update\<close>.\<close>

definition Update :: "XMFLOAT3 \<Rightarrow> (nat \<Rightarrow> XMFLOAT4) \<Rightarrow> QuadTree \<Rightarrow> QuadTree" where
  "Update cameraPos frustumPlanes q =
     (let q0 = q\<lparr>mVisibleNodeCount := 0, mNextObjectCBIndex := 0\<rparr>
      in case mRoot q0 of
           None \<Rightarrow> q0
         | Some rt \<Rightarrow>
             (let (rt', q') = UpdateNode rt cameraPos frustumPlanes q0
              in q'\<lparr>mRoot := Some rt'\<rparr>))"

subsection \<open>Result collection\<close>

text \<open>\<open>QuadTree::CollectVisibleNodes\<close>. A pointer to a node is the path \<open>p\<close> from the root;
  \<open>CollectChildren\<close> is the loop over \<open>Children[i]\<close> from the index \<open>i\<close> on.\<close>

type_synonym NodePtr = "nat list"

fun CollectVisibleNodes :: "TerrainNode \<Rightarrow> NodePtr \<Rightarrow> NodePtr list \<Rightarrow> NodePtr list"
  and CollectChildren :: "TerrainNode option list \<Rightarrow> NodePtr \<Rightarrow> nat \<Rightarrow> NodePtr list \<Rightarrow> NodePtr list"
  where
  "CollectVisibleNodes (TerrainNode f cs) p outNodes =
     (if IsVisible f then outNodes @ [p]
      else if \<not> IsLeaf f then CollectChildren cs p 0 outNodes
      else outNodes)"
| "CollectChildren [] p i outNodes = outNodes"
| "CollectChildren (None # cs) p i outNodes = CollectChildren cs p (i + 1) outNodes"
| "CollectChildren (Some c # cs) p i outNodes =
     CollectChildren cs p (i + 1) (CollectVisibleNodes c (p @ [i]) outNodes)"

text \<open>\<open>QuadTree::GetVisibleNodes\<close>: the vector of the caller is cleared, filled and
  returned.\<close>

definition GetVisibleNodes :: "QuadTree \<Rightarrow> NodePtr list \<Rightarrow> NodePtr list" where
  "GetVisibleNodes q outNodes =
     (let out0 = [] :: NodePtr list
      in case mRoot q of
           None \<Rightarrow> out0
         | Some rt \<Rightarrow> CollectVisibleNodes rt [] out0)"

text \<open>Dereferencing a node pointer.\<close>

fun deref :: "TerrainNode \<Rightarrow> NodePtr \<Rightarrow> TerrainNode option" where
  "deref n [] = Some n"
| "deref n (i # p) =
     (if i < length (Children n) then
        (case Children n ! i of None \<Rightarrow> None | Some c \<Rightarrow> deref c p)
      else None)"

subsection \<open>Height range\<close>

text \<open>\<open>QuadTree::SetHeightRange\<close>. The parameter \<open>size\<close> of the source is \<open>sz\<close>.\<close>

definition SetHeightRange ::
  "float32 \<Rightarrow> float32 \<Rightarrow> float32 \<Rightarrow> float32 \<Rightarrow> float32 \<Rightarrow> QuadTree \<Rightarrow> QuadTree" where
  "SetHeightRange x z sz minY maxY q =
     (case mRoot q of
        None \<Rightarrow> q
      | Some rt \<Rightarrow>
          (let f = Fields rt;
               b = Bounds f;
               f' = f\<lparr>MinY := minY, MaxY := maxY,
                      Bounds := b\<lparr>Center := XMFLOAT3 (x3 (Center b)) ((minY + maxY) * Fnum 0.5)
                                                     (z3 (Center b)),
                                  Extents := XMFLOAT3 (x3 (Extents b))
                                                      ((maxY - minY) * Fnum 0.5 + Fnum 10.0)
                                                      (z3 (Extents b))\<rparr>\<rparr>
           in q\<lparr>mRoot := Some (TerrainNode f' (Children rt))\<rparr>))"

subsection \<open>Vocabulary of the properties\<close>

text \<open>All nodes of a tree in depth-first pre-order, following the non-null child slots.\<close>

fun subnodes :: "TerrainNode \<Rightarrow> TerrainNode list"
  and subnodes_list :: "TerrainNode option list \<Rightarrow> TerrainNode list" where
  "subnodes (TerrainNode f cs) = TerrainNode f cs # subnodes_list cs"
| "subnodes_list [] = []"
| "subnodes_list (None # cs) = subnodes_list cs"
| "subnodes_list (Some c # cs) = subnodes c @ subnodes_list cs"

definition node_count :: "TerrainNode \<Rightarrow> nat" where
  "node_count n = length (subnodes n)"

text \<open>A complete quadtree of depth \<open>d\<close>: every node above depth \<open>d\<close> is an inner node with
  four children, every node at depth \<open>d\<close> is a leaf without children.\<close>

fun completeTree :: "nat \<Rightarrow> TerrainNode \<Rightarrow> bool"
  and completeTree_list :: "nat \<Rightarrow> TerrainNode option list \<Rightarrow> bool" where
  "completeTree d (TerrainNode f cs) =
     (case d of
        0 \<Rightarrow> IsLeaf f \<and> cs = [None, None, None, None]
      | Suc d' \<Rightarrow> \<not> IsLeaf f \<and> length cs = 4 \<and> completeTree_list d' cs)"
| "completeTree_list d [] = True"
| "completeTree_list d (None # cs) = False"
| "completeTree_list d (Some c # cs) = (completeTree d c \<and> completeTree_list d cs)"

text \<open>The fields of the node a pointer of the result refers to.\<close>

definition nodeAt :: "QuadTree \<Rightarrow> NodePtr \<Rightarrow> NodeFields option" where
  "nodeAt q p = (case mRoot q of None \<Rightarrow> None | Some rt \<Rightarrow> map_option Fields (deref rt p))"

text \<open>The children of an inner node as \<open>BuildTree\<close> places them: four of them, each of
  side \<open>Size * 0.5f\<close>, centred \<open>Size * 0.25f\<close> away in \<open>x\<close> and in \<open>z\<close>, in the order NW, NE,
  SW, SE, all computed in single precision.\<close>

definition childPlacement :: "TerrainNode \<Rightarrow> (float32 \<times> float32 \<times> float32)" where
  "childPlacement c = (Size (Fields c), X (Fields c), Z (Fields c))"

definition quartered :: "NodeFields \<Rightarrow> TerrainNode option list \<Rightarrow> bool" where
  "quartered f cs =
     (map (map_option childPlacement) cs =
        [Some (Size f * Fnum 0.5, X f - Size f * Fnum 0.25, Z f + Size f * Fnum 0.25),
         Some (Size f * Fnum 0.5, X f + Size f * Fnum 0.25, Z f + Size f * Fnum 0.25),
         Some (Size f * Fnum 0.5, X f - Size f * Fnum 0.25, Z f - Size f * Fnum 0.25),
         Some (Size f * Fnum 0.5, X f + Size f * Fnum 0.25, Z f - Size f * Fnum 0.25)])"

text \<open>A node of side \<open>S\<close> centred at \<open>(x, z)\<close> whose half side \<open>S/2\<close> and whose four quarter
  offsets \<open>x - S/4\<close>, \<open>x + S/4\<close>, \<open>z - S/4\<close>, \<open>z + S/4\<close> are computed without rounding.\<close>

definition exactQuarters :: "NodeFields \<Rightarrow> bool" where
  "exactQuarters f =
     (finite32 (Size f) \<and> finite32 (X f) \<and> finite32 (Z f) \<and>
      Size f * Fnum 0.5 = Fnum (val (Size f) / 2) \<and>
      X f - Size f * Fnum 0.25 = Fnum (val (X f) - val (Size f) / 4) \<and>
      X f + Size f * Fnum 0.25 = Fnum (val (X f) + val (Size f) / 4) \<and>
      Z f - Size f * Fnum 0.25 = Fnum (val (Z f) - val (Size f) / 4) \<and>
      Z f + Size f * Fnum 0.25 = Fnum (val (Z f) + val (Size f) / 4))"

text \<open>The footprint of a node is the closed square of side \<open>Size\<close> around \<open>(X, Z)\<close>, its
  interior the open one; both are sets of points of the real plane.\<close>

definition inFootprint :: "NodeFields \<Rightarrow> real \<Rightarrow> real \<Rightarrow> bool" where
  "inFootprint f px pz =
     (\<bar>px - val (X f)\<bar> \<le> val (Size f) / 2 \<and> \<bar>pz - val (Z f)\<bar> \<le> val (Size f) / 2)"

definition inInterior :: "NodeFields \<Rightarrow> real \<Rightarrow> real \<Rightarrow> bool" where
  "inInterior f px pz =
     (\<bar>px - val (X f)\<bar> < val (Size f) / 2 \<and> \<bar>pz - val (Z f)\<bar> < val (Size f) / 2)"

text \<open>The horizontal (X/Z) Euclidean distance from the camera to the centre of a node: the
  exact one, a real number, and the one \<open>ShouldSubdivide\<close> computes in single precision.\<close>

definition horizontalDistance :: "XMFLOAT3 \<Rightarrow> NodeFields \<Rightarrow> real" where
  "horizontalDistance cameraPos f =
     sqrt ((val (x3 cameraPos) - val (X f))\<^sup>2 + (val (z3 cameraPos) - val (Z f))\<^sup>2)"

definition horizontalDistance32 :: "XMFLOAT3 \<Rightarrow> NodeFields \<Rightarrow> float32" where
  "horizontalDistance32 cameraPos f =
     sqrtf ((x3 cameraPos - X f) * (x3 cameraPos - X f)
            + (z3 cameraPos - Z f) * (z3 cameraPos - Z f))"

text \<open>A box lies entirely on the negative side of a plane when its eight corners
  \<open>Center - Extents\<close>, \<open>Center + Extents\<close> per axis do; the signed distance of a corner is evaluated as \<open>Intersects\<close>
  evaluates it.\<close>

definition boxCorners :: "BoundingBoxAABB \<Rightarrow> XMFLOAT3 list" where
  "boxCorners b =
     [XMFLOAT3 (ox (x3 (Center b)) (x3 (Extents b)))
               (oy (y3 (Center b)) (y3 (Extents b)))
               (oz (z3 (Center b)) (z3 (Extents b))).
        ox \<leftarrow> [(-), (+)], oy \<leftarrow> [(-), (+)], oz \<leftarrow> [(-), (+)]]"

definition entirelyNegative :: "BoundingBoxAABB \<Rightarrow> XMFLOAT4 \<Rightarrow> bool" where
  "entirelyNegative b pl = list_all (\<lambda>v. planeDistance pl v < Fnum 0) (boxCorners b)"

text \<open>A sequence of \<open>Update\<close> calls, one per frame.\<close>

definition Updates :: "(XMFLOAT3 \<times> (nat \<Rightarrow> XMFLOAT4)) list \<Rightarrow> QuadTree \<Rightarrow> QuadTree" where
  "Updates frames q = fold (\<lambda>(cameraPos, frustumPlanes). Update cameraPos frustumPlanes) frames q"

text \<open>Frusta used as inputs: the box \<open>xmin \<le> x \<le> 100000\<close>, \<open>|y| \<le> 100000\<close>,
  \<open>|z| \<le> 100000\<close> as six normalised inward planes, and the six degenerate planes
  \<open>(0, 0, 0, 1)\<close> that accept every box.\<close>

definition boxFrustum :: "real \<Rightarrow> nat \<Rightarrow> XMFLOAT4" where
  "boxFrustum xmin i =
     (if i = 0 then XMFLOAT4 (Fnum 1) (Fnum 0) (Fnum 0) (Fnum (- xmin))
      else if i = 1 then XMFLOAT4 (Fnum (-1)) (Fnum 0) (Fnum 0) (Fnum 100000)
      else if i = 2 then XMFLOAT4 (Fnum 0) (Fnum 1) (Fnum 0) (Fnum 100000)
      else if i = 3 then XMFLOAT4 (Fnum 0) (Fnum (-1)) (Fnum 0) (Fnum 100000)
      else if i = 4 then XMFLOAT4 (Fnum 0) (Fnum 0) (Fnum 1) (Fnum 100000)
      else XMFLOAT4 (Fnum 0) (Fnum 0) (Fnum (-1)) (Fnum 100000))"

definition acceptAll :: "nat \<Rightarrow> XMFLOAT4" where
  "acceptAll i = XMFLOAT4 (Fnum 0) (Fnum 0) (Fnum 0) (Fnum 1)"

text \<open>No pointer of the list is a proper ancestor of another one: the path of an ancestor
  is a proper prefix of the path of its descendant.\<close>

definition antichain :: "NodePtr list \<Rightarrow> bool" where
  "antichain ps = list_all (\<lambda>a. list_all (\<lambda>b. \<not> strict_prefix a b) ps) ps"

text \<open>A tree whose visibility flags are all clear, as the constructor of the nodes leaves
  them; and the nodes that \<open>CollectVisibleNodes\<close> points to, in its order.\<close>

fun hiddenTree :: "TerrainNode \<Rightarrow> bool"
  and hiddenTree_list :: "TerrainNode option list \<Rightarrow> bool" where
  "hiddenTree (TerrainNode f cs) = (\<not> IsVisible f \<and> hiddenTree_list cs)"
| "hiddenTree_list [] = True"
| "hiddenTree_list (None # cs) = hiddenTree_list cs"
| "hiddenTree_list (Some c # cs) = (hiddenTree c \<and> hiddenTree_list cs)"

fun activeNodes :: "TerrainNode \<Rightarrow> TerrainNode list"
  and activeNodes_list :: "TerrainNode option list \<Rightarrow> TerrainNode list" where
  "activeNodes (TerrainNode f cs) =
     (if IsVisible f then [TerrainNode f cs]
      else if \<not> IsLeaf f then activeNodes_list cs
      else [])"
| "activeNodes_list [] = []"
| "activeNodes_list (None # cs) = activeNodes_list cs"
| "activeNodes_list (Some c # cs) = activeNodes c @ activeNodes_list cs"

text \<open>The slots \<open>s, s + 1, \<dots>\<close> taken by \<open>k\<close> activations.\<close>

definition slotsFrom :: "32 word \<Rightarrow> nat \<Rightarrow> 32 word list" where
  "slotsFrom s k = map (\<lambda>i. s + of_nat i) [0 ..< k]"

text \<open>A tree in which every node that is collected has passed the frustum test, together
  with all its ancestors.\<close>

fun passedTree :: "(nat \<Rightarrow> XMFLOAT4) \<Rightarrow> TerrainNode \<Rightarrow> bool"
  and passedTree_list :: "(nat \<Rightarrow> XMFLOAT4) \<Rightarrow> TerrainNode option list \<Rightarrow> bool" where
  "passedTree pl (TerrainNode f cs) =
     (if IsVisible f then Intersects (Bounds f) pl
      else if \<not> IsLeaf f then hiddenTree_list cs \<or> Intersects (Bounds f) pl \<and> passedTree_list pl cs
      else True)"
| "passedTree_list pl [] = True"
| "passedTree_list pl (None # cs) = passedTree_list pl cs"
| "passedTree_list pl (Some c # cs) = (passedTree pl c \<and> passedTree_list pl cs)"

text \<open>What \<open>BuildTree\<close> leaves at every node: a leaf without children, or an inner node
  with its four children.\<close>

definition builtNode :: "TerrainNode \<Rightarrow> bool" where
  "builtNode n = (if IsLeaf (Fields n) then Children n = [None, None, None, None]
                  else quartered (Fields n) (Children n))"

text \<open>The interiors of the children in two different slots do not meet at the point
  \<open>(px, pz)\<close>.\<close>

definition interiorsApart :: "TerrainNode option list \<Rightarrow> real \<Rightarrow> real \<Rightarrow> bool" where
  "interiorsApart cs px pz =
     list_all (\<lambda>(i, j). i = j \<or>
                 (case (cs ! i, cs ! j) of
                    (Some ci, Some cj) \<Rightarrow>
                      \<not> (inInterior (Fields ci) px pz \<and> inInterior (Fields cj) px pz)
                  | _ \<Rightarrow> True))
       (List.product [0 ..< length cs] [0 ..< length cs])"

text \<open>The slot of the node a pointer refers to, and whether its box lies entirely on the
  negative side of plane \<open>i\<close> of a frustum.\<close>

definition slotOf :: "QuadTree \<Rightarrow> NodePtr \<Rightarrow> 32 word option" where
  "slotOf q p = map_option ObjectCBIndex (nodeAt q p)"

definition lodOf :: "QuadTree \<Rightarrow> NodePtr \<Rightarrow> int option" where
  "lodOf q p = map_option LODLevel (nodeAt q p)"

definition outsidePlane :: "QuadTree \<Rightarrow> (nat \<Rightarrow> XMFLOAT4) \<Rightarrow> nat \<Rightarrow> NodePtr \<Rightarrow> bool" where
  "outsidePlane q frustumPlanes i p =
     (case nodeAt q p of
        None \<Rightarrow> False
      | Some f \<Rightarrow> entirelyNegative (Bounds f) (frustumPlanes i))"

text \<open>The objects that \<open>Initialize(2, 1, 2)\<close>, \<open>Initialize(4, 1, 3)\<close> and
  \<open>Initialize(512, 64, 5)\<close> leave when called on a freshly constructed \<open>QuadTree\<close>
  (\<open>Initialize_small\<close>, \<open>Initialize_terrain4\<close> and \<open>Initialize_terrain512\<close> below).\<close>

definition smallRoot :: TerrainNode where
  "smallRoot = fst (BuildTree (Fnum 1) 2 TerrainNode_ctor (Fnum 0) (Fnum 0) (Fnum 2) 0 0)"

definition smallTerrain :: QuadTree where
  "smallTerrain =
     \<lparr>mRoot = Some smallRoot,
      mTerrainSize = Fnum 2, mMinNodeSize = Fnum 1, mMaxLODLevels = 2,
      mLODDistances = [Fnum 4, Fnum 2], mVisibleNodeCount = 0, mTotalNodeCount = 5,
      mNextObjectCBIndex = 0\<rparr>"

definition terrain4 :: QuadTree where
  "terrain4 =
     \<lparr>mRoot = Some (fst (BuildTree (Fnum 1) 3 TerrainNode_ctor (Fnum 0) (Fnum 0) (Fnum 4) 0 0)),
      mTerrainSize = Fnum 4, mMinNodeSize = Fnum 1, mMaxLODLevels = 3,
      mLODDistances = [Fnum 8, Fnum 4, Fnum 2], mVisibleNodeCount = 0, mTotalNodeCount = 21,
      mNextObjectCBIndex = 0\<rparr>"

definition terrain512 :: QuadTree where
  "terrain512 =
     \<lparr>mRoot = Some (fst (BuildTree (Fnum 64) 5 TerrainNode_ctor (Fnum 0) (Fnum 0) (Fnum 512) 0 0)),
      mTerrainSize = Fnum 512, mMinNodeSize = Fnum 64, mMaxLODLevels = 5,
      mLODDistances = [Fnum 2048, Fnum 1024, Fnum 512, Fnum 256, Fnum 128],
      mVisibleNodeCount = 0,
      mTotalNodeCount = 85, mNextObjectCBIndex = 0\<rparr>"

text \<open>The object that \<open>Initialize(16777218, 1, 3)\<close> leaves when called on a freshly
  constructed \<open>QuadTree\<close> (\<open>Initialize_terrainOdd\<close> below); the placement of the node a
  pointer refers to, and whether a point of the plane lies in its footprint.\<close>

definition terrainOdd :: QuadTree where
  "terrainOdd =
     \<lparr>mRoot = Some (fst (BuildTree (Fnum 1) 3 TerrainNode_ctor (Fnum 0) (Fnum 0)
                           (Fnum 16777218) 0 0)),
      mTerrainSize = Fnum 16777218, mMinNodeSize = Fnum 1, mMaxLODLevels = 3,
      mLODDistances = [Fnum 8, Fnum 4, Fnum 2], mVisibleNodeCount = 0, mTotalNodeCount = 21,
      mNextObjectCBIndex = 0\<rparr>"

definition placementAt :: "QuadTree \<Rightarrow> NodePtr \<Rightarrow> (float32 \<times> float32 \<times> float32) option" where
  "placementAt q p = map_option (\<lambda>f. (Size f, X f, Z f)) (nodeAt q p)"

definition footprintAt :: "QuadTree \<Rightarrow> NodePtr \<Rightarrow> real \<Rightarrow> real \<Rightarrow> bool option" where
  "footprintAt q p px pz = map_option (\<lambda>f. inFootprint f px pz) (nodeAt q p)"

text \<open>Two frames with the camera at the origin: the first frustum contains the whole
  terrain, the second one only the half space \<open>x \<ge> 1\<close> of it.\<close>

definition frameWide :: "XMFLOAT3 \<times> (nat \<Rightarrow> XMFLOAT4)" where
  "frameWide = (XMFLOAT3 (Fnum 0) (Fnum 0) (Fnum 0), boxFrustum (-100000))"

definition frameRight :: "XMFLOAT3 \<times> (nat \<Rightarrow> XMFLOAT4)" where
  "frameRight = (XMFLOAT3 (Fnum 0) (Fnum 0) (Fnum 0), boxFrustum 1)"

section \<open>Properties\<close>

subsection \<open>Rounding\<close>

lemma p2_pos [simp]: "0 < (2::real) powi a"
  by simp

lemma p2_add: "(2::real) powi (a + b) = 2 powi a * 2 powi b"
  by (simp add: power_int_add)

lemma p2_diff: "(2::real) powi (a - b) = 2 powi a / 2 powi b"
  by (simp add: power_int_diff)

lemma p2_le: "a \<le> b \<Longrightarrow> (2::real) powi a \<le> 2 powi b"
  by (rule power_int_increasing) simp_all

lemma p2_less: "a < b \<Longrightarrow> (2::real) powi a < 2 powi b"
  by (rule power_int_strict_increasing) simp_all

lemma p2_less_iff: "(2::real) powi a < 2 powi b \<longleftrightarrow> a < b"
  using p2_less [of a b] p2_le [of b a] by (cases "a < b") auto

lemma p2_le_iff: "(2::real) powi a \<le> 2 powi b \<longleftrightarrow> a \<le> b"
  using p2_less [of b a] p2_le [of a b] by (cases "a \<le> b") auto

lemma p2_nat: "(2::real) powi (int n) = of_int (2 ^ n)"
  by simp

lemma rne_of_int [simp]: "rne (of_int m) = m"
  by (simp add: rne_def)

lemma rne_mono: "r \<le> s \<Longrightarrow> rne r \<le> rne s"
proof -
  assume rs: "r \<le> s"
  have lo: "\<lfloor>x\<rfloor> \<le> rne x" and hi: "rne x \<le> \<lfloor>x\<rfloor> + 1" for x
    by (simp_all add: rne_def Let_def)
  show ?thesis
  proof (cases "\<lfloor>r\<rfloor> = \<lfloor>s\<rfloor>")
    case True
    with rs show ?thesis by (auto simp: rne_def Let_def)
  next
    case False
    with rs have "\<lfloor>r\<rfloor> + 1 \<le> \<lfloor>s\<rfloor>" using floor_mono [OF rs] by linarith
    with hi [of r] lo [of s] show ?thesis by linarith
  qed
qed

lemma rne_le_int: "r \<le> of_int m \<Longrightarrow> rne r \<le> m"
  using rne_mono [of r "of_int m"] by simp

lemma rne_ge_int: "of_int m \<le> r \<Longrightarrow> m \<le> rne r"
  using rne_mono [of "of_int m" r] by simp

lemma expo_from_ge: "- 126 \<le> expo_from n a"
  by (induction n) auto

lemma expo_from_le: "expo_from n a \<le> int n - 127 \<or> n = 0"
  by (induction n) auto

lemma expo_from_lower: "- 126 < expo_from n a \<Longrightarrow> 2 powi (expo_from n a) \<le> a"
  by (induction n) (auto split: if_splits)

lemma expo_from_upper: "expo_from n a < int n - 127 \<Longrightarrow> a < 2 powi (expo_from n a + 1)"
proof (induction n)
  case 0
  then show ?case by simp
next
  case (Suc n)
  show ?case
  proof (cases "2 powi (int n - 126) \<le> a")
    case True
    with Suc.prems show ?thesis by simp
  next
    case False
    show ?thesis
    proof (cases "expo_from n a < int n - 127")
      case True
      with False Suc.IH show ?thesis by simp
    next
      case ge: False
      with expo_from_le [of n a] have "expo_from n a = int n - 127 \<or> n = 0" by linarith
      then show ?thesis
      proof
        assume "expo_from n a = int n - 127"
        with False show ?thesis by simp
      next
        assume "n = 0"
        with False show ?thesis by simp
      qed
    qed
  qed
qed

lemma expo_from_mono: "a \<le> b \<Longrightarrow> expo_from n a \<le> expo_from n b"
proof (induction n)
  case 0
  show ?case by simp
next
  case (Suc n)
  then show ?case
    using expo_from_le [of n a] by (auto split: if_splits)
qed

lemma expo_ge: "- 126 \<le> expo x" and expo_le: "expo x \<le> 127"
  using expo_from_ge [of 254 "\<bar>x\<bar>"] expo_from_le [of 254 "\<bar>x\<bar>"] by (simp_all add: expo_def)

lemma expo_lower: "- 126 < expo x \<Longrightarrow> 2 powi (expo x) \<le> \<bar>x\<bar>"
  unfolding expo_def by (rule expo_from_lower)

lemma expo_upper: "expo x < 127 \<Longrightarrow> \<bar>x\<bar> < 2 powi (expo x + 1)"
  unfolding expo_def using expo_from_upper [of 254 "\<bar>x\<bar>"] by simp

lemma expo_mono: "\<bar>x\<bar> \<le> \<bar>y\<bar> \<Longrightarrow> expo x \<le> expo y"
  unfolding expo_def by (rule expo_from_mono)

lemma expo_eqI:
  assumes "2 powi e \<le> \<bar>x\<bar>" "\<bar>x\<bar> < 2 powi (e + 1)" "- 126 \<le> e" "e \<le> 127"
  shows "expo x = e"
proof (rule ccontr)
  assume ne: "expo x \<noteq> e"
  show False
  proof (cases "expo x < e")
    case True
    then have "expo x < 127" using assms(4) by simp
    from expo_upper [OF this] have "\<bar>x\<bar> < 2 powi (expo x + 1)" .
    also have "\<dots> \<le> 2 powi e" using True by (intro power_int_increasing) simp_all
    finally show False using assms(1) by simp
  next
    case False
    with ne have gt: "e < expo x" by simp
    then have "- 126 < expo x" using assms(3) by simp
    from expo_lower [OF this] have "2 powi (expo x) \<le> \<bar>x\<bar>" .
    moreover have "2 powi (e + 1) \<le> (2::real) powi (expo x)"
      using gt by (intro power_int_increasing) simp_all
    ultimately show False using assms(2) by simp
  qed
qed

lemma ulp_pos [simp]: "0 < ulp x"
  by (simp add: ulp_def)

lemma ulp_nonneg [simp]: "0 \<le> ulp x"
  by (simp add: ulp_def)

lemma ulp_neq0 [simp]: "ulp x \<noteq> 0"
  by (simp add: ulp_def)

lemma fl_0 [simp]: "fl 0 = 0"
  by (simp add: fl_def)

lemma fl_neg: "fl (- x) = - fl x"
  by (simp add: fl_def ulp_def expo_def sgn_minus)

lemma fl_nonneg: "0 \<le> x \<Longrightarrow> 0 \<le> fl x"
proof -
  assume x: "0 \<le> x"
  then have "0 \<le> \<bar>x\<bar> / ulp x" by (intro divide_nonneg_pos) simp_all
  then have "0 \<le> rne (\<bar>x\<bar> / ulp x)" using rne_ge_int [of 0] by simp
  with x show ?thesis by (simp add: fl_def sgn_if)
qed

text \<open>Numbers with a 24-bit significand and an exponent in range round to themselves.\<close>

lemma fl_representable:
  fixes k e :: int
  assumes k: "\<bar>k\<bar> < 16777216" and e: "- 149 \<le> e" and hi: "e \<le> 104"
  shows "fl (of_int k * 2 powi e) = of_int k * 2 powi e"
proof (cases "k = 0")
  case True
  then show ?thesis by simp
next
  case False
  define x :: real where "x = of_int k * 2 powi e"
  have ax: "\<bar>x\<bar> = of_int \<bar>k\<bar> * 2 powi e" by (simp add: x_def abs_mult)
  have "expo x \<le> e + 23"
  proof (cases "expo x = - 126")
    case True
    with e show ?thesis by simp
  next
    case ne: False
    with expo_ge [of x] have "- 126 < expo x" by simp
    from expo_lower [OF this] have "2 powi (expo x) \<le> \<bar>x\<bar>" .
    also have "\<dots> < 16777216 * 2 powi e"
    proof -
      have "real_of_int \<bar>k\<bar> < 16777216"
        using k of_int_less_iff [of "\<bar>k\<bar>" 16777216, where 'a = real] by simp
      moreover have "0 < (2::real) powi e" by simp
      ultimately show ?thesis unfolding ax by (rule mult_strict_right_mono)
    qed
    also have "\<dots> = 2 powi (e + 24)" unfolding p2_add by simp
    finally have "expo x < e + 24" unfolding p2_less_iff .
    then show ?thesis by simp
  qed
  then obtain n :: nat where n: "e + 23 - expo x = int n"
    using nonneg_int_cases [of "e + 23 - expo x"] by auto
  have "\<bar>x\<bar> / ulp x = of_int \<bar>k\<bar> * 2 powi (e - (expo x - 23))"
    unfolding ax ulp_def p2_diff [of e] by simp
  also have "e - (expo x - 23) = int n" using n by simp
  also have "of_int \<bar>k\<bar> * (2::real) powi (int n) = of_int (\<bar>k\<bar> * 2 ^ n)"
    unfolding p2_nat by simp
  finally have q: "\<bar>x\<bar> / ulp x = of_int (\<bar>k\<bar> * 2 ^ n)" .
  have "fl x = sgn x * (\<bar>x\<bar> / ulp x) * ulp x"
    unfolding fl_def q rne_of_int ..
  also have "\<dots> = sgn x * \<bar>x\<bar>" by simp
  also have "\<dots> = x" by (simp add: sgn_mult_abs)
  finally show ?thesis unfolding x_def .
qed

lemma fl_idem_bound:
  assumes "\<bar>x\<bar> < 2 powi (e + 1)" "- 126 \<le> e" "e \<le> 127"
  shows "\<bar>fl x\<bar> \<le> 2 powi (e + 1)"
proof -
  have ex: "expo x \<le> e"
  proof (rule ccontr)
    assume "\<not> expo x \<le> e"
    then have gt: "e < expo x" by simp
    then have "- 126 < expo x" using assms(2) by simp
    from expo_lower [OF this] have "2 powi (expo x) \<le> \<bar>x\<bar>" .
    moreover have "2 powi (e + 1) \<le> (2::real) powi (expo x)"
      using gt by (intro power_int_increasing) simp_all
    ultimately show False using assms(1) by simp
  qed
  then obtain n :: nat where n: "e - expo x = int n"
    using nonneg_int_cases [of "e - expo x"] by auto
  have "\<bar>x\<bar> / ulp x \<le> 2 powi (e + 1) / ulp x"
    using assms(1) by (intro divide_right_mono) simp_all
  also have "\<dots> = 2 powi (e + 1 - (expo x - 23))" unfolding ulp_def p2_diff [of "e + 1"] ..
  also have "e + 1 - (expo x - 23) = int (n + 24)" using n by simp
  also have "(2::real) powi int (n + 24) = of_int (2 ^ (n + 24))" by (rule p2_nat)
  finally have "rne (\<bar>x\<bar> / ulp x) \<le> 2 ^ (n + 24)" by (rule rne_le_int)
  then have "real_of_int (rne (\<bar>x\<bar> / ulp x)) \<le> of_int (2 ^ (n + 24))"
    by (simp only: of_int_le_iff)
  then have "of_int (rne (\<bar>x\<bar> / ulp x)) * ulp x \<le> of_int (2 ^ (n + 24)) * ulp x"
    by (rule mult_right_mono) simp
  also have "of_int (2 ^ (n + 24)) * ulp x = 2 powi (int (n + 24) + (expo x - 23))"
    unfolding ulp_def p2_add p2_nat ..
  also have "int (n + 24) + (expo x - 23) = e + 1" using n by simp
  finally have le: "of_int (rne (\<bar>x\<bar> / ulp x)) * ulp x \<le> 2 powi (e + 1)" .
  have "0 \<le> \<bar>x\<bar> / ulp x" by (intro divide_nonneg_pos) simp_all
  then have nn: "0 \<le> rne (\<bar>x\<bar> / ulp x)" using rne_ge_int [of 0] by simp
  have "\<bar>fl x\<bar> = \<bar>sgn x\<bar> * (of_int (rne (\<bar>x\<bar> / ulp x)) * ulp x)"
    unfolding fl_def using nn by (simp add: abs_mult)
  also have "\<dots> \<le> 1 * (of_int (rne (\<bar>x\<bar> / ulp x)) * ulp x)"
    using nn by (intro mult_right_mono) (simp_all add: abs_sgn_eq)
  finally show ?thesis using le by simp
qed


lemma fl_abs: "\<bar>fl x\<bar> = of_int (rne (\<bar>x\<bar> / ulp x)) * ulp x \<or> x = 0"
proof -
  have "0 \<le> \<bar>x\<bar> / ulp x" by (intro divide_nonneg_pos) simp_all
  then have nn: "0 \<le> rne (\<bar>x\<bar> / ulp x)" using rne_ge_int [of 0] by simp
  show ?thesis
  proof (cases "x = 0")
    case False
    then have "\<bar>sgn x\<bar> = 1" by (simp add: abs_sgn_eq)
    then have "\<bar>fl x\<bar> = of_int (rne (\<bar>x\<bar> / ulp x)) * ulp x"
      unfolding fl_def using nn by (simp add: abs_mult)
    then show ?thesis ..
  qed simp
qed

lemma fl_lower:
  assumes "2 powi e \<le> \<bar>x\<bar>" "- 126 \<le> e" "e \<le> 127"
  shows "2 powi e \<le> \<bar>fl x\<bar>"
proof -
  have x0: "x \<noteq> 0"
  proof
    assume "x = 0"
    with assms(1) have "(2::real) powi e \<le> 0" by simp
    moreover have "0 < (2::real) powi e" by simp
    ultimately show False by linarith
  qed
  have eE: "e \<le> expo x"
  proof (rule ccontr)
    assume "\<not> e \<le> expo x"
    then have lt: "expo x < e" by simp
    then have "expo x < 127" using assms(3) by simp
    from expo_upper [OF this] have "\<bar>x\<bar> < 2 powi (expo x + 1)" .
    also have "\<dots> \<le> 2 powi e" using lt by (intro p2_le) simp
    finally show False using assms(1) by simp
  qed
  have E: "2 powi (expo x) \<le> \<bar>x\<bar>"
  proof (cases "- 126 < expo x")
    case True
    then show ?thesis by (rule expo_lower)
  next
    case False
    with eE assms(2) have "expo x = e" by simp
    with assms(1) show ?thesis by simp
  qed
  have "2 powi (expo x) / ulp x \<le> \<bar>x\<bar> / ulp x"
    using E by (rule divide_right_mono) simp
  moreover have "2 powi (expo x) / ulp x = of_int (2 ^ 23)"
  proof -
    have "2 powi (expo x) / ulp x = 2 powi (expo x - (expo x - 23))"
      unfolding ulp_def p2_diff [of "expo x"] ..
    also have "expo x - (expo x - 23) = int 23" by simp
    finally show ?thesis unfolding p2_nat .
  qed
  ultimately have "2 ^ 23 \<le> rne (\<bar>x\<bar> / ulp x)" by (intro rne_ge_int) simp
  then have "real_of_int (2 ^ 23) \<le> of_int (rne (\<bar>x\<bar> / ulp x))"
    by (simp only: of_int_le_iff)
  then have A: "of_int (2 ^ 23) * ulp x \<le> of_int (rne (\<bar>x\<bar> / ulp x)) * ulp x"
    by (rule mult_right_mono) simp
  have B: "of_int (2 ^ 23) * ulp x = 2 powi (expo x)"
  proof -
    have "of_int (2 ^ 23) * ulp x = 2 powi (int 23 + (expo x - 23))"
      unfolding ulp_def p2_add p2_nat ..
    also have "int 23 + (expo x - 23) = expo x" by simp
    finally show ?thesis .
  qed
  have C: "\<bar>fl x\<bar> = of_int (rne (\<bar>x\<bar> / ulp x)) * ulp x" using fl_abs [of x] x0 by blast
  have "2 powi (expo x) \<le> \<bar>fl x\<bar>" unfolding C B [symmetric] by (rule A)
  moreover have "(2::real) powi e \<le> 2 powi (expo x)" using eE by (rule p2_le)
  ultimately show ?thesis by linarith
qed

text \<open>Rounding is monotone.\<close>

lemma fl_mono_nonneg:
  assumes "0 \<le> x" "x \<le> y"
  shows "fl x \<le> fl y"
proof (cases "x = 0")
  case True
  with assms fl_nonneg [of y] show ?thesis by simp
next
  case False
  with assms have px: "0 < x" and py: "0 < y" by simp_all
  have le: "expo x \<le> expo y" using assms by (intro expo_mono) simp
  show ?thesis
  proof (cases "expo x = expo y")
    case True
    then have u: "ulp x = ulp y" by (simp add: ulp_def)
    have "\<bar>x\<bar> / ulp y \<le> \<bar>y\<bar> / ulp y" using assms by (intro divide_right_mono) simp_all
    then have "rne (\<bar>x\<bar> / ulp y) \<le> rne (\<bar>y\<bar> / ulp y)" by (rule rne_mono)
    then have "real_of_int (rne (\<bar>x\<bar> / ulp y)) \<le> of_int (rne (\<bar>y\<bar> / ulp y))"
      by (simp only: of_int_le_iff)
    then have "of_int (rne (\<bar>x\<bar> / ulp y)) * ulp y \<le> of_int (rne (\<bar>y\<bar> / ulp y)) * ulp y"
      by (rule mult_right_mono) simp
    then show ?thesis unfolding fl_def u using px py by simp
  next
    case False
    with le have lt: "expo x < expo y" by simp
    with expo_le [of y] have x127: "expo x < 127" by simp
    from expo_upper [OF this] have "\<bar>x\<bar> < 2 powi (expo x + 1)" .
    then have a: "\<bar>fl x\<bar> \<le> 2 powi (expo x + 1)"
      using expo_ge [of x] x127 by (intro fl_idem_bound) simp_all
    from lt expo_ge [of x] have "- 126 < expo y" by simp
    from expo_lower [OF this] have "2 powi (expo y) \<le> \<bar>y\<bar>" .
    then have b: "2 powi (expo y) \<le> \<bar>fl y\<bar>"
      using expo_ge [of y] expo_le [of y] by (intro fl_lower) simp_all
    have c: "(2::real) powi (expo x + 1) \<le> 2 powi (expo y)" using lt by (intro p2_le) simp
    have "\<bar>fl y\<bar> = fl y" using fl_nonneg [of y] py by simp
    with a b c show ?thesis by linarith
  qed
qed

lemma fl_mono: "x \<le> y \<Longrightarrow> fl x \<le> fl y"
proof -
  assume xy: "x \<le> y"
  consider "0 \<le> x" | "x < 0" "0 \<le> y" | "y < 0" by linarith
  then show ?thesis
  proof cases
    case 1
    with xy show ?thesis by (intro fl_mono_nonneg)
  next
    case 2
    then have "0 \<le> fl (- x)" "0 \<le> fl y" by (simp_all add: fl_nonneg)
    then show ?thesis unfolding fl_neg by linarith
  next
    case 3
    with xy have "fl (- y) \<le> fl (- x)" by (intro fl_mono_nonneg) simp_all
    then show ?thesis unfolding fl_neg by simp
  qed
qed

text \<open>Numbers on a grid of step \<open>2^-k\<close> with fewer than 24 bits round to themselves.\<close>

lemma fl_grid:
  assumes "x * 2 ^ k \<in> \<int>" and "\<bar>x\<bar> * 2 ^ k < 16777216" and "k \<le> 149"
  shows "fl x = x"
proof -
  from assms(1) obtain m :: int where m: "x * 2 ^ k = of_int m" by (auto elim: Ints_cases)
  have x: "x = of_int m * 2 powi (- int k)"
  proof -
    have "of_int m * 2 powi (- int k) = x * 2 ^ k * 2 powi (- int k)" unfolding m ..
    also have "\<dots> = x * (2 powi (int k) * 2 powi (- int k))" by simp
    also have "2 powi (int k) * (2::real) powi (- int k) = 2 powi (int k + - int k)"
      unfolding p2_add ..
    finally show ?thesis by simp
  qed
  have "real_of_int \<bar>m\<bar> = \<bar>x * 2 ^ k\<bar>" unfolding m by simp
  also have "\<dots> = \<bar>x\<bar> * 2 ^ k" by (simp add: abs_mult)
  finally have "real_of_int \<bar>m\<bar> = \<bar>x\<bar> * 2 ^ k" .
  with assms(2) have "\<bar>m\<bar> < 16777216" by linarith
  then show ?thesis unfolding x using assms(3) by (intro fl_representable) simp_all
qed

lemma fl_sixteenths [simp]: "16 * x \<in> \<int> \<Longrightarrow> \<bar>x\<bar> < 1048576 \<Longrightarrow> fl x = x"
  using fl_grid [of x 4] by (simp add: mult.commute)

text \<open>The value of a rounding, from the binade of the argument.\<close>

lemma fl_eqI:
  assumes "2 powi e \<le> \<bar>x\<bar>" "\<bar>x\<bar> < 2 powi (e + 1)" "- 126 \<le> e" "e \<le> 127"
    and "rne (\<bar>x\<bar> / 2 powi (e - 23)) = m"
  shows "fl x = sgn x * of_int m * 2 powi (e - 23)"
  unfolding fl_def ulp_def expo_eqI [OF assms(1-4)] assms(5) ..

text \<open>Comparing a rounded square root with a representable bound.\<close>

lemma fl_sqrt_ge:
  assumes "fl t = t" "0 \<le> t" "t * t \<le> s"
  shows "t \<le> fl (sqrt s)"
proof -
  have "t\<^sup>2 \<le> s" using assms(3) by (simp add: power2_eq_square)
  then have "t \<le> sqrt s" by (rule real_le_rsqrt)
  then have "fl t \<le> fl (sqrt s)" by (rule fl_mono)
  then show ?thesis unfolding assms(1) .
qed

lemma fl_sqrt_le:
  assumes "fl u = u" "0 \<le> u" "s \<le> u * u"
  shows "fl (sqrt s) \<le> u"
proof -
  have "s \<le> u\<^sup>2" using assms(3) by (simp add: power2_eq_square)
  with assms(2) have "sqrt s \<le> u" by (rule real_le_lsqrt)
  then have "fl (sqrt s) \<le> fl u" by (rule fl_mono)
  then show ?thesis unfolding assms(1) .
qed

lemma fl_sqrt_less_iff:
  assumes "0 < t" "t \<le> 2048" "4096 * t \<in> \<int>"
    and "s < t * t \<longrightarrow> s \<le> (t - 1 / 4096) * (t - 1 / 4096)"
  shows "fl (sqrt s) < t \<longleftrightarrow> s < t * t"
proof
  assume "fl (sqrt s) < t"
  have t: "fl t = t" using assms(1-3) by (intro fl_grid [of t 12]) (simp_all add: mult.commute)
  show "s < t * t"
  proof (rule ccontr)
    assume "\<not> s < t * t"
    then have "t \<le> fl (sqrt s)" using assms(1) by (intro fl_sqrt_ge t) simp_all
    with \<open>fl (sqrt s) < t\<close> show False by simp
  qed
next
  assume lt: "s < t * t"
  define u where "u = t - 1 / 4096"
  from assms(3) obtain m :: int where m: "4096 * t = of_int m" by (auto elim: Ints_cases)
  with assms(1) have "0 < m" by (metis of_int_0_less_iff zero_less_mult_iff zero_less_numeral)
  then have "1 \<le> real_of_int m" by simp
  then have u0: "0 \<le> u" unfolding u_def using m by simp
  have "u * 2 ^ 12 = of_int (m - 1)" unfolding u_def using m by simp
  then have "u * 2 ^ 12 \<in> \<int>" by (metis Ints_of_int)
  moreover have "\<bar>u\<bar> * 2 ^ 12 < 16777216" using u0 assms(2) by (simp add: u_def)
  ultimately have u: "fl u = u" by (intro fl_grid [of u 12]) simp_all
  from lt assms(4) have "s \<le> u * u" by (simp add: u_def)
  with u u0 have "fl (sqrt s) \<le> u" by (intro fl_sqrt_le)
  then show "fl (sqrt s) < t" by (simp add: u_def)
qed

lemma round32_sixteenths [simp]:
  "16 * x \<in> \<int> \<Longrightarrow> \<bar>x\<bar> < 1048576 \<Longrightarrow> round32 x = Fnum x"
  by (simp add: round32_def abs_less_iff)

lemma round32_exact: "fl x = x \<Longrightarrow> \<bar>x\<bar> < 2 powi 128 \<Longrightarrow> round32 x = Fnum x"
  by (simp add: round32_def abs_less_iff)

lemma float_of_int_small [simp]: "\<bar>i\<bar> < 1048576 \<Longrightarrow> float_of_int i = Fnum (of_int i)"
  unfolding float_of_int_def by (rule round32_sixteenths) simp_all

lemma zero_times: "Fnum 0 * v = Fnum 0 \<or> Fnum 0 * v = NaN"
  by (cases v) simp_all

lemma zero_or_NaN_plus:
  "a = Fnum 0 \<or> a = NaN \<Longrightarrow> b = Fnum 0 \<or> b = NaN \<Longrightarrow> a + b = Fnum 0 \<or> a + b = NaN"
  by auto

lemma minus_Fnum [simp]: "Fnum a - Fnum b = round32 (a - b)"
  by (simp add: minus_float32_def)

subsection \<open>Unfolding the loops\<close>

lemma wrap32_id [simp]: "- 2147483648 \<le> i \<Longrightarrow> i < 2147483648 \<Longrightarrow> wrap32 i = i"
  by (simp add: wrap32_def)

lemma wrap32_pred:
  "- 2147483648 \<le> i \<Longrightarrow> i < 2147483648 \<Longrightarrow>
   wrap32 (i - 1) = (if i = - 2147483648 then 2147483647 else i - 1)"
  by (simp add: wrap32_def)

lemma BuildTree_leaf:
  "\<not> (sz > minNodeSize \<and> depth < wrap32 (maxLODLevels - 1)) \<Longrightarrow>
   BuildTree minNodeSize maxLODLevels node x z sz depth cnt =
     (TerrainNode ((Fields node)\<lparr>X := x, Z := z, Size := sz, LODLevel := depth,
                              MaxLOD := wrap32 (maxLODLevels - 1), MinY := Fnum 0, MaxY := Fnum 100,
                              Bounds := \<lparr>Center = XMFLOAT3 x (Fnum 50) z,
                                         Extents = XMFLOAT3 (sz * Fnum 0.5) (Fnum 60) (sz * Fnum 0.5)\<rparr>,
                              IsLeaf := True\<rparr>) (Children node), cnt + 1)"
  by (subst BuildTree.simps) (auto simp: Let_def)

lemma BuildTree_node:
  "sz > minNodeSize \<Longrightarrow> depth < wrap32 (maxLODLevels - 1) \<Longrightarrow>
   BuildTree minNodeSize maxLODLevels node x z sz depth cnt =
     (let b0 = BuildTree minNodeSize maxLODLevels TerrainNode_ctor
                 (x - sz * Fnum 0.25) (z + sz * Fnum 0.25) (sz * Fnum 0.5) (depth + 1) (cnt + 1);
          b1 = BuildTree minNodeSize maxLODLevels TerrainNode_ctor
                 (x + sz * Fnum 0.25) (z + sz * Fnum 0.25) (sz * Fnum 0.5) (depth + 1) (snd b0);
          b2 = BuildTree minNodeSize maxLODLevels TerrainNode_ctor
                 (x - sz * Fnum 0.25) (z - sz * Fnum 0.25) (sz * Fnum 0.5) (depth + 1) (snd b1);
          b3 = BuildTree minNodeSize maxLODLevels TerrainNode_ctor
                 (x + sz * Fnum 0.25) (z - sz * Fnum 0.25) (sz * Fnum 0.5) (depth + 1) (snd b2)
      in (TerrainNode ((Fields node)\<lparr>X := x, Z := z, Size := sz, LODLevel := depth,
                              MaxLOD := wrap32 (maxLODLevels - 1), MinY := Fnum 0, MaxY := Fnum 100,
                              Bounds := \<lparr>Center = XMFLOAT3 x (Fnum 50) z,
                                         Extents = XMFLOAT3 (sz * Fnum 0.5) (Fnum 60) (sz * Fnum 0.5)\<rparr>,
                              IsLeaf := False\<rparr>)
            [Some (fst b0), Some (fst b1), Some (fst b2), Some (fst b3)], snd b3))"
  by (subst BuildTree.simps) (simp add: Let_def split: prod.splits)

lemmas BuildTree_eval = BuildTree_leaf BuildTree_node Let_def TerrainNode_ctor_def

lemma BuildTree_fields:
  "X (Fields (fst (BuildTree mn ml node x z sz d cnt))) = x"
  "Z (Fields (fst (BuildTree mn ml node x z sz d cnt))) = z"
  "Size (Fields (fst (BuildTree mn ml node x z sz d cnt))) = sz"
  by (cases "sz > mn \<and> d < wrap32 (ml - 1)"; simp add: BuildTree_leaf BuildTree_node Let_def)+

lemma BuildTree_IsLeaf:
  "IsLeaf (Fields (fst (BuildTree mn ml node x z sz d cnt))) = (\<not> (sz > mn \<and> d < wrap32 (ml - 1)))"
  by (cases "sz > mn \<and> d < wrap32 (ml - 1)"; simp add: BuildTree_leaf BuildTree_node Let_def)


lemma Children_ctor [simp]: "Children TerrainNode_ctor = [None, None, None, None]"
  by (simp add: TerrainNode_ctor_def)


lemma BuildTree_cases_induct [case_names leaf inner]:
  fixes mn sz :: float32 and ml d cnt :: int
  assumes leaf: "\<And>node x z (sz :: float32) (d :: int) (cnt :: int). \<not> (sz > mn \<and> d < wrap32 (ml - 1)) \<Longrightarrow> P node x z sz d cnt"
    and inner: "\<And>node x z (sz :: float32) (d :: int) (cnt :: int). sz > mn \<Longrightarrow> d < wrap32 (ml - 1) \<Longrightarrow>
                 (\<And>x' z' cnt'. P TerrainNode_ctor x' z' (sz * Fnum 0.5) (d + 1) cnt') \<Longrightarrow>
                 P node x z sz d cnt"
  shows "P node x z sz d cnt"
proof (induction "nat (wrap32 (ml - 1) - d)" arbitrary: node x z sz d cnt)
  case 0
  then have "\<not> (sz > mn \<and> d < wrap32 (ml - 1))" by simp
  then show ?case by (rule leaf)
next
  case (Suc k)
  show ?case
  proof (cases "sz > mn \<and> d < wrap32 (ml - 1)")
    case True
    then have a: "sz > mn" and b: "d < wrap32 (ml - 1)" by auto
    have IH: "P TerrainNode_ctor x' z' (sz * Fnum 0.5) (d + 1) cnt'" for x' z' cnt'
      using Suc.hyps(2) by (intro Suc.hyps(1)) simp
    show ?thesis by (rule inner [OF a b]) (rule IH)
  next
    case False
    then show ?thesis by (rule leaf)
  qed
qed

lemma BuildTree_count:
  "Children node = [None, None, None, None] \<Longrightarrow>
   snd (BuildTree mn ml node x z sz d cnt) =
     cnt + int (node_count (fst (BuildTree mn ml node x z sz d cnt)))"
proof (induction node x z sz d cnt rule: BuildTree_cases_induct [of mn ml])
  case (leaf node x z sz d cnt)
  then show ?case by (simp add: BuildTree_leaf node_count_def)
next
  case (inner node x z sz d cnt)
  then show ?case
    by (simp add: BuildTree_node Let_def node_count_def)
qed

lemma BuildTree_inner_shape:
  assumes "sz > mn" "d < wrap32 (ml - 1)"
  shows "\<exists>F c0 c1 c2 c3 x0 z0 n0 x1 z1 n1 x2 z2 n2 x3 z3 n3.
           fst (BuildTree mn ml node x z sz d cnt) = TerrainNode F [Some c0, Some c1, Some c2, Some c3]
         \<and> \<not> IsLeaf F \<and> X F = x \<and> Z F = z \<and> Size F = sz
         \<and> quartered F [Some c0, Some c1, Some c2, Some c3]
         \<and> c0 = fst (BuildTree mn ml TerrainNode_ctor x0 z0 (sz * Fnum 0.5) (d + 1) n0)
         \<and> c1 = fst (BuildTree mn ml TerrainNode_ctor x1 z1 (sz * Fnum 0.5) (d + 1) n1)
         \<and> c2 = fst (BuildTree mn ml TerrainNode_ctor x2 z2 (sz * Fnum 0.5) (d + 1) n2)
         \<and> c3 = fst (BuildTree mn ml TerrainNode_ctor x3 z3 (sz * Fnum 0.5) (d + 1) n3)"
proof -
  define b0 where "b0 = BuildTree mn ml TerrainNode_ctor
                 (x - sz * Fnum 0.25) (z + sz * Fnum 0.25) (sz * Fnum 0.5) (d + 1) (cnt + 1)"
  define b1 where "b1 = BuildTree mn ml TerrainNode_ctor
                 (x + sz * Fnum 0.25) (z + sz * Fnum 0.25) (sz * Fnum 0.5) (d + 1) (snd b0)"
  define b2 where "b2 = BuildTree mn ml TerrainNode_ctor
                 (x - sz * Fnum 0.25) (z - sz * Fnum 0.25) (sz * Fnum 0.5) (d + 1) (snd b1)"
  define b3 where "b3 = BuildTree mn ml TerrainNode_ctor
                 (x + sz * Fnum 0.25) (z - sz * Fnum 0.25) (sz * Fnum 0.5) (d + 1) (snd b2)"
  define F where "F = (Fields node)\<lparr>X := x, Z := z, Size := sz, LODLevel := d,
                              MaxLOD := wrap32 (ml - 1), MinY := Fnum 0, MaxY := Fnum 100,
                              Bounds := \<lparr>Center = XMFLOAT3 x (Fnum 50) z,
                                         Extents = XMFLOAT3 (sz * Fnum 0.5) (Fnum 60) (sz * Fnum 0.5)\<rparr>,
                              IsLeaf := False\<rparr>"
  have t: "fst (BuildTree mn ml node x z sz d cnt) =
             TerrainNode F [Some (fst b0), Some (fst b1), Some (fst b2), Some (fst b3)]"
    unfolding BuildTree_node [OF assms] Let_def fst_conv b0_def b1_def b2_def b3_def F_def ..
  have F: "\<not> IsLeaf F" "X F = x" "Z F = z" "Size F = sz"
    by (simp_all add: F_def)
  have tp: "quartered F [Some (fst b0), Some (fst b1), Some (fst b2), Some (fst b3)]"
    unfolding quartered_def childPlacement_def b0_def b1_def b2_def b3_def
    by (simp add: BuildTree_fields F)
  show ?thesis
    using t F tp b0_def b1_def b2_def b3_def by blast
qed

lemma BuildTree_builtNode:
  "Children node = [None, None, None, None] \<Longrightarrow>
   n \<in> set (subnodes (fst (BuildTree mn ml node x z sz d cnt))) \<Longrightarrow> builtNode n"
proof (induction node x z sz d cnt arbitrary: n rule: BuildTree_cases_induct [of mn ml])
  case (leaf node x z sz d cnt)
  then show ?case by (auto simp: BuildTree_leaf builtNode_def)
next
  case (inner node x z sz d cnt)
  from BuildTree_inner_shape [OF inner.hyps, of node x z cnt]
  obtain F c0 c1 c2 c3 x0 z0 n0 x1 z1 n1 x2 z2 n2 x3 z3 n3 where
    t: "fst (BuildTree mn ml node x z sz d cnt) = TerrainNode F [Some c0, Some c1, Some c2, Some c3]"
    and F: "\<not> IsLeaf F" "quartered F [Some c0, Some c1, Some c2, Some c3]"
    and c: "c0 = fst (BuildTree mn ml TerrainNode_ctor x0 z0 (sz * Fnum 0.5) (d + 1) n0)"
           "c1 = fst (BuildTree mn ml TerrainNode_ctor x1 z1 (sz * Fnum 0.5) (d + 1) n1)"
           "c2 = fst (BuildTree mn ml TerrainNode_ctor x2 z2 (sz * Fnum 0.5) (d + 1) n2)"
           "c3 = fst (BuildTree mn ml TerrainNode_ctor x3 z3 (sz * Fnum 0.5) (d + 1) n3)"
    by blast
  from inner.prems(2) have "n = TerrainNode F [Some c0, Some c1, Some c2, Some c3]
      \<or> n \<in> set (subnodes c0) \<or> n \<in> set (subnodes c1)
      \<or> n \<in> set (subnodes c2) \<or> n \<in> set (subnodes c3)"
    unfolding t by auto
  moreover have "builtNode (TerrainNode F [Some c0, Some c1, Some c2, Some c3])"
    using F by (simp add: builtNode_def)
  moreover have "n \<in> set (subnodes ci) \<Longrightarrow> ci \<in> {c0, c1, c2, c3} \<Longrightarrow> builtNode n" for ci
    using inner.IH [OF Children_ctor] c by auto
  ultimately show ?case by blast
qed

lemma BuildTree_count_gt:
  "cnt < snd (BuildTree mn ml node x z sz d cnt)"
proof (induction node x z sz d cnt rule: BuildTree_cases_induct [of mn ml])
  case (leaf node x z sz d cnt)
  then show ?case by (simp add: BuildTree_leaf)
next
  case (inner node x z sz d cnt)
  define b0 where "b0 = BuildTree mn ml TerrainNode_ctor
                 (x - sz * Fnum 0.25) (z + sz * Fnum 0.25) (sz * Fnum 0.5) (d + 1) (cnt + 1)"
  define b1 where "b1 = BuildTree mn ml TerrainNode_ctor
                 (x + sz * Fnum 0.25) (z + sz * Fnum 0.25) (sz * Fnum 0.5) (d + 1) (snd b0)"
  define b2 where "b2 = BuildTree mn ml TerrainNode_ctor
                 (x - sz * Fnum 0.25) (z - sz * Fnum 0.25) (sz * Fnum 0.5) (d + 1) (snd b1)"
  define b3 where "b3 = BuildTree mn ml TerrainNode_ctor
                 (x + sz * Fnum 0.25) (z - sz * Fnum 0.25) (sz * Fnum 0.5) (d + 1) (snd b2)"
  have "cnt + 1 < snd b0" "snd b0 < snd b1" "snd b1 < snd b2" "snd b2 < snd b3"
    unfolding b0_def b1_def b2_def b3_def by (rule inner.IH)+
  moreover have "snd (BuildTree mn ml node x z sz d cnt) = snd b3"
    unfolding BuildTree_node [OF inner.hyps] Let_def snd_conv b0_def b1_def b2_def b3_def ..
  ultimately show ?case by linarith
qed

lemma BuildTree_inner_count_gt:
  assumes "sz > mn" "d < wrap32 (ml - 1)"
  shows "cnt + 1 < snd (BuildTree mn ml node x z sz d cnt)"
proof -
  define b0 where "b0 = BuildTree mn ml TerrainNode_ctor
                 (x - sz * Fnum 0.25) (z + sz * Fnum 0.25) (sz * Fnum 0.5) (d + 1) (cnt + 1)"
  define b1 where "b1 = BuildTree mn ml TerrainNode_ctor
                 (x + sz * Fnum 0.25) (z + sz * Fnum 0.25) (sz * Fnum 0.5) (d + 1) (snd b0)"
  define b2 where "b2 = BuildTree mn ml TerrainNode_ctor
                 (x - sz * Fnum 0.25) (z - sz * Fnum 0.25) (sz * Fnum 0.5) (d + 1) (snd b1)"
  define b3 where "b3 = BuildTree mn ml TerrainNode_ctor
                 (x + sz * Fnum 0.25) (z - sz * Fnum 0.25) (sz * Fnum 0.5) (d + 1) (snd b2)"
  have "cnt + 1 < snd b0" "snd b0 < snd b1" "snd b1 < snd b2" "snd b2 < snd b3"
    unfolding b0_def b1_def b2_def b3_def by (rule BuildTree_count_gt)+
  moreover have "snd (BuildTree mn ml node x z sz d cnt) = snd b3"
    unfolding BuildTree_node [OF assms] Let_def snd_conv b0_def b1_def b2_def b3_def ..
  ultimately show ?thesis by linarith
qed

subsection \<open>Initialize\<close>

lemma shl1_ok: "0 \<le> k \<Longrightarrow> k \<le> 31 \<Longrightarrow> \<exists>v. shl1 k = Inr v"
  by (auto simp: shl1_def)

lemma DefaultLODDistances_loop_ok:
  "0 \<le> i \<Longrightarrow> maxLODLevels \<le> 32 \<Longrightarrow>
   \<exists>ds'. DefaultLODDistances_loop minNodeSize maxLODLevels i ds = Inr ds'"
proof (induction minNodeSize maxLODLevels i ds rule: DefaultLODDistances_loop.induct)
  case (1 minNodeSize maxLODLevels i ds)
  show ?case
  proof (cases "i < maxLODLevels")
    case True
    with "1.prems" obtain v where v: "shl1 (maxLODLevels - i - 1) = Inr v"
      using shl1_ok [of "maxLODLevels - i - 1"] by auto
    from "1.IH" [OF True v] "1.prems" True v show ?thesis
      by (subst DefaultLODDistances_loop.simps) simp
  next
    case False
    then show ?thesis by (subst DefaultLODDistances_loop.simps) simp
  qed
qed

lemma DefaultLODDistances_ok:
  "0 \<le> maxLODLevels \<Longrightarrow> maxLODLevels \<le> 32 \<Longrightarrow>
   \<exists>ds. DefaultLODDistances minNodeSize maxLODLevels = Inr ds"
  unfolding DefaultLODDistances_def using DefaultLODDistances_loop_ok [of 0 maxLODLevels] by simp

lemma Initialize_Inr:
  assumes "Initialize terrainSize minNodeSize maxLODLevels q = Inr q'"
  shows "mRoot q' = Some (fst (BuildTree minNodeSize maxLODLevels TerrainNode_ctor (Fnum 0) (Fnum 0) terrainSize 0 0))"
    and "mTotalNodeCount q' = snd (BuildTree minNodeSize maxLODLevels TerrainNode_ctor (Fnum 0) (Fnum 0) terrainSize 0 0)"
    and "mTerrainSize q' = terrainSize" and "mMinNodeSize q' = minNodeSize"
    and "mMaxLODLevels q' = maxLODLevels"
    and "mVisibleNodeCount q' = mVisibleNodeCount q"
    and "mNextObjectCBIndex q' = mNextObjectCBIndex q"
  using assms
  by (auto simp: Initialize_def Let_def split: sum.splits prod.splits if_splits)

lemma Initialize_ok:
  assumes "mLODDistances q \<noteq> [] \<or> (0 \<le> maxLODLevels \<and> maxLODLevels \<le> 32)"
  shows "\<exists>q'. Initialize terrainSize minNodeSize maxLODLevels q = Inr q'"
  using assms DefaultLODDistances_ok [of maxLODLevels minNodeSize]
  by (auto simp: Initialize_def Let_def split: sum.splits prod.splits)


subsection \<open>Frustum test and evaluation\<close>

lemma Intersects_unfold:
  "Intersects b pl \<longleftrightarrow>
     \<not> planeDistance (pl 0) (positiveVertex b (pl 0)) < Fnum 0 \<and>
     \<not> planeDistance (pl 1) (positiveVertex b (pl 1)) < Fnum 0 \<and>
     \<not> planeDistance (pl 2) (positiveVertex b (pl 2)) < Fnum 0 \<and>
     \<not> planeDistance (pl 3) (positiveVertex b (pl 3)) < Fnum 0 \<and>
     \<not> planeDistance (pl 4) (positiveVertex b (pl 4)) < Fnum 0 \<and>
     \<not> planeDistance (pl 5) (positiveVertex b (pl 5)) < Fnum 0"
proof -
  have step: "Intersects_loop b pl i =
      (if i < 6 then \<not> planeDistance (pl i) (positiveVertex b (pl i)) < Fnum 0
                     \<and> Intersects_loop b pl (Suc i) else True)" for i
    by (subst Intersects_loop.simps) simp
  have "Intersects_loop b pl 0 \<longleftrightarrow>
     \<not> planeDistance (pl 0) (positiveVertex b (pl 0)) < Fnum 0 \<and>
     \<not> planeDistance (pl (Suc 0)) (positiveVertex b (pl (Suc 0))) < Fnum 0 \<and>
     \<not> planeDistance (pl (Suc (Suc 0))) (positiveVertex b (pl (Suc (Suc 0)))) < Fnum 0 \<and>
     \<not> planeDistance (pl (Suc (Suc (Suc 0)))) (positiveVertex b (pl (Suc (Suc (Suc 0))))) < Fnum 0 \<and>
     \<not> planeDistance (pl (Suc (Suc (Suc (Suc 0)))))
         (positiveVertex b (pl (Suc (Suc (Suc (Suc 0)))))) < Fnum 0 \<and>
     \<not> planeDistance (pl (Suc (Suc (Suc (Suc (Suc 0))))))
         (positiveVertex b (pl (Suc (Suc (Suc (Suc (Suc 0))))))) < Fnum 0"
    by (subst step, simp, subst step, simp, subst step, simp, subst step, simp,
        subst step, simp, subst step, simp, subst step, simp)
  then show ?thesis
    unfolding Intersects_def by (simp add: eval_nat_numeral)
qed

lemma planeDistance_acceptAll: "\<not> planeDistance (acceptAll i) v < Fnum 0"
proof -
  have "Fnum 0 * x3 v + Fnum 0 * y3 v + Fnum 0 * z3 v = Fnum 0
      \<or> Fnum 0 * x3 v + Fnum 0 * y3 v + Fnum 0 * z3 v = NaN"
    by (intro zero_or_NaN_plus zero_times)
  then show ?thesis unfolding planeDistance_def acceptAll_def by auto
qed

lemma Intersects_acceptAll [simp]: "Intersects b acceptAll"
  by (simp add: Intersects_unfold planeDistance_acceptAll)

text \<open>Evaluation of the concrete inputs.\<close>

lemmas Initialize_eval = Initialize_def QuadTree_ctor_def DefaultLODDistances_def
  DefaultLODDistances_loop.simps shl1_def eval_nat_numeral

lemma Initialize_small: "Initialize (Fnum 2) (Fnum 1) 2 QuadTree_ctor = Inr smallTerrain"
  by (simp add: Initialize_eval smallTerrain_def smallRoot_def BuildTree_eval)

lemma Initialize_terrain4: "Initialize (Fnum 4) (Fnum 1) 3 QuadTree_ctor = Inr terrain4"
  by (simp add: Initialize_eval terrain4_def BuildTree_eval)

lemma Initialize_terrain512:
  "Initialize (Fnum 512) (Fnum 64) 5 QuadTree_ctor = Inr terrain512"
  by (simp add: Initialize_eval terrain512_def BuildTree_eval)

lemmas Update_eval = Update_def Let_def CalculateLOD_def ShouldSubdivide_def fl_sqrt_less_iff

lemmas frustum_eval = Intersects_unfold boxFrustum_def planeDistance_def positiveVertex_def

subsection \<open>Result collection\<close>

lemma CollectChildren_acc_aux:
  assumes "\<And>c p' out'. Some c \<in> set cs \<Longrightarrow>
             CollectVisibleNodes c p' out' = out' @ CollectVisibleNodes c p' []"
  shows "CollectChildren cs p i outNodes = outNodes @ CollectChildren cs p i []"
  using assms
proof (induction cs arbitrary: i outNodes)
  case Nil
  show ?case by simp
next
  case (Cons c cs)
  have IH: "CollectChildren cs p (i + 1) out' = out' @ CollectChildren cs p (i + 1) []" for out'
  proof (rule Cons.IH)
    fix c' p' out''
    assume "Some c' \<in> set cs"
    then have "Some c' \<in> set (c # cs)" by simp
    then show "CollectVisibleNodes c' p' out'' = out'' @ CollectVisibleNodes c' p' []"
      by (rule Cons.prems)
  qed
  show ?case
  proof (cases c)
    case None
    with IH [of outNodes] show ?thesis by simp
  next
    case (Some n)
    have "Some n \<in> set (c # cs)" using Some by simp
    then have n: "CollectVisibleNodes n (p @ [i]) outNodes
        = outNodes @ CollectVisibleNodes n (p @ [i]) []"
      by (rule Cons.prems)
    have "CollectChildren (c # cs) p i outNodes
        = CollectChildren cs p (i + 1) (CollectVisibleNodes n (p @ [i]) outNodes)"
      using Some by simp
    also have "\<dots> = (outNodes @ CollectVisibleNodes n (p @ [i]) []) @ CollectChildren cs p (i + 1) []"
      unfolding n by (rule IH)
    also have "\<dots> = outNodes @ CollectChildren cs p (i + 1) (CollectVisibleNodes n (p @ [i]) [])"
      unfolding IH [of "CollectVisibleNodes n (p @ [i]) []"] by simp
    also have "\<dots> = outNodes @ CollectChildren (c # cs) p i []"
      using Some by simp
    finally show ?thesis .
  qed
qed

lemma CollectVisibleNodes_acc:
  "CollectVisibleNodes n p outNodes = outNodes @ CollectVisibleNodes n p []"
proof (induction n arbitrary: p outNodes)
  case (TerrainNode f cs)
  have "CollectChildren cs p 0 outNodes = outNodes @ CollectChildren cs p 0 []"
  proof (rule CollectChildren_acc_aux)
    fix c p' out'
    assume "Some c \<in> set cs"
    then show "CollectVisibleNodes c p' out' = out' @ CollectVisibleNodes c p' []"
      by (rule TerrainNode.IH) simp
  qed
  then show ?case by simp
qed

lemma CollectChildren_acc:
  "CollectChildren cs p i outNodes = outNodes @ CollectChildren cs p i []"
  by (rule CollectChildren_acc_aux) (rule CollectVisibleNodes_acc)

lemma CollectChildren_Some:
  "CollectChildren (Some c # cs) p i [] =
     CollectVisibleNodes c (p @ [i]) [] @ CollectChildren cs p (Suc i) []"
  using CollectChildren_acc [of cs p "Suc i" "CollectVisibleNodes c (p @ [i]) []"] by simp

lemma CollectChildren_None:
  "CollectChildren (None # cs) p i [] = CollectChildren cs p (Suc i) []"
  by simp

text \<open>Every pointer collected below a node extends the pointer of the node and refers to
  a node of the tree.\<close>

lemma CollectChildren_valid_aux:
  assumes "\<And>c p' r. Some c \<in> set cs \<Longrightarrow> r \<in> set (CollectVisibleNodes c p' []) \<Longrightarrow>
             \<exists>s. r = p' @ s \<and> deref c s \<noteq> None"
    and "r \<in> set (CollectChildren cs p i [])"
  shows "\<exists>j s c. r = p @ [i + j] @ s \<and> j < length cs \<and> cs ! j = Some c \<and> deref c s \<noteq> None"
  using assms
proof (induction cs arbitrary: i)
  case Nil
  then show ?case by simp
next
  case (Cons c cs)
  have IH: "r \<in> set (CollectChildren cs p (Suc i) []) \<Longrightarrow>
      \<exists>j s c'. r = p @ [i + Suc j] @ s \<and> Suc j < length (c # cs) \<and> (c # cs) ! Suc j = Some c'
        \<and> deref c' s \<noteq> None"
    using Cons.IH [of "Suc i"] Cons.prems(1) by fastforce
  show ?case
  proof (cases c)
    case None
    with Cons.prems(2) have "r \<in> set (CollectChildren cs p (Suc i) [])" by simp
    from IH [OF this] show ?thesis by blast
  next
    case (Some n)
    from Cons.prems(2) consider "r \<in> set (CollectVisibleNodes n (p @ [i]) [])"
      | "r \<in> set (CollectChildren cs p (Suc i) [])"
      unfolding Some CollectChildren_Some by auto
    then show ?thesis
    proof cases
      case 1
      then obtain s where "r = (p @ [i]) @ s" "deref n s \<noteq> None"
        using Cons.prems(1) [of n r "p @ [i]"] Some by auto
      then show ?thesis using Some
        by (intro exI [of _ 0] exI [of _ s] exI [of _ n]) simp
    next
      case 2
      with IH show ?thesis by blast
    qed
  qed
qed

lemma CollectVisibleNodes_valid:
  "r \<in> set (CollectVisibleNodes n p []) \<Longrightarrow> \<exists>s. r = p @ s \<and> deref n s \<noteq> None"
proof (induction n arbitrary: p r)
  case (TerrainNode f cs)
  show ?case
  proof (cases "IsVisible f")
    case True
    with TerrainNode.prems show ?thesis by (intro exI [of _ "[]"]) simp
  next
    case False
    with TerrainNode.prems have "r \<in> set (CollectChildren cs p 0 [])"
      by (auto split: if_splits)
    then obtain j s c where "r = p @ [0 + j] @ s" "j < length cs" "cs ! j = Some c"
        "deref c s \<noteq> None"
      using CollectChildren_valid_aux [of cs r p 0] TerrainNode.IH by (metis option.set_intros)
    then show ?thesis by (intro exI [of _ "j # s"]) simp
  qed
qed

lemma CollectChildren_valid:
  "r \<in> set (CollectChildren cs p i []) \<Longrightarrow>
   \<exists>j s c. r = p @ [i + j] @ s \<and> j < length cs \<and> cs ! j = Some c \<and> deref c s \<noteq> None"
  by (rule CollectChildren_valid_aux) (rule CollectVisibleNodes_valid)

lemma sibling_paths_apart:
  assumes "prefix (p @ [i]) a" "prefix (p @ [j]) b" "i \<noteq> j"
  shows "\<not> prefix a b"
proof
  assume "prefix a b"
  with assms(1) have "prefix (p @ [i]) b" by (rule prefix_order.trans)
  with assms(2) have "prefix (p @ [i]) (p @ [j]) \<or> prefix (p @ [j]) (p @ [i])"
    using prefix_same_cases by blast
  with assms(3) show False by (auto simp: prefix_def)
qed

lemma antichain_iff:
  "antichain ps \<longleftrightarrow> (\<forall>a\<in>set ps. \<forall>b\<in>set ps. \<not> strict_prefix a b)"
  by (simp add: antichain_def list_all_iff)

lemma CollectChildren_antichain_aux:
  assumes "\<And>c p'. Some c \<in> set cs \<Longrightarrow> antichain (CollectVisibleNodes c p' [])"
  shows "antichain (CollectChildren cs p i [])"
  using assms
proof (induction cs arbitrary: i)
  case Nil
  then show ?case by (simp add: antichain_iff)
next
  case (Cons c cs)
  have IH: "antichain (CollectChildren cs p (Suc i) [])"
  proof (rule Cons.IH)
    fix c' p'
    assume "Some c' \<in> set cs"
    then have "Some c' \<in> set (c # cs)" by simp
    then show "antichain (CollectVisibleNodes c' p' [])" by (rule Cons.prems)
  qed
  show ?case
  proof (cases c)
    case None
    with IH show ?thesis by simp
  next
    case (Some n)
    have n: "antichain (CollectVisibleNodes n (p @ [i]) [])"
      using Cons.prems [of n] Some by simp
    have left: "prefix (p @ [i]) a" if "a \<in> set (CollectVisibleNodes n (p @ [i]) [])" for a
      using CollectVisibleNodes_valid [OF that] by auto
    have right: "\<exists>j. j \<noteq> i \<and> prefix (p @ [j]) b"
      if "b \<in> set (CollectChildren cs p (Suc i) [])" for b
    proof -
      from CollectChildren_valid [OF that] obtain j s where "b = p @ [Suc i + j] @ s" by blast
      then have "prefix (p @ [Suc i + j]) b" by simp
      then show ?thesis by (intro exI [of _ "Suc i + j"]) simp
    qed
    show ?thesis
      unfolding Some CollectChildren_Some antichain_iff
      using n IH left right sibling_paths_apart [of p]
      unfolding antichain_iff strict_prefix_def
      by (metis Un_iff set_append)
  qed
qed

lemma CollectVisibleNodes_antichain: "antichain (CollectVisibleNodes n p [])"
proof (induction n arbitrary: p)
  case (TerrainNode f cs)
  have "antichain (CollectChildren cs p 0 [])"
  proof (rule CollectChildren_antichain_aux)
    fix c p'
    assume "Some c \<in> set cs"
    then show "antichain (CollectVisibleNodes c p' [])"
      by (rule TerrainNode.IH) simp
  qed
  then show ?case by (simp add: antichain_iff)
qed

subsection \<open>Claims about construction\<close>

lemma Initialize_512_64_5_facts:
  assumes "Initialize (Fnum 512) (Fnum 64) 5 q = Inr q'"
  shows "GetTotalNodeCount q' = 85"
    and "map_option (completeTree 3) (mRoot q') = Some True"
    and "map_option node_count (mRoot q') = Some 85"
    and "map_option (completeTree 4) (mRoot q') = Some False"
  unfolding GetTotalNodeCount_def Initialize_Inr [OF assms]
  by (simp_all add: BuildTree_eval node_count_def)

text \<open>Claim C2, as the code has it. After \<open>Initialize(512, 64, 5)\<close>, whatever the object
  was before, the tree is a complete quadtree of depth 3 (the nodes of side 64 at depth 3
  fail \<open>size > minNodeSize\<close> and are leaves) and \<open>GetTotalNodeCount()\<close> returns
  \<open>85 = 1 + 4 + 16 + 64\<close>, the number of nodes of the tree.\<close>

theorem Initialize_512_64_5:
  "\<exists>q'. Initialize (Fnum 512) (Fnum 64) 5 q = Inr q' \<and> GetTotalNodeCount q' = 85
        \<and> map_option (completeTree 3) (mRoot q') = Some True
        \<and> map_option node_count (mRoot q') = Some 85"
proof -
  obtain q' where q': "Initialize (Fnum 512) (Fnum 64) 5 q = Inr q'"
    using Initialize_ok [of q 5 "Fnum 512" "Fnum 64"] by auto
  with Initialize_512_64_5_facts [OF q'] show ?thesis by blast
qed

text \<open>Claim C2 as stated fails: the count is not 341 and the tree is not a complete
  quadtree of depth 4.\<close>

theorem Initialize_512_64_5_not_341:
  "map_sum id GetTotalNodeCount (Initialize (Fnum 512) (Fnum 64) 5 QuadTree_ctor) \<noteq> Inr 341
   \<and> map_sum id (map_option (completeTree 4) \<circ> mRoot)
        (Initialize (Fnum 512) (Fnum 64) 5 QuadTree_ctor)
       = Inr (Some False)"
proof -
  obtain q' where q': "Initialize (Fnum 512) (Fnum 64) 5 QuadTree_ctor = Inr q'"
    using Initialize_ok [of QuadTree_ctor 5 "Fnum 512" "Fnum 64"] by auto
  show ?thesis
    unfolding q' using Initialize_512_64_5_facts [OF q'] by simp
qed

lemma Initialize_root_shape:
  assumes "Initialize terrainSize minNodeSize maxLODLevels q = Inr q'"
  shows "\<exists>f cs. mRoot q' = Some (TerrainNode f cs) \<and>
           (if \<not> terrainSize > minNodeSize \<or> wrap32 (maxLODLevels - 1) \<le> 0
            then IsLeaf f \<and> cs = [None, None, None, None] \<and> GetTotalNodeCount q' = 1
            else \<not> IsLeaf f \<and> 1 < GetTotalNodeCount q')"
proof (cases "\<not> terrainSize > minNodeSize \<or> wrap32 (maxLODLevels - 1) \<le> 0")
  case True
  then have "\<not> (terrainSize > minNodeSize \<and> 0 < wrap32 (maxLODLevels - 1))" by auto
  then show ?thesis
    unfolding GetTotalNodeCount_def Initialize_Inr [OF assms]
    using True by (simp add: BuildTree_leaf)
next
  case False
  then have a: "terrainSize > minNodeSize" and b: "0 < wrap32 (maxLODLevels - 1)" by auto
  obtain f cs where t: "fst (BuildTree minNodeSize maxLODLevels TerrainNode_ctor (Fnum 0) (Fnum 0)
                               terrainSize 0 0)
      = TerrainNode f cs" and f: "\<not> IsLeaf f"
    using BuildTree_inner_shape [OF a b, of TerrainNode_ctor "Fnum 0" "Fnum 0" 0] by blast
  have "0 + 1 < snd (BuildTree minNodeSize maxLODLevels TerrainNode_ctor (Fnum 0) (Fnum 0)
                       terrainSize 0 0)"
    by (rule BuildTree_inner_count_gt [OF a b])
  then show ?thesis
    unfolding GetTotalNodeCount_def Initialize_Inr [OF assms]
    using False t f by simp
qed

text \<open>Claim C7, as the code has it. \<open>maxLODLevels\<close> is a 32-bit \<open>int\<close>. Whenever
  \<open>Initialize\<close> returns (thresholds set beforehand, or \<open>0 \<le> maxLODLevels \<le> 32\<close>), the tree
  is a single leaf with \<open>GetTotalNodeCount() = 1\<close> exactly when the comparison
  \<open>terrainSize > minNodeSize\<close> is false, as it is when one of the two is NaN, or
  \<open>maxLODLevels \<le> 1\<close>, the most negative \<open>int\<close> apart, for which \<open>maxLODLevels - 1\<close> wraps to
  the largest one; otherwise the root is subdivided. A non-positive \<open>terrainSize\<close> gives
  the single leaf when \<open>minNodeSize\<close> is not below it; a non-positive \<open>minNodeSize\<close> alone
  does not.\<close>

theorem Initialize_single_node_iff:
  assumes "- 2147483648 \<le> maxLODLevels" and "maxLODLevels < 2147483648"
    and "(0 \<le> maxLODLevels \<and> maxLODLevels \<le> 32) \<or> mLODDistances q \<noteq> []"
  shows "\<exists>q' f cs. Initialize terrainSize minNodeSize maxLODLevels q = Inr q' \<and>
           mRoot q' = Some (TerrainNode f cs) \<and>
           (if \<not> terrainSize > minNodeSize \<or> (maxLODLevels \<le> 1 \<and> maxLODLevels \<noteq> - 2147483648)
            then IsLeaf f \<and> cs = [None, None, None, None] \<and> GetTotalNodeCount q' = 1
            else \<not> IsLeaf f \<and> 1 < GetTotalNodeCount q')"
proof -
  obtain q' where q': "Initialize terrainSize minNodeSize maxLODLevels q = Inr q'"
    using Initialize_ok [of q maxLODLevels terrainSize minNodeSize] assms(3) by blast
  have "wrap32 (maxLODLevels - 1) \<le> 0 \<longleftrightarrow> maxLODLevels \<le> 1 \<and> maxLODLevels \<noteq> - 2147483648"
    unfolding wrap32_pred [OF assms(1,2)] by simp
  then show ?thesis
    using Initialize_root_shape [OF q'] q' by auto
qed

text \<open>At \<open>Initialize(-512, 64, 5)\<close> and at \<open>Initialize(NaN, 64, 5)\<close> the tree is the single
  leaf; at \<open>Initialize(512, 64, INT_MIN)\<close> with thresholds set the root is subdivided.\<close>

theorem Initialize_single_node_iff_witness:
  "(- 2147483648 \<le> (5::int) \<and> (5::int) < 2147483648 \<and>
    (((0::int) \<le> 5 \<and> (5::int) \<le> 32) \<or> mLODDistances QuadTree_ctor \<noteq> [])) \<and>
   (\<exists>q' f. Initialize (Fnum (-512)) (Fnum 64) 5 QuadTree_ctor = Inr q' \<and>
           mRoot q' = Some (TerrainNode f [None, None, None, None]) \<and>
           IsLeaf f \<and> GetTotalNodeCount q' = 1) \<and>
   (\<exists>q' f. Initialize NaN (Fnum 64) 5 QuadTree_ctor = Inr q' \<and>
           mRoot q' = Some (TerrainNode f [None, None, None, None]) \<and>
           IsLeaf f \<and> GetTotalNodeCount q' = 1) \<and>
   (\<exists>q' f cs. Initialize (Fnum 512) (Fnum 64) (- 2147483648)
                  (SetLODDistances [Fnum 1] QuadTree_ctor) = Inr q' \<and>
           mRoot q' = Some (TerrainNode f cs) \<and> \<not> IsLeaf f \<and> 1 < GetTotalNodeCount q')"
proof -
  have a: "\<exists>q' f. Initialize (Fnum (-512)) (Fnum 64) 5 QuadTree_ctor = Inr q' \<and>
           mRoot q' = Some (TerrainNode f [None, None, None, None]) \<and>
           IsLeaf f \<and> GetTotalNodeCount q' = 1"
    using Initialize_single_node_iff
          [where q = QuadTree_ctor and maxLODLevels = 5 and terrainSize = "Fnum (-512)"
             and minNodeSize = "Fnum 64"]
    by simp
  have b: "\<exists>q' f. Initialize NaN (Fnum 64) 5 QuadTree_ctor = Inr q' \<and>
           mRoot q' = Some (TerrainNode f [None, None, None, None]) \<and>
           IsLeaf f \<and> GetTotalNodeCount q' = 1"
    using Initialize_single_node_iff
          [where q = QuadTree_ctor and maxLODLevels = 5 and terrainSize = NaN
             and minNodeSize = "Fnum 64"]
    by simp
  have c: "\<exists>q' f cs. Initialize (Fnum 512) (Fnum 64) (- 2147483648)
                  (SetLODDistances [Fnum 1] QuadTree_ctor) = Inr q' \<and>
           mRoot q' = Some (TerrainNode f cs) \<and> \<not> IsLeaf f \<and> 1 < GetTotalNodeCount q'"
    using Initialize_single_node_iff
          [where q = "SetLODDistances [Fnum 1] QuadTree_ctor" and maxLODLevels = "- 2147483648"
             and terrainSize = "Fnum 512" and minNodeSize = "Fnum 64"]
    by (simp add: SetLODDistances_def)
  from a b c show ?thesis by simp
qed

text \<open>Claim C7 as stated fails at the non-positive \<open>minNodeSize = 0\<close>: the tree of
  \<open>Initialize(512, 0, 5)\<close> has 341 nodes and its root is not a leaf.\<close>

theorem Initialize_nonpositive_minNodeSize_341:
  "map_sum id GetTotalNodeCount (Initialize (Fnum 512) (Fnum 0) 5 QuadTree_ctor) = Inr 341
   \<and> map_sum id (map_option (IsLeaf \<circ> Fields) \<circ> mRoot)
        (Initialize (Fnum 512) (Fnum 0) 5 QuadTree_ctor)
       = Inr (Some False)"
proof -
  obtain q' where q': "Initialize (Fnum 512) (Fnum 0) 5 QuadTree_ctor = Inr q'"
    using Initialize_ok [of QuadTree_ctor 5 "Fnum 512" "Fnum 0"] by auto
  show ?thesis
    unfolding q' map_sum.simps GetTotalNodeCount_def comp_def Initialize_Inr [OF q']
    by (simp add: BuildTree_eval)
qed

lemma quartered_children:
  assumes "quartered f cs"
  obtains c0 c1 c2 c3 where "cs = [Some c0, Some c1, Some c2, Some c3]"
    "childPlacement c0 = (Size f * Fnum 0.5, X f - Size f * Fnum 0.25, Z f + Size f * Fnum 0.25)"
    "childPlacement c1 = (Size f * Fnum 0.5, X f + Size f * Fnum 0.25, Z f + Size f * Fnum 0.25)"
    "childPlacement c2 = (Size f * Fnum 0.5, X f - Size f * Fnum 0.25, Z f - Size f * Fnum 0.25)"
    "childPlacement c3 = (Size f * Fnum 0.5, X f + Size f * Fnum 0.25, Z f - Size f * Fnum 0.25)"
  using assms unfolding quartered_def map_eq_Cons_conv by auto

text \<open>Where the halves and quarter offsets are exact, the children have the side \<open>S/2\<close> and
  the centres \<open>(x - S/4, z + S/4)\<close>, \<open>(x + S/4, z + S/4)\<close>, \<open>(x - S/4, z - S/4)\<close>,
  \<open>(x + S/4, z - S/4)\<close>.\<close>

lemma exactQuarters_children:
  assumes "quartered f cs" and "exactQuarters f"
  obtains c0 c1 c2 c3 where "cs = [Some c0, Some c1, Some c2, Some c3]"
    "val (Size (Fields c0)) = val (Size f) / 2" "val (Size (Fields c1)) = val (Size f) / 2"
    "val (Size (Fields c2)) = val (Size f) / 2" "val (Size (Fields c3)) = val (Size f) / 2"
    "val (X (Fields c0)) = val (X f) - val (Size f) / 4"
    "val (Z (Fields c0)) = val (Z f) + val (Size f) / 4"
    "val (X (Fields c1)) = val (X f) + val (Size f) / 4"
    "val (Z (Fields c1)) = val (Z f) + val (Size f) / 4"
    "val (X (Fields c2)) = val (X f) - val (Size f) / 4"
    "val (Z (Fields c2)) = val (Z f) - val (Size f) / 4"
    "val (X (Fields c3)) = val (X f) + val (Size f) / 4"
    "val (Z (Fields c3)) = val (Z f) - val (Size f) / 4"
proof -
  from assms(1) obtain c0 c1 c2 c3 where cs: "cs = [Some c0, Some c1, Some c2, Some c3]"
    and p: "childPlacement c0 = (Size f * Fnum 0.5, X f - Size f * Fnum 0.25, Z f + Size f * Fnum 0.25)"
      "childPlacement c1 = (Size f * Fnum 0.5, X f + Size f * Fnum 0.25, Z f + Size f * Fnum 0.25)"
      "childPlacement c2 = (Size f * Fnum 0.5, X f - Size f * Fnum 0.25, Z f - Size f * Fnum 0.25)"
      "childPlacement c3 = (Size f * Fnum 0.5, X f + Size f * Fnum 0.25, Z f - Size f * Fnum 0.25)"
    by (rule quartered_children)
  from assms(2) have e: "Size f * Fnum 0.5 = Fnum (val (Size f) / 2)"
    "X f - Size f * Fnum 0.25 = Fnum (val (X f) - val (Size f) / 4)"
    "X f + Size f * Fnum 0.25 = Fnum (val (X f) + val (Size f) / 4)"
    "Z f - Size f * Fnum 0.25 = Fnum (val (Z f) - val (Size f) / 4)"
    "Z f + Size f * Fnum 0.25 = Fnum (val (Z f) + val (Size f) / 4)"
    unfolding exactQuarters_def by simp_all
  show ?thesis
    by (rule that [OF cs]) (use p in \<open>simp_all add: childPlacement_def e [simplified]\<close>)
qed

lemma quartered_footprint:
  assumes "quartered f cs" and "exactQuarters f"
  shows "inFootprint f px pz \<longleftrightarrow> (\<exists>c. Some c \<in> set cs \<and> inFootprint (Fields c) px pz)"
proof -
  from assms obtain c0 c1 c2 c3 where cs: "cs = [Some c0, Some c1, Some c2, Some c3]"
    and p: "val (Size (Fields c0)) = val (Size f) / 2" "val (Size (Fields c1)) = val (Size f) / 2"
      "val (Size (Fields c2)) = val (Size f) / 2" "val (Size (Fields c3)) = val (Size f) / 2"
      "val (X (Fields c0)) = val (X f) - val (Size f) / 4"
      "val (Z (Fields c0)) = val (Z f) + val (Size f) / 4"
      "val (X (Fields c1)) = val (X f) + val (Size f) / 4"
      "val (Z (Fields c1)) = val (Z f) + val (Size f) / 4"
      "val (X (Fields c2)) = val (X f) - val (Size f) / 4"
      "val (Z (Fields c2)) = val (Z f) - val (Size f) / 4"
      "val (X (Fields c3)) = val (X f) + val (Size f) / 4"
      "val (Z (Fields c3)) = val (Z f) - val (Size f) / 4"
    by (rule exactQuarters_children)
  have "(\<exists>c. Some c \<in> set cs \<and> inFootprint (Fields c) px pz) \<longleftrightarrow>
      inFootprint (Fields c0) px pz \<or> inFootprint (Fields c1) px pz
      \<or> inFootprint (Fields c2) px pz \<or> inFootprint (Fields c3) px pz"
    unfolding cs by auto
  also have "\<dots> \<longleftrightarrow> inFootprint f px pz"
    unfolding inFootprint_def p abs_le_iff by argo
  finally show ?thesis by simp
qed

lemma quartered_interiors:
  assumes "quartered f cs" and "exactQuarters f"
  shows "interiorsApart cs px pz"
proof -
  from assms obtain c0 c1 c2 c3 where cs: "cs = [Some c0, Some c1, Some c2, Some c3]"
    and p: "val (Size (Fields c0)) = val (Size f) / 2" "val (Size (Fields c1)) = val (Size f) / 2"
      "val (Size (Fields c2)) = val (Size f) / 2" "val (Size (Fields c3)) = val (Size f) / 2"
      "val (X (Fields c0)) = val (X f) - val (Size f) / 4"
      "val (Z (Fields c0)) = val (Z f) + val (Size f) / 4"
      "val (X (Fields c1)) = val (X f) + val (Size f) / 4"
      "val (Z (Fields c1)) = val (Z f) + val (Size f) / 4"
      "val (X (Fields c2)) = val (X f) - val (Size f) / 4"
      "val (Z (Fields c2)) = val (Z f) - val (Size f) / 4"
      "val (X (Fields c3)) = val (X f) + val (Size f) / 4"
      "val (Z (Fields c3)) = val (Z f) - val (Size f) / 4"
    by (rule exactQuarters_children)
  have apart: "\<not> (inInterior (Fields a) px pz \<and> inInterior (Fields b) px pz)"
    if "val (Size (Fields a)) = val (Size f) / 2" "val (Size (Fields b)) = val (Size f) / 2"
       "val (X (Fields a)) = val (X f) - val (Size f) / 4 \<and> val (X (Fields b)) = val (X f) + val (Size f) / 4
        \<or> val (X (Fields a)) = val (X f) + val (Size f) / 4 \<and> val (X (Fields b)) = val (X f) - val (Size f) / 4
        \<or> val (Z (Fields a)) = val (Z f) - val (Size f) / 4 \<and> val (Z (Fields b)) = val (Z f) + val (Size f) / 4
        \<or> val (Z (Fields a)) = val (Z f) + val (Size f) / 4 \<and> val (Z (Fields b)) = val (Z f) - val (Size f) / 4"
    for a b
    using that unfolding inInterior_def abs_less_iff by argo
  have pairs: "List.product [0 ..< length cs] [0 ..< length cs] =
      [(0,0),(0,1),(0,2),(0,3),(1,0),(1,1),(1,2),(1,3),
       (2,0),(2,1),(2,2),(2,3),(3,0),(3,1),(3,2),(3,3)]"
    unfolding cs by (simp add: upt_rec)
  show ?thesis
    unfolding interiorsApart_def pairs
    using p unfolding cs
    by (simp add: apart)
qed

lemma builtNode_facts:
  assumes "builtNode n"
  shows "length (Children n) = 4"
    and "IsLeaf (Fields n) \<longleftrightarrow> list_all (\<lambda>c. c = None) (Children n)"
    and "\<not> IsLeaf (Fields n) \<Longrightarrow> quartered (Fields n) (Children n)"
proof -
  show "length (Children n) = 4"
  proof (cases "IsLeaf (Fields n)")
    case True
    with assms show ?thesis by (simp add: builtNode_def)
  next
    case False
    with assms have "quartered (Fields n) (Children n)" by (simp add: builtNode_def)
    then show ?thesis by (rule quartered_children) simp
  qed
  show "IsLeaf (Fields n) \<longleftrightarrow> list_all (\<lambda>c. c = None) (Children n)"
  proof (cases "IsLeaf (Fields n)")
    case True
    with assms show ?thesis by (simp add: builtNode_def)
  next
    case False
    with assms have "quartered (Fields n) (Children n)" by (simp add: builtNode_def)
    then have "\<not> list_all (\<lambda>c. c = None) (Children n)" by (rule quartered_children) simp
    with False show ?thesis by simp
  qed
  show "\<not> IsLeaf (Fields n) \<Longrightarrow> quartered (Fields n) (Children n)"
    using assms by (simp add: builtNode_def)
qed

lemma subnodes_self: "n \<in> set (subnodes n)"
  by (cases n) simp

lemma smallRoot_eval:
  "smallRoot =
     TerrainNode
       \<lparr>X = Fnum 0, Z = Fnum 0, Size = Fnum 2, LODLevel = 0, MaxLOD = 1,
          Bounds = \<lparr>Center = XMFLOAT3 (Fnum 0) (Fnum 50) (Fnum 0),
                    Extents = XMFLOAT3 (Fnum 1) (Fnum 60) (Fnum 1)\<rparr>,
          MinY = Fnum 0, MaxY = Fnum 100, IsLeaf = False, IsVisible = False,
          ObjectCBIndex = 0\<rparr>
       [Some (TerrainNode
           \<lparr>X = Fnum (- (1 / 2)), Z = Fnum (1 / 2), Size = Fnum 1, LODLevel = 1, MaxLOD = 1,
              Bounds = \<lparr>Center = XMFLOAT3 (Fnum (- (1 / 2))) (Fnum 50) (Fnum (1 / 2)),
                         Extents = XMFLOAT3 (Fnum (1 / 2)) (Fnum 60) (Fnum (1 / 2))\<rparr>,
              MinY = Fnum 0, MaxY = Fnum 100, IsLeaf = True, IsVisible = False,
              ObjectCBIndex = 0\<rparr>
           [None, None, None, None]),
        Some (TerrainNode
           \<lparr>X = Fnum (1 / 2), Z = Fnum (1 / 2), Size = Fnum 1, LODLevel = 1, MaxLOD = 1,
              Bounds = \<lparr>Center = XMFLOAT3 (Fnum (1 / 2)) (Fnum 50) (Fnum (1 / 2)),
                         Extents = XMFLOAT3 (Fnum (1 / 2)) (Fnum 60) (Fnum (1 / 2))\<rparr>,
              MinY = Fnum 0, MaxY = Fnum 100, IsLeaf = True, IsVisible = False,
              ObjectCBIndex = 0\<rparr>
           [None, None, None, None]),
        Some (TerrainNode
           \<lparr>X = Fnum (- (1 / 2)), Z = Fnum (- (1 / 2)), Size = Fnum 1, LODLevel = 1, MaxLOD = 1,
              Bounds = \<lparr>Center = XMFLOAT3 (Fnum (- (1 / 2))) (Fnum 50) (Fnum (- (1 / 2))),
                         Extents = XMFLOAT3 (Fnum (1 / 2)) (Fnum 60) (Fnum (1 / 2))\<rparr>,
              MinY = Fnum 0, MaxY = Fnum 100, IsLeaf = True, IsVisible = False,
              ObjectCBIndex = 0\<rparr>
           [None, None, None, None]),
        Some (TerrainNode
           \<lparr>X = Fnum (1 / 2), Z = Fnum (- (1 / 2)), Size = Fnum 1, LODLevel = 1, MaxLOD = 1,
              Bounds = \<lparr>Center = XMFLOAT3 (Fnum (1 / 2)) (Fnum 50) (Fnum (- (1 / 2))),
                         Extents = XMFLOAT3 (Fnum (1 / 2)) (Fnum 60) (Fnum (1 / 2))\<rparr>,
              MinY = Fnum 0, MaxY = Fnum 100, IsLeaf = True, IsVisible = False,
              ObjectCBIndex = 0\<rparr>
           [None, None, None, None])]"
  unfolding smallRoot_def by (simp add: BuildTree_eval)

text \<open>Claim C9, as the code has it. In the tree built by \<open>Initialize\<close>, every node has four
  child slots and is a leaf exactly when all four are empty; every non-leaf node with size
  \<open>S\<close> and centre \<open>(x, z)\<close> has four children of size \<open>S * 0.5f\<close> centred at
  \<open>(x - S * 0.25f, z + S * 0.25f)\<close>, \<open>(x + S * 0.25f, z + S * 0.25f)\<close>,
  \<open>(x - S * 0.25f, z - S * 0.25f)\<close>, \<open>(x + S * 0.25f, z - S * 0.25f)\<close> in the order NW, NE, SW,
  SE, each value rounded to single precision (\<open>quartered\<close>). Where the half and the four
  offsets are computed without rounding (\<open>exactQuarters\<close>), the footprints of the children
  cover exactly the footprint of the parent and the interiors of two different children do
  not meet.\<close>

theorem Initialize_tiling:
  assumes "Initialize terrainSize minNodeSize maxLODLevels q = Inr q'"
    and "mRoot q' = Some rt" and "n \<in> set (subnodes rt)"
  shows "length (Children n) = 4 \<and>
         (IsLeaf (Fields n) \<longleftrightarrow> list_all (\<lambda>c. c = None) (Children n)) \<and>
         (\<not> IsLeaf (Fields n) \<longrightarrow>
            quartered (Fields n) (Children n) \<and>
            (exactQuarters (Fields n) \<longrightarrow>
               (\<forall>px pz. inFootprint (Fields n) px pz \<longleftrightarrow>
                          (\<exists>c. Some c \<in> set (Children n) \<and> inFootprint (Fields c) px pz)) \<and>
               (\<forall>px pz. interiorsApart (Children n) px pz)))"
proof -
  from assms(1,2) have "rt = fst (BuildTree minNodeSize maxLODLevels TerrainNode_ctor (Fnum 0) (Fnum 0)
                                    terrainSize 0 0)"
    using Initialize_Inr(1) by fastforce
  with assms(3) have b: "builtNode n"
    using BuildTree_builtNode [OF Children_ctor] by blast
  show ?thesis
    using builtNode_facts [OF b] quartered_footprint quartered_interiors by blast
qed

theorem Initialize_tiling_witness:
  "Initialize (Fnum 2) (Fnum 1) 2 QuadTree_ctor = Inr smallTerrain \<and>
   mRoot smallTerrain = Some smallRoot \<and>
   smallRoot \<in> set (subnodes smallRoot) \<and> \<not> IsLeaf (Fields smallRoot) \<and>
   exactQuarters (Fields smallRoot) \<and>
   length (Children smallRoot) = 4 \<and>
   quartered (Fields smallRoot) (Children smallRoot) \<and>
   (\<forall>px pz. interiorsApart (Children smallRoot) px pz)"
proof -
  have a: "Initialize (Fnum 2) (Fnum 1) 2 QuadTree_ctor = Inr smallTerrain"
    by (rule Initialize_small)
  have b: "mRoot smallTerrain = Some smallRoot" by (simp add: smallTerrain_def)
  have c: "smallRoot \<in> set (subnodes smallRoot)" by (rule subnodes_self)
  have d: "\<not> IsLeaf (Fields smallRoot)" by (simp add: smallRoot_eval)
  have e: "exactQuarters (Fields smallRoot)" by (simp add: smallRoot_eval exactQuarters_def)
  from Initialize_tiling [OF a b c] a b c d e show ?thesis by blast
qed

lemma round32_6291457:
  "round32 (25165827 / 4) = Fnum 6291457"
  "round32 (- (25165827 / 4)) = Fnum (- 6291457)"
proof -
  have a: "fl (25165827 / 4) = 6291457"
    using fl_eqI [of 22 "25165827 / 4" 12582914] by (simp add: rne_def Let_def)
  have b: "fl (- (25165827 / 4)) = - 6291457"
    unfolding fl_neg a ..
  show "round32 (25165827 / 4) = Fnum 6291457" unfolding round32_def a by simp
  show "round32 (- (25165827 / 4)) = Fnum (- 6291457)" unfolding round32_def b by simp
qed

lemma fl_quarters24: "4 * x \<in> \<int> \<Longrightarrow> \<bar>x\<bar> < 4194304 \<Longrightarrow> fl x = x"
  using fl_grid [of x 2] by (simp add: mult.commute)

lemma fl_halves24: "2 * x \<in> \<int> \<Longrightarrow> \<bar>x\<bar> < 8388608 \<Longrightarrow> fl x = x"
  using fl_grid [of x 1] by (simp add: mult.commute)

lemma fl_int24: "x \<in> \<int> \<Longrightarrow> \<bar>x\<bar> < 16777216 \<Longrightarrow> fl x = x"
  using fl_grid [of x 0] by simp

lemmas odd_eval = round32_6291457 round32_exact fl_quarters24 fl_halves24 fl_int24

lemma Initialize_terrainOdd:
  "Initialize (Fnum 16777218) (Fnum 1) 3 QuadTree_ctor = Inr terrainOdd"
  by (simp add: Initialize_eval terrainOdd_def BuildTree_eval odd_eval)

text \<open>Claim C9 as stated fails where the offsets are rounded. In the tree of
  \<open>Initialize(16777218, 1, 3)\<close> the node \<open>[1]\<close> has side \<open>8388609\<close> and centre
  \<open>(4194304.5, 4194304.5)\<close>; its child \<open>[1, 1]\<close> is centred at \<open>6291457\<close>, the rounding of
  \<open>4194304.5 + 2097152.25\<close>. The point \<open>(4194304.625, 1)\<close> of the footprint of \<open>[1]\<close> lies in
  the footprint of none of its children.\<close>

theorem Initialize_16777218_gap:
  "Initialize (Fnum 16777218) (Fnum 1) 3 QuadTree_ctor = Inr terrainOdd \<and>
   map_option IsLeaf (nodeAt terrainOdd [1]) = Some False \<and>
   placementAt terrainOdd [1] = Some (Fnum 8388609, Fnum (8388609 / 2), Fnum (8388609 / 2)) \<and>
   placementAt terrainOdd [1, 1] = Some (Fnum (8388609 / 2), Fnum 6291457, Fnum 6291457) \<and>
   8388609 / 2 + 8388609 / 4 \<noteq> (6291457 :: real) \<and>
   footprintAt terrainOdd [1] (33554437 / 8) 1 = Some True \<and>
   footprintAt terrainOdd [1, 0] (33554437 / 8) 1 = Some False \<and>
   footprintAt terrainOdd [1, 1] (33554437 / 8) 1 = Some False \<and>
   footprintAt terrainOdd [1, 2] (33554437 / 8) 1 = Some False \<and>
   footprintAt terrainOdd [1, 3] (33554437 / 8) 1 = Some False"
proof -
  have t: "mRoot terrainOdd = Some (fst (BuildTree (Fnum 1) 3 TerrainNode_ctor (Fnum 0) (Fnum 0)
                           (Fnum 16777218) 0 0))"
    by (simp add: terrainOdd_def)
  have "map_option IsLeaf (nodeAt terrainOdd [1]) = Some False"
    unfolding nodeAt_def t by (simp add: BuildTree_eval odd_eval)
  moreover have "placementAt terrainOdd [1]
      = Some (Fnum 8388609, Fnum (8388609 / 2), Fnum (8388609 / 2))"
    unfolding placementAt_def nodeAt_def t by (simp add: BuildTree_eval odd_eval)
  moreover have "placementAt terrainOdd [1, 1]
      = Some (Fnum (8388609 / 2), Fnum 6291457, Fnum 6291457)"
    unfolding placementAt_def nodeAt_def t by (simp add: BuildTree_eval odd_eval)
  moreover have "footprintAt terrainOdd [1] (33554437 / 8) 1 = Some True"
    unfolding footprintAt_def nodeAt_def t by (simp add: BuildTree_eval odd_eval inFootprint_def)
  moreover have "footprintAt terrainOdd [1, 0] (33554437 / 8) 1 = Some False"
    unfolding footprintAt_def nodeAt_def t by (simp add: BuildTree_eval odd_eval inFootprint_def)
  moreover have "footprintAt terrainOdd [1, 1] (33554437 / 8) 1 = Some False"
    unfolding footprintAt_def nodeAt_def t by (simp add: BuildTree_eval odd_eval inFootprint_def)
  moreover have "footprintAt terrainOdd [1, 2] (33554437 / 8) 1 = Some False"
    unfolding footprintAt_def nodeAt_def t by (simp add: BuildTree_eval odd_eval inFootprint_def)
  moreover have "footprintAt terrainOdd [1, 3] (33554437 / 8) 1 = Some False"
    unfolding footprintAt_def nodeAt_def t by (simp add: BuildTree_eval odd_eval inFootprint_def)
  ultimately show ?thesis using Initialize_terrainOdd by simp
qed

subsection \<open>Claims about the height range and the uninitialised object\<close>

lemma round32_grid32: "32 * x \<in> \<int> \<Longrightarrow> \<bar>x\<bar> < 524288 \<Longrightarrow> round32 x = Fnum x"
proof -
  assume a: "32 * x \<in> \<int>" and b: "\<bar>x\<bar> < 524288"
  have "fl x = x" using a b by (intro fl_grid [of x 5]) (simp_all add: mult.commute)
  then show ?thesis using b by (intro round32_exact) simp_all
qed

text \<open>Heights that are multiples of \<open>1/16\<close> below \<open>2^18\<close> in magnitude: the centre and the
  extent of the box are computed without rounding.\<close>

lemma exact_heights:
  assumes "16 * a \<in> \<int>" "16 * b \<in> \<int>" "\<bar>a\<bar> < 262144" "\<bar>b\<bar> < 262144"
  shows "(Fnum a + Fnum b) * Fnum 0.5 = Fnum ((a + b) / 2)"
    and "(Fnum b - Fnum a) * Fnum 0.5 + Fnum 10 = Fnum ((b - a) / 2 + 10)"
proof -
  have s: "16 * (a + b) \<in> \<int>" "16 * (b - a) \<in> \<int>"
    using assms(1,2) by (simp_all add: distrib_left right_diff_distrib)
  have m: "\<bar>a + b\<bar> < 524288" "\<bar>b - a\<bar> < 524288" using assms(3,4) by linarith+
  have e1: "round32 (a + b) = Fnum (a + b)"
    using s(1) m(1) by (intro round32_sixteenths) simp_all
  have e2: "round32 (b - a) = Fnum (b - a)"
    using s(2) m(2) by (intro round32_sixteenths) simp_all
  have h1: "round32 ((a + b) / 2) = Fnum ((a + b) / 2)"
  proof (rule round32_grid32)
    have "32 * ((a + b) / 2) = 16 * (a + b)" by simp
    also note s(1)
    finally show "32 * ((a + b) / 2) \<in> \<int>" .
    show "\<bar>(a + b) / 2\<bar> < 524288" using m(1) unfolding abs_less_iff by argo
  qed
  have h2: "round32 ((b - a) / 2) = Fnum ((b - a) / 2)"
  proof (rule round32_grid32)
    have "32 * ((b - a) / 2) = 16 * (b - a)" by simp
    also note s(2)
    finally show "32 * ((b - a) / 2) \<in> \<int>" .
    show "\<bar>(b - a) / 2\<bar> < 524288" using m(2) unfolding abs_less_iff by argo
  qed
  have h3: "round32 ((b - a) / 2 + 10) = Fnum ((b - a) / 2 + 10)"
  proof (rule round32_grid32)
    have "32 * ((b - a) / 2 + 10) = 16 * (b - a) + 320" by simp
    also have "\<dots> \<in> \<int>" using s(2) by (intro Ints_add) simp_all
    finally show "32 * ((b - a) / 2 + 10) \<in> \<int>" .
    show "\<bar>(b - a) / 2 + 10\<bar> < 524288" using assms(3,4) unfolding abs_less_iff by argo
  qed
  show "(Fnum a + Fnum b) * Fnum 0.5 = Fnum ((a + b) / 2)"
    unfolding plus_float32.simps e1 times_float32.simps using h1 by simp
  show "(Fnum b - Fnum a) * Fnum 0.5 + Fnum 10 = Fnum ((b - a) / 2 + 10)"
    unfolding minus_Fnum e2 times_float32.simps plus_float32.simps using h2 h3 by simp
qed

text \<open>Claim C8, as the code has it. With a root (that is, after \<open>Initialize\<close>),
  \<open>SetHeightRange(x, z, size, minY, maxY)\<close> changes the root only: its \<open>MinY\<close> and \<open>MaxY\<close>
  become \<open>minY\<close> and \<open>maxY\<close>, the vertical centre of its box \<open>(minY + maxY) * 0.5f\<close> and the
  vertical extent \<open>(maxY - minY) * 0.5f + 10.0f\<close>, each operation rounded to single
  precision; the other fields of the root, its children, every node below the root and the
  other members of the object are as before, and \<open>x\<close>, \<open>z\<close>, \<open>size\<close> have no effect. For
  heights \<open>a\<close> and \<open>b\<close> that are multiples of \<open>1/16\<close> below \<open>2^18\<close> in magnitude nothing is
  rounded: the centre is \<open>(a + b) / 2\<close> and the extent \<open>(b - a) / 2 + 10\<close>.\<close>

theorem SetHeightRange_root_only:
  assumes "mRoot q = Some rt"
  shows "SetHeightRange x z sz minY maxY q =
           q\<lparr>mRoot := Some (TerrainNode
                  ((Fields rt)\<lparr>MinY := minY, MaxY := maxY,
                     Bounds := \<lparr>Center = XMFLOAT3 (x3 (Center (Bounds (Fields rt))))
                                                  ((minY + maxY) * Fnum 0.5)
                                                  (z3 (Center (Bounds (Fields rt)))),
                                Extents = XMFLOAT3 (x3 (Extents (Bounds (Fields rt))))
                                                   ((maxY - minY) * Fnum 0.5 + Fnum 10)
                                                   (z3 (Extents (Bounds (Fields rt))))\<rparr>\<rparr>)
                  (Children rt))\<rparr>
         \<and> SetHeightRange x z sz minY maxY q = SetHeightRange x' z' sz' minY maxY q
         \<and> nodeAt (SetHeightRange x z sz minY maxY q) (i # p) = nodeAt q (i # p)
         \<and> (16 * a \<in> \<int> \<and> 16 * b \<in> \<int> \<and> \<bar>a\<bar> < 262144 \<and> \<bar>b\<bar> < 262144 \<longrightarrow>
              map_option (y3 \<circ> Center \<circ> Bounds) (nodeAt (SetHeightRange x z sz (Fnum a) (Fnum b) q) [])
                = Some (Fnum ((a + b) / 2)) \<and>
              map_option (y3 \<circ> Extents \<circ> Bounds) (nodeAt (SetHeightRange x z sz (Fnum a) (Fnum b) q) [])
                = Some (Fnum ((b - a) / 2 + 10)))"
proof -
  have "16 * a \<in> \<int> \<and> 16 * b \<in> \<int> \<and> \<bar>a\<bar> < 262144 \<and> \<bar>b\<bar> < 262144 \<longrightarrow>
              map_option (y3 \<circ> Center \<circ> Bounds) (nodeAt (SetHeightRange x z sz (Fnum a) (Fnum b) q) [])
                = Some (Fnum ((a + b) / 2)) \<and>
              map_option (y3 \<circ> Extents \<circ> Bounds) (nodeAt (SetHeightRange x z sz (Fnum a) (Fnum b) q) [])
                = Some (Fnum ((b - a) / 2 + 10))"
  proof (intro impI)
    assume g: "16 * a \<in> \<int> \<and> 16 * b \<in> \<int> \<and> \<bar>a\<bar> < 262144 \<and> \<bar>b\<bar> < 262144"
    have e1: "(Fnum a + Fnum b) * Fnum 0.5 = Fnum ((a + b) / 2)"
      using g by (intro exact_heights(1)) simp_all
    have e2: "(Fnum b - Fnum a) * Fnum 0.5 + Fnum 10 = Fnum ((b - a) / 2 + 10)"
      using g by (intro exact_heights(2)) simp_all
    have "nodeAt (SetHeightRange x z sz (Fnum a) (Fnum b) q) [] =
        Some ((Fields rt)\<lparr>MinY := Fnum a, MaxY := Fnum b,
                     Bounds := \<lparr>Center = XMFLOAT3 (x3 (Center (Bounds (Fields rt))))
                                                  ((Fnum a + Fnum b) * Fnum 0.5)
                                                  (z3 (Center (Bounds (Fields rt)))),
                                Extents = XMFLOAT3 (x3 (Extents (Bounds (Fields rt))))
                                                   ((Fnum b - Fnum a) * Fnum 0.5 + Fnum 10)
                                                   (z3 (Extents (Bounds (Fields rt))))\<rparr>\<rparr>)"
      using assms by (simp add: SetHeightRange_def Let_def nodeAt_def)
    then show "map_option (y3 \<circ> Center \<circ> Bounds) (nodeAt (SetHeightRange x z sz (Fnum a) (Fnum b) q) [])
                = Some (Fnum ((a + b) / 2)) \<and>
              map_option (y3 \<circ> Extents \<circ> Bounds) (nodeAt (SetHeightRange x z sz (Fnum a) (Fnum b) q) [])
                = Some (Fnum ((b - a) / 2 + 10))"
      unfolding e1 e2 by simp
  qed
  moreover have "SetHeightRange x z sz minY maxY q =
           q\<lparr>mRoot := Some (TerrainNode
                  ((Fields rt)\<lparr>MinY := minY, MaxY := maxY,
                     Bounds := \<lparr>Center = XMFLOAT3 (x3 (Center (Bounds (Fields rt))))
                                                  ((minY + maxY) * Fnum 0.5)
                                                  (z3 (Center (Bounds (Fields rt)))),
                                Extents = XMFLOAT3 (x3 (Extents (Bounds (Fields rt))))
                                                   ((maxY - minY) * Fnum 0.5 + Fnum 10)
                                                   (z3 (Extents (Bounds (Fields rt))))\<rparr>\<rparr>)
                  (Children rt))\<rparr>
         \<and> SetHeightRange x z sz minY maxY q = SetHeightRange x' z' sz' minY maxY q
         \<and> nodeAt (SetHeightRange x z sz minY maxY q) (i # p) = nodeAt q (i # p)"
    using assms by (simp add: SetHeightRange_def Let_def nodeAt_def)
  ultimately show ?thesis by blast
qed

theorem SetHeightRange_root_only_witness:
  "mRoot smallTerrain = Some smallRoot \<and>
   (16 * (- 3) \<in> (\<int> :: real set) \<and> 16 * 7 \<in> (\<int> :: real set)
      \<and> \<bar>- 3\<bar> < (262144 :: real) \<and> \<bar>7\<bar> < (262144 :: real)) \<and>
   SetHeightRange (Fnum 1) (Fnum 1) (Fnum 1) (Fnum (-3)) (Fnum 7) smallTerrain =
     smallTerrain\<lparr>mRoot := Some (TerrainNode
        ((Fields smallRoot)\<lparr>MinY := Fnum (-3), MaxY := Fnum 7,
           Bounds := \<lparr>Center = XMFLOAT3 (Fnum 0) (Fnum 2) (Fnum 0),
                      Extents = XMFLOAT3 (Fnum 1) (Fnum 15) (Fnum 1)\<rparr>\<rparr>)
        (Children smallRoot))\<rparr> \<and>
   SetHeightRange (Fnum 1) (Fnum 1) (Fnum 1) (Fnum (-3)) (Fnum 7) smallTerrain
     = SetHeightRange (Fnum 0) (Fnum 0) (Fnum 2) (Fnum (-3)) (Fnum 7) smallTerrain \<and>
   map_option (y3 \<circ> Center \<circ> Bounds)
     (nodeAt (SetHeightRange (Fnum 1) (Fnum 1) (Fnum 1) (Fnum (-3)) (Fnum 7) smallTerrain) [])
     = Some (Fnum 2) \<and>
   map_option (y3 \<circ> Extents \<circ> Bounds)
     (nodeAt (SetHeightRange (Fnum 1) (Fnum 1) (Fnum 1) (Fnum (-3)) (Fnum 7) smallTerrain) [])
     = Some (Fnum 15)"
proof -
  have a: "mRoot smallTerrain = Some smallRoot" by (simp add: smallTerrain_def)
  have b: "Bounds (Fields smallRoot)
      = \<lparr>Center = XMFLOAT3 (Fnum 0) (Fnum 50) (Fnum 0), Extents = XMFLOAT3 (Fnum 1) (Fnum 60) (Fnum 1)\<rparr>"
    by (simp add: smallRoot_eval)
  have g: "16 * (- 3) \<in> (\<int> :: real set) \<and> 16 * 7 \<in> (\<int> :: real set)
      \<and> \<bar>- 3\<bar> < (262144 :: real) \<and> \<bar>7\<bar> < (262144 :: real)"
    by simp
  note t = SetHeightRange_root_only
         [OF a, where x = "Fnum 1" and z = "Fnum 1" and sz = "Fnum 1" and minY = "Fnum (-3)"
            and maxY = "Fnum 7" and x' = "Fnum 0" and z' = "Fnum 0" and sz' = "Fnum 2"
            and i = 0 and p = "[]" and a = "- 3" and b = 7]
  have eq1: "SetHeightRange (Fnum 1) (Fnum 1) (Fnum 1) (Fnum (-3)) (Fnum 7) smallTerrain =
     smallTerrain\<lparr>mRoot := Some (TerrainNode
        ((Fields smallRoot)\<lparr>MinY := Fnum (-3), MaxY := Fnum 7,
           Bounds := \<lparr>Center = XMFLOAT3 (Fnum 0) (Fnum 2) (Fnum 0),
                      Extents = XMFLOAT3 (Fnum 1) (Fnum 15) (Fnum 1)\<rparr>\<rparr>)
        (Children smallRoot))\<rparr>"
    using t [THEN conjunct1] by (simp add: b)
  have eq2: "SetHeightRange (Fnum 1) (Fnum 1) (Fnum 1) (Fnum (-3)) (Fnum 7) smallTerrain
      = SetHeightRange (Fnum 0) (Fnum 0) (Fnum 2) (Fnum (-3)) (Fnum 7) smallTerrain"
    by (rule t [THEN conjunct2, THEN conjunct1])
  have eq3: "map_option (y3 \<circ> Center \<circ> Bounds)
     (nodeAt (SetHeightRange (Fnum 1) (Fnum 1) (Fnum 1) (Fnum (-3)) (Fnum 7) smallTerrain) [])
     = Some (Fnum 2) \<and>
   map_option (y3 \<circ> Extents \<circ> Bounds)
     (nodeAt (SetHeightRange (Fnum 1) (Fnum 1) (Fnum 1) (Fnum (-3)) (Fnum 7) smallTerrain) [])
     = Some (Fnum 15)"
    using t [THEN conjunct2, THEN conjunct2, THEN conjunct2] g by simp
  from a g eq1 eq2 eq3 show ?thesis by blast
qed

lemma round32_16777217: "round32 16777217 = Fnum 16777216"
proof -
  have "fl 16777217 = 16777216"
    using fl_eqI [of 24 16777217 8388608] by (simp add: rne_def Let_def)
  then show ?thesis unfolding round32_def by simp
qed

lemma round32_8388617_5: "round32 (16777235 / 2) = Fnum 8388618"
proof -
  have "fl (16777235 / 2) = 8388618"
    using fl_eqI [of 23 "16777235 / 2" 8388618] by (simp add: rne_def Let_def)
  then show ?thesis unfolding round32_def by simp
qed

text \<open>Claim C8 as stated fails where the sums are rounded: with \<open>minY = 1\<close> and
  \<open>maxY = 16777216\<close> the vertical centre is \<open>8388608\<close>, not \<open>8388608.5\<close>, and the vertical
  extent \<open>8388618\<close>, not \<open>8388617.5\<close>.\<close>

theorem SetHeightRange_rounds:
  "Initialize (Fnum 2) (Fnum 1) 2 QuadTree_ctor = Inr smallTerrain \<and>
   map_option (y3 \<circ> Center \<circ> Bounds)
     (nodeAt (SetHeightRange (Fnum 0) (Fnum 0) (Fnum 2) (Fnum 1) (Fnum 16777216) smallTerrain) [])
     = Some (Fnum 8388608) \<and>
   map_option (y3 \<circ> Extents \<circ> Bounds)
     (nodeAt (SetHeightRange (Fnum 0) (Fnum 0) (Fnum 2) (Fnum 1) (Fnum 16777216) smallTerrain) [])
     = Some (Fnum 8388618) \<and>
   (1 + 16777216) / 2 \<noteq> (8388608 :: real) \<and>
   (16777216 - 1) / 2 + 10 \<noteq> (8388618 :: real)"
proof -
  have "map_option (y3 \<circ> Center \<circ> Bounds)
     (nodeAt (SetHeightRange (Fnum 0) (Fnum 0) (Fnum 2) (Fnum 1) (Fnum 16777216) smallTerrain) [])
     = Some (Fnum 8388608)"
    by (simp add: SetHeightRange_def Let_def nodeAt_def smallTerrain_def round32_16777217
        round32_exact fl_int24)
  moreover have "map_option (y3 \<circ> Extents \<circ> Bounds)
     (nodeAt (SetHeightRange (Fnum 0) (Fnum 0) (Fnum 2) (Fnum 1) (Fnum 16777216) smallTerrain) [])
     = Some (Fnum 8388618)"
    by (simp add: SetHeightRange_def Let_def nodeAt_def smallTerrain_def round32_8388617_5
        round32_exact fl_int24 fl_halves24)
  ultimately show ?thesis using Initialize_small by simp
qed



text \<open>Claim C10. On an object whose root is null, as it is before \<open>Initialize\<close> has been
  called, \<open>Update\<close> only resets the two counters and \<open>GetVisibleNodes\<close> returns the cleared
  vector: \<open>GetVisibleNodeCount()\<close> is 0 afterwards, and the freshly constructed object, with
  or without thresholds set by \<open>SetLODDistances\<close>, is left as it was.\<close>

theorem uninitialised_Update_GetVisibleNodes:
  assumes "mRoot q = None"
  shows "Update cameraPos frustumPlanes q = q\<lparr>mVisibleNodeCount := 0, mNextObjectCBIndex := 0\<rparr>
       \<and> mRoot (Update cameraPos frustumPlanes q) = None
       \<and> GetVisibleNodeCount (Update cameraPos frustumPlanes q) = 0
       \<and> GetVisibleNodes q outNodes = []
       \<and> GetVisibleNodes (Update cameraPos frustumPlanes q) outNodes = []
       \<and> Update cameraPos frustumPlanes QuadTree_ctor = QuadTree_ctor
       \<and> Update cameraPos frustumPlanes (SetLODDistances distances QuadTree_ctor)
           = SetLODDistances distances QuadTree_ctor"
  using assms
  by (simp add: Update_def Let_def GetVisibleNodes_def GetVisibleNodeCount_def QuadTree_ctor_def
      SetLODDistances_def)

theorem uninitialised_Update_GetVisibleNodes_witness:
  "mRoot QuadTree_ctor = None
   \<and> Update (XMFLOAT3 (Fnum 0) (Fnum 1000) (Fnum 0)) acceptAll QuadTree_ctor = QuadTree_ctor
   \<and> GetVisibleNodeCount (Update (XMFLOAT3 (Fnum 0) (Fnum 1000) (Fnum 0)) acceptAll QuadTree_ctor) = 0
   \<and> GetVisibleNodes QuadTree_ctor [[0], [1]] = []
   \<and> GetVisibleNodes (Update (XMFLOAT3 (Fnum 0) (Fnum 1000) (Fnum 0)) acceptAll QuadTree_ctor) [[0], [1]] = []"
proof -
  have a: "mRoot QuadTree_ctor = None" by (simp add: QuadTree_ctor_def)
  note t = uninitialised_Update_GetVisibleNodes
         [OF a, where cameraPos = "XMFLOAT3 (Fnum 0) (Fnum 1000) (Fnum 0)" and frustumPlanes = acceptAll
            and outNodes = "[[0], [1]]" and distances = "[]"]
  from a t show ?thesis by blast
qed

subsection \<open>Claims about the selection\<close>

lemma CalculateLOD_IsVisible [simp]:
  "CalculateLOD q (f\<lparr>IsVisible := v\<rparr>) cameraPos = CalculateLOD q f cameraPos"
  by (simp add: CalculateLOD_def)

lemma horizontalDistance32_update [simp]:
  "horizontalDistance32 cameraPos (f\<lparr>IsVisible := v\<rparr>) = horizontalDistance32 cameraPos f"
  "horizontalDistance32 cameraPos (f\<lparr>LODLevel := l\<rparr>) = horizontalDistance32 cameraPos f"
  by (simp_all add: horizontalDistance32_def)

lemma ShouldSubdivide_horizontalDistance32:
  "ShouldSubdivide f cameraPos \<longleftrightarrow>
     \<not> IsLeaf f \<and> horizontalDistance32 cameraPos f < Size f * Fnum 1.5"
  by (simp add: ShouldSubdivide_def horizontalDistance32_def Let_def)

lemma ShouldSubdivide_update [simp]:
  "ShouldSubdivide (f\<lparr>IsVisible := v\<rparr>) cameraPos = ShouldSubdivide f cameraPos"
  "ShouldSubdivide (f\<lparr>LODLevel := l\<rparr>) cameraPos = ShouldSubdivide f cameraPos"
  by (simp_all add: ShouldSubdivide_def)

text \<open>The three ways \<open>UpdateNode\<close> leaves a node.\<close>

lemma UpdateNode_culled:
  "\<not> Intersects (Bounds f) pl \<Longrightarrow>
   UpdateNode (TerrainNode f cs) cameraPos pl q = (TerrainNode (f\<lparr>IsVisible := False\<rparr>) cs, q)"
  by simp

lemma UpdateNode_subdivided:
  "Intersects (Bounds f) pl \<Longrightarrow> \<not> IsLeaf f \<Longrightarrow> ShouldSubdivide f cameraPos \<Longrightarrow>
   UpdateNode (TerrainNode f cs) cameraPos pl q =
     (TerrainNode (f\<lparr>LODLevel := CalculateLOD q f cameraPos, IsVisible := False\<rparr>)
        (fst (UpdateChildren cs cameraPos pl q)),
      snd (UpdateChildren cs cameraPos pl q))"
  by (simp add: Let_def prod.case_eq_if)

lemma UpdateNode_activated:
  "Intersects (Bounds f) pl \<Longrightarrow> IsLeaf f \<or> \<not> ShouldSubdivide f cameraPos \<Longrightarrow>
   UpdateNode (TerrainNode f cs) cameraPos pl q =
     (TerrainNode (f\<lparr>LODLevel := CalculateLOD q f cameraPos, IsVisible := True,
                     ObjectCBIndex := mNextObjectCBIndex q\<rparr>) cs,
      q\<lparr>mNextObjectCBIndex := mNextObjectCBIndex q + 1,
        mVisibleNodeCount := mVisibleNodeCount q + 1\<rparr>)"
  by (auto simp: Let_def)

lemma UpdateChildren_Some:
  "UpdateChildren (Some c # cs) cameraPos pl q =
     (Some (fst (UpdateNode c cameraPos pl q))
        # fst (UpdateChildren cs cameraPos pl (snd (UpdateNode c cameraPos pl q))),
      snd (UpdateChildren cs cameraPos pl (snd (UpdateNode c cameraPos pl q))))"
  by (simp add: Let_def prod.case_eq_if)

lemma UpdateChildren_None:
  "UpdateChildren (None # cs) cameraPos pl q =
     (None # fst (UpdateChildren cs cameraPos pl q), snd (UpdateChildren cs cameraPos pl q))"
  by (simp add: Let_def prod.case_eq_if)

text \<open>Claim C5, as the code has it. A non-leaf node that passes the frustum test is
  subdivided (its visibility flag cleared, no slot taken, \<open>UpdateNode\<close> run on its children
  in the order of the slots with the counters threaded through) if and only if the
  horizontal distance \<open>sqrtf(dx * dx + dz * dz)\<close> computed in single precision is strictly
  less than \<open>Size * 1.5f\<close>, itself rounded; otherwise it is activated as it is: flag set, next
  slot taken, both counters incremented, children untouched.\<close>

theorem UpdateNode_subdivides_iff:
  assumes "\<not> IsLeaf f" and "Intersects (Bounds f) frustumPlanes"
  shows "UpdateNode (TerrainNode f cs) cameraPos frustumPlanes q =
     (if horizontalDistance32 cameraPos f < Size f * Fnum 1.5
      then (TerrainNode (f\<lparr>LODLevel := CalculateLOD q f cameraPos, IsVisible := False\<rparr>)
              (fst (UpdateChildren cs cameraPos frustumPlanes q)),
            snd (UpdateChildren cs cameraPos frustumPlanes q))
      else (TerrainNode (f\<lparr>LODLevel := CalculateLOD q f cameraPos, IsVisible := True,
                           ObjectCBIndex := mNextObjectCBIndex q\<rparr>) cs,
            q\<lparr>mNextObjectCBIndex := mNextObjectCBIndex q + 1,
              mVisibleNodeCount := mVisibleNodeCount q + 1\<rparr>))
   \<and> (let r0 = UpdateNode c0 cameraPos frustumPlanes q;
           r1 = UpdateNode c1 cameraPos frustumPlanes (snd r0);
           r2 = UpdateNode c2 cameraPos frustumPlanes (snd r1);
           r3 = UpdateNode c3 cameraPos frustumPlanes (snd r2)
       in UpdateChildren [Some c0, Some c1, Some c2, Some c3] cameraPos frustumPlanes q =
            ([Some (fst r0), Some (fst r1), Some (fst r2), Some (fst r3)], snd r3))"
proof -
  have "UpdateNode (TerrainNode f cs) cameraPos frustumPlanes q =
     (if horizontalDistance32 cameraPos f < Size f * Fnum 1.5
      then (TerrainNode (f\<lparr>LODLevel := CalculateLOD q f cameraPos, IsVisible := False\<rparr>)
              (fst (UpdateChildren cs cameraPos frustumPlanes q)),
            snd (UpdateChildren cs cameraPos frustumPlanes q))
      else (TerrainNode (f\<lparr>LODLevel := CalculateLOD q f cameraPos, IsVisible := True,
                           ObjectCBIndex := mNextObjectCBIndex q\<rparr>) cs,
            q\<lparr>mNextObjectCBIndex := mNextObjectCBIndex q + 1,
              mVisibleNodeCount := mVisibleNodeCount q + 1\<rparr>))"
    using assms
    by (simp add: Let_def ShouldSubdivide_horizontalDistance32 split: prod.splits)
  moreover have "(let r0 = UpdateNode c0 cameraPos frustumPlanes q;
           r1 = UpdateNode c1 cameraPos frustumPlanes (snd r0);
           r2 = UpdateNode c2 cameraPos frustumPlanes (snd r1);
           r3 = UpdateNode c3 cameraPos frustumPlanes (snd r2)
       in UpdateChildren [Some c0, Some c1, Some c2, Some c3] cameraPos frustumPlanes q =
            ([Some (fst r0), Some (fst r1), Some (fst r2), Some (fst r3)], snd r3))"
    unfolding Let_def UpdateChildren_Some by simp
  ultimately show ?thesis by blast
qed

lemma sqrt_9: "sqrt 9 = 3"
  using real_sqrt_abs [of 3] by simp

lemma sqrt_121_16: "sqrt (121 / 16) = 11 / 4"
  using real_sqrt_abs [of "11 / 4"] by (simp add: power2_eq_square)

text \<open>At the boundary: the root of the small terrain has size 2; with the camera at
  horizontal distance 3 it is activated, at distance \<open>11/4\<close> it is subdivided and its four
  leaves take the slots 0 to 3.\<close>

theorem UpdateNode_subdivides_iff_witness:
  "\<not> IsLeaf (Fields smallRoot) \<and> Intersects (Bounds (Fields smallRoot)) acceptAll \<and>
   Size (Fields smallRoot) * Fnum 1.5 = Fnum 3 \<and>
   horizontalDistance32 (XMFLOAT3 (Fnum 3) (Fnum 0) (Fnum 0)) (Fields smallRoot) = Fnum 3 \<and>
   UpdateNode smallRoot (XMFLOAT3 (Fnum 3) (Fnum 0) (Fnum 0)) acceptAll smallTerrain =
     (TerrainNode ((Fields smallRoot)\<lparr>LODLevel := 1, IsVisible := True, ObjectCBIndex := 0\<rparr>)
        (Children smallRoot),
      smallTerrain\<lparr>mNextObjectCBIndex := 1, mVisibleNodeCount := 1\<rparr>) \<and>
   horizontalDistance32 (XMFLOAT3 (Fnum (11 / 4)) (Fnum 0) (Fnum 0)) (Fields smallRoot)
     = Fnum (11 / 4) \<and>
   UpdateNode smallRoot (XMFLOAT3 (Fnum (11 / 4)) (Fnum 0) (Fnum 0)) acceptAll smallTerrain =
     (TerrainNode ((Fields smallRoot)\<lparr>LODLevel := 1, IsVisible := False\<rparr>)
        (fst (UpdateChildren (Children smallRoot) (XMFLOAT3 (Fnum (11 / 4)) (Fnum 0) (Fnum 0))
                acceptAll smallTerrain)),
      snd (UpdateChildren (Children smallRoot) (XMFLOAT3 (Fnum (11 / 4)) (Fnum 0) (Fnum 0))
             acceptAll smallTerrain)) \<and>
   map (map_option (IsVisible \<circ> Fields))
     (fst (UpdateChildren (Children smallRoot) (XMFLOAT3 (Fnum (11 / 4)) (Fnum 0) (Fnum 0))
             acceptAll smallTerrain))
     = [Some True, Some True, Some True, Some True] \<and>
   map (map_option (ObjectCBIndex \<circ> Fields))
     (fst (UpdateChildren (Children smallRoot) (XMFLOAT3 (Fnum (11 / 4)) (Fnum 0) (Fnum 0))
             acceptAll smallTerrain))
     = [Some 0, Some 1, Some 2, Some 3] \<and>
   mVisibleNodeCount
     (snd (UpdateChildren (Children smallRoot) (XMFLOAT3 (Fnum (11 / 4)) (Fnum 0) (Fnum 0))
             acceptAll smallTerrain)) = 4"
proof -
  have a: "\<not> IsLeaf (Fields smallRoot)" by (simp add: smallRoot_eval)
  have b: "Intersects (Bounds (Fields smallRoot)) acceptAll" by simp
  have c: "TerrainNode (Fields smallRoot) (Children smallRoot) = smallRoot" by simp
  have s: "Size (Fields smallRoot) * Fnum 1.5 = Fnum 3"
    by (simp add: smallRoot_eval)
  have d: "horizontalDistance32 (XMFLOAT3 (Fnum 3) (Fnum 0) (Fnum 0)) (Fields smallRoot) = Fnum 3"
    by (simp add: smallRoot_eval horizontalDistance32_def sqrt_9)
  have e: "horizontalDistance32 (XMFLOAT3 (Fnum (11 / 4)) (Fnum 0) (Fnum 0)) (Fields smallRoot)
      = Fnum (11 / 4)"
    by (simp add: smallRoot_eval horizontalDistance32_def sqrt_121_16)
  have l: "CalculateLOD smallTerrain (Fields smallRoot) (XMFLOAT3 (Fnum 3) (Fnum 0) (Fnum 0)) = 1"
    "CalculateLOD smallTerrain (Fields smallRoot) (XMFLOAT3 (Fnum (11 / 4)) (Fnum 0) (Fnum 0)) = 1"
    by (simp_all add: smallRoot_eval smallTerrain_def CalculateLOD_def Let_def fl_sqrt_less_iff)
  have m: "mNextObjectCBIndex smallTerrain = 0" "mVisibleNodeCount smallTerrain = 0"
    by (simp_all add: smallTerrain_def)
  note t = UpdateNode_subdivides_iff [OF a b, where cs = "Children smallRoot" and q = smallTerrain]
  have u1: "UpdateNode smallRoot (XMFLOAT3 (Fnum 3) (Fnum 0) (Fnum 0)) acceptAll smallTerrain =
     (TerrainNode ((Fields smallRoot)\<lparr>LODLevel := 1, IsVisible := True, ObjectCBIndex := 0\<rparr>)
        (Children smallRoot),
      smallTerrain\<lparr>mNextObjectCBIndex := 1, mVisibleNodeCount := 1\<rparr>)"
    using t [where cameraPos = "XMFLOAT3 (Fnum 3) (Fnum 0) (Fnum 0)", THEN conjunct1]
    unfolding c d s by (simp add: l m)
  have u2: "UpdateNode smallRoot (XMFLOAT3 (Fnum (11 / 4)) (Fnum 0) (Fnum 0)) acceptAll smallTerrain =
     (TerrainNode ((Fields smallRoot)\<lparr>LODLevel := 1, IsVisible := False\<rparr>)
        (fst (UpdateChildren (Children smallRoot) (XMFLOAT3 (Fnum (11 / 4)) (Fnum 0) (Fnum 0))
                acceptAll smallTerrain)),
      snd (UpdateChildren (Children smallRoot) (XMFLOAT3 (Fnum (11 / 4)) (Fnum 0) (Fnum 0))
             acceptAll smallTerrain))"
    using t [where cameraPos = "XMFLOAT3 (Fnum (11 / 4)) (Fnum 0) (Fnum 0)", THEN conjunct1]
    unfolding c e s by (simp add: l)
  have k: "UpdateChildren (Children smallRoot) (XMFLOAT3 (Fnum (11 / 4)) (Fnum 0) (Fnum 0))
             acceptAll smallTerrain
      = (map (\<lambda>(c, i). map_option (\<lambda>n. TerrainNode ((Fields n)\<lparr>IsVisible := True, ObjectCBIndex := i\<rparr>)
                                            (Children n)) c)
           (zip (Children smallRoot) [0, 1, 2, 3]),
         smallTerrain\<lparr>mNextObjectCBIndex := 4, mVisibleNodeCount := 4\<rparr>)"
    by (simp add: smallRoot_eval smallTerrain_def Update_eval)
  have v1: "map (map_option (IsVisible \<circ> Fields))
     (fst (UpdateChildren (Children smallRoot) (XMFLOAT3 (Fnum (11 / 4)) (Fnum 0) (Fnum 0))
             acceptAll smallTerrain))
     = [Some True, Some True, Some True, Some True]"
    unfolding k by (simp add: smallRoot_eval)
  have v2: "map (map_option (ObjectCBIndex \<circ> Fields))
     (fst (UpdateChildren (Children smallRoot) (XMFLOAT3 (Fnum (11 / 4)) (Fnum 0) (Fnum 0))
             acceptAll smallTerrain))
     = [Some 0, Some 1, Some 2, Some 3]"
    unfolding k by (simp add: smallRoot_eval)
  have v3: "mVisibleNodeCount
     (snd (UpdateChildren (Children smallRoot) (XMFLOAT3 (Fnum (11 / 4)) (Fnum 0) (Fnum 0))
             acceptAll smallTerrain)) = 4"
    unfolding k by simp
  from a b s d u1 e u2 v1 v2 v3 show ?thesis by blast
qed

lemma sqrt_less_iff_sq: "0 \<le> y \<Longrightarrow> sqrt x < y \<longleftrightarrow> x < y * y"
proof -
  assume y: "0 \<le> y"
  then have "sqrt (y * y) = y" by simp
  then have "sqrt x < y \<longleftrightarrow> sqrt x < sqrt (y * y)" by simp
  also have "\<dots> \<longleftrightarrow> x < y * y" by (rule real_sqrt_less_iff)
  finally show ?thesis .
qed

lemma round32_near_3:
  "round32 (1 / 1024) = Fnum (1 / 1024)"
  "round32 (12582911 / 4194304) = Fnum (12582911 / 4194304)"
  "round32 (1 / 1048576) = Fnum (1 / 1048576)"
  "round32 (158329649233921 / 17592186044416) = Fnum (9437183 / 1048576)"
  "round32 (2621440001 / 1048576) = Fnum 2500"
  "round32 (2630877183 / 1048576) = Fnum 2509"
proof -
  have "fl (1 / 1024) = 1 / 1024" by (rule fl_grid [of _ 10]) simp_all
  then show "round32 (1 / 1024) = Fnum (1 / 1024)" by (rule round32_exact) simp
  have "fl (12582911 / 4194304) = 12582911 / 4194304" by (rule fl_grid [of _ 22]) simp_all
  then show "round32 (12582911 / 4194304) = Fnum (12582911 / 4194304)"
    by (rule round32_exact) simp
  have "fl (1 / 1048576) = 1 / 1048576" by (rule fl_grid [of _ 20]) simp_all
  then show "round32 (1 / 1048576) = Fnum (1 / 1048576)" by (rule round32_exact) simp
  have "fl (158329649233921 / 17592186044416) = 9437183 / 1048576"
    using fl_eqI [of 3 "158329649233921 / 17592186044416" 9437183]
    by (simp add: rne_def Let_def)
  then show "round32 (158329649233921 / 17592186044416) = Fnum (9437183 / 1048576)"
    unfolding round32_def by simp
  have "fl (2621440001 / 1048576) = 2500"
    using fl_eqI [of 11 "2621440001 / 1048576" 10240000] by (simp add: rne_def Let_def)
  then show "round32 (2621440001 / 1048576) = Fnum 2500" unfolding round32_def by simp
  have "fl (2630877183 / 1048576) = 2509"
    using fl_eqI [of 11 "2630877183 / 1048576" 10276864] by (simp add: rne_def Let_def)
  then show "round32 (2630877183 / 1048576) = Fnum 2509" unfolding round32_def by simp
qed

text \<open>Claim C5 as stated fails next to the threshold. With the camera at
  \<open>(1/1024, 0, 12582911/4194304)\<close> the exact horizontal distance to the centre of the root
  of the small terrain is below \<open>3 = 1.5 * 2\<close>, but \<open>dz * dz\<close> rounds to \<open>9 - 2^-20\<close>, the
  sum with \<open>dx * dx = 2^-20\<close> is \<open>9\<close> and the computed distance is \<open>3\<close>: the node is
  activated.\<close>

theorem UpdateNode_activated_below_threshold:
  "Initialize (Fnum 2) (Fnum 1) 2 QuadTree_ctor = Inr smallTerrain \<and>
   mRoot smallTerrain = Some smallRoot \<and>
   \<not> IsLeaf (Fields smallRoot) \<and> Intersects (Bounds (Fields smallRoot)) acceptAll \<and>
   horizontalDistance (XMFLOAT3 (Fnum (1 / 1024)) (Fnum 0) (Fnum (12582911 / 4194304)))
       (Fields smallRoot)
     < 1.5 * val (Size (Fields smallRoot)) \<and>
   horizontalDistance32 (XMFLOAT3 (Fnum (1 / 1024)) (Fnum 0) (Fnum (12582911 / 4194304)))
       (Fields smallRoot) = Fnum 3 \<and>
   Size (Fields smallRoot) * Fnum 1.5 = Fnum 3 \<and>
   UpdateNode smallRoot (XMFLOAT3 (Fnum (1 / 1024)) (Fnum 0) (Fnum (12582911 / 4194304)))
       acceptAll smallTerrain =
     (TerrainNode ((Fields smallRoot)\<lparr>LODLevel := 1, IsVisible := True, ObjectCBIndex := 0\<rparr>)
        (Children smallRoot),
      smallTerrain\<lparr>mNextObjectCBIndex := 1, mVisibleNodeCount := 1\<rparr>)"
proof -
  have a: "\<not> IsLeaf (Fields smallRoot)" by (simp add: smallRoot_eval)
  have b: "Intersects (Bounds (Fields smallRoot)) acceptAll" by simp
  have r: "mRoot smallTerrain = Some smallRoot" by (simp add: smallTerrain_def)
  have x: "horizontalDistance (XMFLOAT3 (Fnum (1 / 1024)) (Fnum 0) (Fnum (12582911 / 4194304)))
       (Fields smallRoot)
     < 1.5 * val (Size (Fields smallRoot))"
    by (simp add: smallRoot_eval horizontalDistance_def sqrt_less_iff_sq power2_eq_square)
  have d: "horizontalDistance32 (XMFLOAT3 (Fnum (1 / 1024)) (Fnum 0) (Fnum (12582911 / 4194304)))
       (Fields smallRoot) = Fnum 3"
    by (simp add: smallRoot_eval horizontalDistance32_def round32_near_3 sqrt_9)
  have s: "Size (Fields smallRoot) * Fnum 1.5 = Fnum 3"
    by (simp add: smallRoot_eval)
  have u: "UpdateNode smallRoot (XMFLOAT3 (Fnum (1 / 1024)) (Fnum 0) (Fnum (12582911 / 4194304)))
       acceptAll smallTerrain =
     (TerrainNode ((Fields smallRoot)\<lparr>LODLevel := 1, IsVisible := True, ObjectCBIndex := 0\<rparr>)
        (Children smallRoot),
      smallTerrain\<lparr>mNextObjectCBIndex := 1, mVisibleNodeCount := 1\<rparr>)"
    by (simp add: smallRoot_eval smallTerrain_def Update_eval round32_near_3)
  from Initialize_small r a b x d s u show ?thesis by blast
qed



lemma GetVisibleNodes_antichain: "antichain (GetVisibleNodes q outNodes)"
  by (cases "mRoot q")
     (simp_all add: GetVisibleNodes_def CollectVisibleNodes_antichain, simp add: antichain_iff)

lemma GetVisibleNodes_valid:
  "a \<in> set (GetVisibleNodes q outNodes) \<Longrightarrow> nodeAt q a \<noteq> None"
  using CollectVisibleNodes_valid [of a _ "[]"]
  by (cases "mRoot q") (auto simp: GetVisibleNodes_def nodeAt_def)

text \<open>Claim C6. Whatever the object was before (so after any sequence of calls), after an
  \<open>Update\<close> no pointer returned by \<open>GetVisibleNodes\<close> is a proper ancestor of another one,
  and each refers to a node of the tree.\<close>

theorem GetVisibleNodes_no_ancestor_pair:
  assumes "a \<in> set (GetVisibleNodes (Update cameraPos frustumPlanes q) outNodes)"
    and "b \<in> set (GetVisibleNodes (Update cameraPos frustumPlanes q) outNodes)"
  shows "\<not> strict_prefix a b
       \<and> nodeAt (Update cameraPos frustumPlanes q) a \<noteq> None
       \<and> nodeAt (Update cameraPos frustumPlanes q) b \<noteq> None"
  using assms GetVisibleNodes_antichain [of "Update cameraPos frustumPlanes q" outNodes]
    GetVisibleNodes_valid
  unfolding antichain_iff by blast

theorem GetVisibleNodes_no_ancestor_pair_witness:
  "[0] \<in> set (GetVisibleNodes (Update (XMFLOAT3 (Fnum 0) (Fnum 0) (Fnum 0)) acceptAll smallTerrain) []) \<and>
   [1] \<in> set (GetVisibleNodes (Update (XMFLOAT3 (Fnum 0) (Fnum 0) (Fnum 0)) acceptAll smallTerrain) []) \<and>
   \<not> strict_prefix [0] [1::nat] \<and>
   nodeAt (Update (XMFLOAT3 (Fnum 0) (Fnum 0) (Fnum 0)) acceptAll smallTerrain) [0] \<noteq> None"
proof -
  have v: "GetVisibleNodes (Update (XMFLOAT3 (Fnum 0) (Fnum 0) (Fnum 0)) acceptAll smallTerrain) []
      = [[0], [1], [2], [3]]"
    by (simp add: smallTerrain_def smallRoot_def BuildTree_eval Update_eval GetVisibleNodes_def)
  have a: "[0] \<in> set (GetVisibleNodes (Update (XMFLOAT3 (Fnum 0) (Fnum 0) (Fnum 0)) acceptAll smallTerrain) [])"
    and b: "[1] \<in> set (GetVisibleNodes (Update (XMFLOAT3 (Fnum 0) (Fnum 0) (Fnum 0)) acceptAll smallTerrain) [])"
    unfolding v by simp_all
  from GetVisibleNodes_no_ancestor_pair [OF a b] a b show ?thesis by blast
qed

subsection \<open>Claims about a sequence of frames\<close>

text \<open>The terrain of \<open>Initialize(4, 1, 3)\<close> has a root of side 4, four inner nodes of side 2
  and sixteen leaves of side 1. With the camera at the origin every inner node is
  subdivided. In the first frame the frustum contains the terrain and the sixteen leaves
  are activated with the slots 0 to 15. In the second frame plane 0 is \<open>x - 1 \<ge> 0\<close>: the
  NW and SW nodes of side 2 (pointers \<open>[0]\<close> and \<open>[2]\<close>) fail the frustum test and
  \<open>UpdateNode\<close> returns without visiting their leaves, whose flags and slots are those of
  the first frame; the leaves below NE and SE get the slots 0 to 7. \<open>CollectVisibleNodes\<close>
  descends below every node that is not visible and not a leaf, so it also returns the
  leaves below the two culled nodes.\<close>

lemmas scenario_eval = Updates_def frameWide_def frameRight_def terrain4_def BuildTree_eval
  Update_eval frustum_eval GetVisibleNodes_def

text \<open>Claim C1 fails on this input: the box of node \<open>[0]\<close> lies entirely on the negative
  side of plane 0 of the frustum of the most recent \<open>Update\<close>, and so does the box of its
  child \<open>[0, 0]\<close>, yet \<open>[0, 0]\<close> and the other leaves below \<open>[0]\<close> and \<open>[2]\<close> are returned by
  \<open>GetVisibleNodes\<close>, while \<open>GetVisibleNodeCount()\<close> is 8.\<close>

theorem culled_subtree_still_returned:
  "Initialize (Fnum 4) (Fnum 1) 3 QuadTree_ctor = Inr terrain4 \<and>
   GetVisibleNodes (Updates [frameWide, frameRight] terrain4) [] =
     [[0, 0], [0, 1], [0, 2], [0, 3], [1, 0], [1, 1], [1, 2], [1, 3],
      [2, 0], [2, 1], [2, 2], [2, 3], [3, 0], [3, 1], [3, 2], [3, 3]] \<and>
   outsidePlane (Updates [frameWide, frameRight] terrain4) (snd frameRight) 0 [0] \<and>
   outsidePlane (Updates [frameWide, frameRight] terrain4) (snd frameRight) 0 [0, 0] \<and>
   GetVisibleNodeCount (Updates [frameWide, frameRight] terrain4) = 8"
proof -
  have "GetVisibleNodes (Updates [frameWide, frameRight] terrain4) [] =
     [[0, 0], [0, 1], [0, 2], [0, 3], [1, 0], [1, 1], [1, 2], [1, 3],
      [2, 0], [2, 1], [2, 2], [2, 3], [3, 0], [3, 1], [3, 2], [3, 3]]"
    by (simp add: scenario_eval)
  moreover have "outsidePlane (Updates [frameWide, frameRight] terrain4) (snd frameRight) 0 [0]"
    by (simp add: scenario_eval outsidePlane_def nodeAt_def entirelyNegative_def boxCorners_def)
  moreover have "outsidePlane (Updates [frameWide, frameRight] terrain4) (snd frameRight) 0 [0, 0]"
    by (simp add: scenario_eval outsidePlane_def nodeAt_def entirelyNegative_def boxCorners_def)
  moreover have "GetVisibleNodeCount (Updates [frameWide, frameRight] terrain4) = 8"
    by (simp add: scenario_eval GetVisibleNodeCount_def)
  ultimately show ?thesis using Initialize_terrain4 by blast
qed

text \<open>Claim C4 fails on the same input: the sixteen returned nodes carry the slots
  \<open>0, 1, 2, 3, 0, 1, 2, 3, 8, 9, 10, 11, 4, 5, 6, 7\<close>, with repeats and a gap, and
  \<open>GetVisibleNodeCount()\<close> is 8, not 16.\<close>

theorem stale_slots_returned:
  "Initialize (Fnum 4) (Fnum 1) 3 QuadTree_ctor = Inr terrain4 \<and>
   map (slotOf (Updates [frameWide, frameRight] terrain4))
       (GetVisibleNodes (Updates [frameWide, frameRight] terrain4) []) =
     [Some 0, Some 1, Some 2, Some 3, Some 0, Some 1, Some 2, Some 3,
      Some 8, Some 9, Some 10, Some 11, Some 4, Some 5, Some 6, Some 7] \<and>
   length (GetVisibleNodes (Updates [frameWide, frameRight] terrain4) []) = 16 \<and>
   GetVisibleNodeCount (Updates [frameWide, frameRight] terrain4) = 8"
proof -
  have "map (slotOf (Updates [frameWide, frameRight] terrain4))
       (GetVisibleNodes (Updates [frameWide, frameRight] terrain4) []) =
     [Some 0, Some 1, Some 2, Some 3, Some 0, Some 1, Some 2, Some 3,
      Some 8, Some 9, Some 10, Some 11, Some 4, Some 5, Some 6, Some 7]"
    by (simp add: scenario_eval slotOf_def nodeAt_def)
  moreover have "length (GetVisibleNodes (Updates [frameWide, frameRight] terrain4) []) = 16"
    by (simp add: scenario_eval)
  moreover have "GetVisibleNodeCount (Updates [frameWide, frameRight] terrain4) = 8"
    by (simp add: scenario_eval GetVisibleNodeCount_def)
  ultimately show ?thesis using Initialize_terrain4 by blast
qed

subsection \<open>The camera above the centre of the terrain\<close>

lemma terrain512_overhead:
  assumes "\<And>b. Intersects b frustumPlanes"
  shows "GetVisibleNodeCount (Update (XMFLOAT3 (Fnum 0) (Fnum 1000) (Fnum 0)) frustumPlanes terrain512) = 28"
    and "GetVisibleNodes (Update (XMFLOAT3 (Fnum 0) (Fnum 1000) (Fnum 0)) frustumPlanes terrain512) outNodes =
     [[0, 0], [0, 1], [0, 2], [0, 3, 0], [0, 3, 1], [0, 3, 2], [0, 3, 3],
      [1, 0], [1, 1], [1, 2, 0], [1, 2, 1], [1, 2, 2], [1, 2, 3], [1, 3],
      [2, 0], [2, 1, 0], [2, 1, 1], [2, 1, 2], [2, 1, 3], [2, 2], [2, 3],
      [3, 0, 0], [3, 0, 1], [3, 0, 2], [3, 0, 3], [3, 1], [3, 2], [3, 3]]"
    and "map (lodOf (Update (XMFLOAT3 (Fnum 0) (Fnum 1000) (Fnum 0)) frustumPlanes terrain512))
       (GetVisibleNodes (Update (XMFLOAT3 (Fnum 0) (Fnum 1000) (Fnum 0)) frustumPlanes terrain512) outNodes) =
     replicate 28 (Some 0)"
    and "map_option (horizontalDistance (XMFLOAT3 (Fnum 0) (Fnum 1000) (Fnum 0)) \<circ> Fields) (mRoot terrain512) = Some 0"
  using assms
  by (simp_all add: terrain512_def BuildTree_eval Update_eval GetVisibleNodes_def
      GetVisibleNodeCount_def lodOf_def nodeAt_def horizontalDistance_def eval_nat_numeral)

text \<open>Claim C3, as the code has it. After \<open>Initialize(512, 64, 5)\<close> on a fresh object
  (default thresholds 2048, 1024, 512, 256, 128), with the camera at \<open>(0, 1000, 0)\<close> and a
  frustum that accepts every box, \<open>Update\<close> activates 28 nodes and the root is not one of
  them. \<open>ShouldSubdivide\<close> measures the horizontal distance, which is 0 for the root, so the
  root, its four children and the four nodes of side 128 next to the centre are
  subdivided; the result holds the other twelve nodes of side 128 and the sixteen leaves
  of side 64 around the centre. Each of them has \<open>LODLevel\<close> 0, since its distance in space
  is below the first threshold 2048.\<close>

theorem overhead_camera_28_active:
  assumes "\<And>b. Intersects b frustumPlanes"
  shows "Initialize (Fnum 512) (Fnum 64) 5 QuadTree_ctor = Inr terrain512 \<and>
   map_option (horizontalDistance (XMFLOAT3 (Fnum 0) (Fnum 1000) (Fnum 0)) \<circ> Fields) (mRoot terrain512) = Some 0 \<and>
   GetVisibleNodeCount (Update (XMFLOAT3 (Fnum 0) (Fnum 1000) (Fnum 0)) frustumPlanes terrain512) = 28 \<and>
   GetVisibleNodes (Update (XMFLOAT3 (Fnum 0) (Fnum 1000) (Fnum 0)) frustumPlanes terrain512) outNodes =
     [[0, 0], [0, 1], [0, 2], [0, 3, 0], [0, 3, 1], [0, 3, 2], [0, 3, 3],
      [1, 0], [1, 1], [1, 2, 0], [1, 2, 1], [1, 2, 2], [1, 2, 3], [1, 3],
      [2, 0], [2, 1, 0], [2, 1, 1], [2, 1, 2], [2, 1, 3], [2, 2], [2, 3],
      [3, 0, 0], [3, 0, 1], [3, 0, 2], [3, 0, 3], [3, 1], [3, 2], [3, 3]] \<and>
   map (lodOf (Update (XMFLOAT3 (Fnum 0) (Fnum 1000) (Fnum 0)) frustumPlanes terrain512))
       (GetVisibleNodes (Update (XMFLOAT3 (Fnum 0) (Fnum 1000) (Fnum 0)) frustumPlanes terrain512) outNodes) =
     replicate 28 (Some 0)"
  using terrain512_overhead [OF assms] Initialize_terrain512 by blast

theorem overhead_camera_28_active_witness:
  "(\<forall>b. Intersects b acceptAll) \<and>
   Initialize (Fnum 512) (Fnum 64) 5 QuadTree_ctor = Inr terrain512 \<and>
   GetVisibleNodeCount (Update (XMFLOAT3 (Fnum 0) (Fnum 1000) (Fnum 0)) acceptAll terrain512) = 28 \<and>
   length (GetVisibleNodes (Update (XMFLOAT3 (Fnum 0) (Fnum 1000) (Fnum 0)) acceptAll terrain512) []) = 28"
proof -
  have a: "Intersects b acceptAll" for b by simp
  from overhead_camera_28_active [of acceptAll "[]", OF a] a show ?thesis by simp
qed

text \<open>Claim C3 as stated fails: the number of active nodes is not 1 and the root is not
  returned.\<close>

theorem overhead_camera_root_not_active:
  "Initialize (Fnum 512) (Fnum 64) 5 QuadTree_ctor = Inr terrain512 \<and>
   GetVisibleNodeCount (Update (XMFLOAT3 (Fnum 0) (Fnum 1000) (Fnum 0)) acceptAll terrain512) \<noteq> 1 \<and>
   GetVisibleNodes (Update (XMFLOAT3 (Fnum 0) (Fnum 1000) (Fnum 0)) acceptAll terrain512) [] \<noteq> [[]] \<and>
   [] \<notin> set (GetVisibleNodes (Update (XMFLOAT3 (Fnum 0) (Fnum 1000) (Fnum 0)) acceptAll terrain512) [])"
proof -
  have a: "Intersects b acceptAll" for b by simp
  from terrain512_overhead(1,2) [of acceptAll, OF a] Initialize_terrain512 show ?thesis by simp
qed

subsection \<open>The first frame after construction\<close>

text \<open>\<open>BuildTree\<close> leaves every visibility flag clear. On such a tree one \<open>Update\<close> visits
  exactly the nodes it has to, and the collection finds the nodes it activated and no
  others.\<close>

lemma hiddenTree_activeNodes:
  "hiddenTree n \<Longrightarrow> activeNodes n = []"
  "hiddenTree_list cs \<Longrightarrow> activeNodes_list cs = []"
  by (induction n and cs rule: activeNodes_activeNodes_list.induct) auto

lemma hiddenTree_ctor [simp]: "hiddenTree TerrainNode_ctor"
  by (simp add: TerrainNode_ctor_def)

lemma BuildTree_hiddenTree:
  "hiddenTree node \<Longrightarrow> hiddenTree (fst (BuildTree mn ml node x z sz d cnt))"
proof (induction node x z sz d cnt rule: BuildTree_cases_induct [of mn ml])
  case (leaf node x z sz d cnt)
  then show ?case by (cases node) (simp add: BuildTree_leaf)
next
  case (inner node x z sz d cnt)
  from inner.prems inner.IH [OF hiddenTree_ctor] show ?case
    by (cases node) (simp add: BuildTree_node [OF inner.hyps] Let_def)
qed

lemma Initialize_hiddenTree:
  "Initialize terrainSize minNodeSize maxLODLevels q = Inr q' \<Longrightarrow>
   \<exists>rt. mRoot q' = Some rt \<and> hiddenTree rt"
  using Initialize_Inr(1) BuildTree_hiddenTree [OF hiddenTree_ctor] by blast

lemma slotsFrom_add: "slotsFrom s (k + l) = slotsFrom s k @ slotsFrom (s + of_nat k) l"
proof -
  have "[0 ..< k + l] = [0 ..< k] @ map (\<lambda>i. k + i) [0 ..< l]"
    by (induction l) simp_all
  then show ?thesis by (simp add: slotsFrom_def comp_def add.assoc)
qed

lemma slotsFrom_0 [simp]: "slotsFrom s 0 = []"
  by (simp add: slotsFrom_def)

lemma slotsFrom_1 [simp]: "slotsFrom s (Suc 0) = [s]"
  by (simp add: slotsFrom_def)

lemma UpdateNode_slots:
  "hiddenTree n \<Longrightarrow>
     map (ObjectCBIndex \<circ> Fields) (activeNodes (fst (UpdateNode n cameraPos pl q)))
       = slotsFrom (mNextObjectCBIndex q) (length (activeNodes (fst (UpdateNode n cameraPos pl q))))
   \<and> mNextObjectCBIndex (snd (UpdateNode n cameraPos pl q))
       = mNextObjectCBIndex q + of_nat (length (activeNodes (fst (UpdateNode n cameraPos pl q))))
   \<and> mVisibleNodeCount (snd (UpdateNode n cameraPos pl q))
       = mVisibleNodeCount q + int (length (activeNodes (fst (UpdateNode n cameraPos pl q))))"
  "hiddenTree_list cs \<Longrightarrow>
     map (ObjectCBIndex \<circ> Fields) (activeNodes_list (fst (UpdateChildren cs cameraPos pl q)))
       = slotsFrom (mNextObjectCBIndex q)
           (length (activeNodes_list (fst (UpdateChildren cs cameraPos pl q))))
   \<and> mNextObjectCBIndex (snd (UpdateChildren cs cameraPos pl q))
       = mNextObjectCBIndex q
         + of_nat (length (activeNodes_list (fst (UpdateChildren cs cameraPos pl q))))
   \<and> mVisibleNodeCount (snd (UpdateChildren cs cameraPos pl q))
       = mVisibleNodeCount q
         + int (length (activeNodes_list (fst (UpdateChildren cs cameraPos pl q))))"
proof (induction n cameraPos pl q and cs cameraPos pl q rule: UpdateNode_UpdateChildren.induct)
  case (1 f cs cameraPos pl q)
  from "1.prems" have hl: "hiddenTree_list cs" by simp
  consider (culled) "\<not> Intersects (Bounds f) pl"
    | (subdivided) "Intersects (Bounds f) pl" "\<not> IsLeaf f" "ShouldSubdivide f cameraPos"
    | (activated) "Intersects (Bounds f) pl" "IsLeaf f \<or> \<not> ShouldSubdivide f cameraPos"
    by blast
  then show ?case
  proof cases
    case culled
    show ?thesis
      unfolding UpdateNode_culled [OF culled] using hl by (simp add: hiddenTree_activeNodes)
  next
    case subdivided
    have a: "\<not> \<not> IsVisible (f\<lparr>IsVisible := Intersects (Bounds f) pl\<rparr>)"
      using subdivided by simp
    have b: "\<not> IsLeaf (f\<lparr>IsVisible := Intersects (Bounds f) pl,
                  LODLevel := CalculateLOD q (f\<lparr>IsVisible := Intersects (Bounds f) pl\<rparr>) cameraPos\<rparr>)
          \<and> ShouldSubdivide (f\<lparr>IsVisible := Intersects (Bounds f) pl,
                  LODLevel := CalculateLOD q (f\<lparr>IsVisible := Intersects (Bounds f) pl\<rparr>) cameraPos\<rparr>)
                cameraPos"
      using subdivided by simp
    note IH = "1.IH" [OF refl a refl refl b refl hl]
    show ?thesis
      unfolding UpdateNode_subdivided [OF subdivided] using IH subdivided by simp
  next
    case activated
    show ?thesis
      unfolding UpdateNode_activated [OF activated] by simp
  qed
next
  case (2 cameraPos pl q)
  show ?case by simp
next
  case (3 cs cameraPos pl q)
  then show ?case unfolding UpdateChildren_None by simp
next
  case (4 c cs cameraPos pl q)
  from "4.prems" have hc: "hiddenTree c" and hl: "hiddenTree_list cs" by simp_all
  note IH1 = "4.IH"(1) [OF hc]
  note IH2 = "4.IH"(2) [OF refl prod.collapse hl]
  show ?case
    unfolding UpdateChildren_Some using IH1 IH2
    by (simp add: slotsFrom_add add.assoc)
qed


text \<open>Pointers and the nodes they refer to.\<close>

lemma CollectChildren_member:
  "r \<in> set (CollectChildren cs p i []) \<Longrightarrow>
   \<exists>j c. j < length cs \<and> cs ! j = Some c \<and> r \<in> set (CollectVisibleNodes c (p @ [i + j]) [])"
proof (induction cs arbitrary: i)
  case Nil
  then show ?case by simp
next
  case (Cons c cs)
  have step: "r \<in> set (CollectChildren cs p (Suc i) []) \<Longrightarrow>
      \<exists>j c'. j < length (c # cs) \<and> (c # cs) ! j = Some c'
        \<and> r \<in> set (CollectVisibleNodes c' (p @ [i + j]) [])"
  proof -
    assume "r \<in> set (CollectChildren cs p (Suc i) [])"
    from Cons.IH [OF this] obtain j c' where "j < length cs" "cs ! j = Some c'"
      "r \<in> set (CollectVisibleNodes c' (p @ [Suc i + j]) [])" by blast
    then show ?thesis by (intro exI [of _ "Suc j"] exI [of _ c']) simp
  qed
  show ?case
  proof (cases c)
    case None
    with Cons.prems step show ?thesis by simp
  next
    case (Some n)
    from Cons.prems consider "r \<in> set (CollectVisibleNodes n (p @ [i]) [])"
      | "r \<in> set (CollectChildren cs p (Suc i) [])"
      unfolding Some CollectChildren_Some by auto
    then show ?thesis
    proof cases
      case 1
      then show ?thesis using Some by (intro exI [of _ 0] exI [of _ n]) simp
    next
      case 2
      then show ?thesis by (rule step)
    qed
  qed
qed

lemma CollectVisibleNodes_drop:
  assumes "r \<in> set (CollectVisibleNodes n p [])"
  shows "p @ drop (length p) r = r"
  using CollectVisibleNodes_valid [OF assms] by auto

lemma CollectChildren_deref_aux:
  assumes "\<And>c p'. Some c \<in> set cs \<Longrightarrow>
             map (\<lambda>r. deref c (drop (length p') r)) (CollectVisibleNodes c p' [])
               = map Some (activeNodes c)"
  shows "map (\<lambda>r. deref (TerrainNode f (pre @ cs)) (drop (length p) r))
             (CollectChildren cs p (length pre) [])
           = map Some (activeNodes_list cs)"
  using assms
proof (induction cs arbitrary: pre)
  case Nil
  show ?case by simp
next
  case (Cons c cs)
  have IH: "map (\<lambda>r. deref (TerrainNode f (pre @ c # cs)) (drop (length p) r))
             (CollectChildren cs p (Suc (length pre)) [])
           = map Some (activeNodes_list cs)"
  proof -
    have "map (\<lambda>r. deref (TerrainNode f ((pre @ [c]) @ cs)) (drop (length p) r))
             (CollectChildren cs p (length (pre @ [c])) [])
           = map Some (activeNodes_list cs)"
    proof (rule Cons.IH)
      fix c' p'
      assume "Some c' \<in> set cs"
      then have "Some c' \<in> set (c # cs)" by simp
      then show "map (\<lambda>r. deref c' (drop (length p') r)) (CollectVisibleNodes c' p' [])
               = map Some (activeNodes c')"
        by (rule Cons.prems)
    qed
    then show ?thesis by simp
  qed
  show ?case
  proof (cases c)
    case None
    with IH show ?thesis by simp
  next
    case (Some n)
    have "Some n \<in> set (c # cs)" using Some by simp
    then have n: "map (\<lambda>r. deref n (drop (length (p @ [length pre])) r))
                    (CollectVisibleNodes n (p @ [length pre]) [])
               = map Some (activeNodes n)"
      by (rule Cons.prems)
    have "map (\<lambda>r. deref (TerrainNode f (pre @ c # cs)) (drop (length p) r))
            (CollectVisibleNodes n (p @ [length pre]) [])
        = map (\<lambda>r. deref n (drop (length (p @ [length pre])) r))
            (CollectVisibleNodes n (p @ [length pre]) [])"
    proof (rule map_cong [OF refl])
      fix r
      assume "r \<in> set (CollectVisibleNodes n (p @ [length pre]) [])"
      from CollectVisibleNodes_valid [OF this] obtain s where r: "r = (p @ [length pre]) @ s"
        by blast
      show "deref (TerrainNode f (pre @ c # cs)) (drop (length p) r)
          = deref n (drop (length (p @ [length pre])) r)"
        unfolding r Some by simp
    qed
    with n IH show ?thesis
      unfolding Some CollectChildren_Some by simp
  qed
qed

lemma CollectVisibleNodes_deref:
  "map (\<lambda>r. deref n (drop (length p) r)) (CollectVisibleNodes n p []) = map Some (activeNodes n)"
proof (induction n arbitrary: p)
  case (TerrainNode f cs)
  have "map (\<lambda>r. deref (TerrainNode f ([] @ cs)) (drop (length p) r))
             (CollectChildren cs p (length ([] :: TerrainNode option list)) [])
           = map Some (activeNodes_list cs)"
  proof (rule CollectChildren_deref_aux)
    fix c p'
    assume "Some c \<in> set cs"
    then show "map (\<lambda>r. deref c (drop (length p') r)) (CollectVisibleNodes c p' [])
               = map Some (activeNodes c)"
      by (intro TerrainNode.IH) simp_all
  qed
  then show ?case by simp
qed

lemma GetVisibleNodes_nodeAt:
  "mRoot q = Some rt \<Longrightarrow>
   map (nodeAt q) (GetVisibleNodes q outNodes) = map (Some \<circ> Fields) (activeNodes rt)"
proof -
  assume rt: "mRoot q = Some rt"
  have "map (nodeAt q) (GetVisibleNodes q outNodes)
      = map (map_option Fields) (map (\<lambda>r. deref rt (drop (length ([] :: NodePtr)) r))
          (CollectVisibleNodes rt [] []))"
    by (simp add: rt GetVisibleNodes_def nodeAt_def comp_def)
  also have "\<dots> = map (map_option Fields) (map Some (activeNodes rt))"
    unfolding CollectVisibleNodes_deref ..
  finally show ?thesis by (simp add: comp_def)
qed


lemma Update_root:
  "mRoot q = Some rt \<Longrightarrow>
   mRoot (Update cameraPos pl q)
     = Some (fst (UpdateNode rt cameraPos pl (q\<lparr>mVisibleNodeCount := 0, mNextObjectCBIndex := 0\<rparr>)))
   \<and> mVisibleNodeCount (Update cameraPos pl q)
     = mVisibleNodeCount (snd (UpdateNode rt cameraPos pl
                               (q\<lparr>mVisibleNodeCount := 0, mNextObjectCBIndex := 0\<rparr>)))"
  by (simp add: Update_def Let_def prod.case_eq_if)

text \<open>On a tree with clear flags, the nodes returned after one \<open>Update\<close> carry the slots
  \<open>0, 1, \<dots>, N - 1\<close> in the order of the result, and \<open>GetVisibleNodeCount()\<close> is their
  number \<open>N\<close>.\<close>

theorem first_Update_slots:
  assumes "mRoot q = Some rt" and "hiddenTree rt"
  shows "map (slotOf (Update cameraPos pl q)) (GetVisibleNodes (Update cameraPos pl q) outNodes)
           = map Some (slotsFrom 0 (length (GetVisibleNodes (Update cameraPos pl q) outNodes)))
       \<and> GetVisibleNodeCount (Update cameraPos pl q)
           = int (length (GetVisibleNodes (Update cameraPos pl q) outNodes))"
proof -
  define q0 where "q0 = q\<lparr>mVisibleNodeCount := 0, mNextObjectCBIndex := 0\<rparr>"
  define rt' where "rt' = fst (UpdateNode rt cameraPos pl q0)"
  have r: "mRoot (Update cameraPos pl q) = Some rt'"
    and c: "mVisibleNodeCount (Update cameraPos pl q)
              = mVisibleNodeCount (snd (UpdateNode rt cameraPos pl q0))"
    using Update_root [OF assms(1)] unfolding rt'_def q0_def by simp_all
  have n: "map (nodeAt (Update cameraPos pl q)) (GetVisibleNodes (Update cameraPos pl q) outNodes)
         = map (Some \<circ> Fields) (activeNodes rt')"
    by (rule GetVisibleNodes_nodeAt [OF r])
  then have len: "length (GetVisibleNodes (Update cameraPos pl q) outNodes) = length (activeNodes rt')"
    by (metis length_map)
  have "map (slotOf (Update cameraPos pl q)) (GetVisibleNodes (Update cameraPos pl q) outNodes)
      = map (map_option ObjectCBIndex)
          (map (nodeAt (Update cameraPos pl q)) (GetVisibleNodes (Update cameraPos pl q) outNodes))"
    by (simp add: slotOf_def comp_def)
  also have "\<dots> = map Some (map (ObjectCBIndex \<circ> Fields) (activeNodes rt'))"
    unfolding n by (simp add: comp_def)
  also have "\<dots> = map Some (slotsFrom 0 (length (activeNodes rt')))"
    using UpdateNode_slots(1) [OF assms(2), of cameraPos pl q0]
    unfolding rt'_def q0_def by simp
  finally have slots: "map (slotOf (Update cameraPos pl q))
        (GetVisibleNodes (Update cameraPos pl q) outNodes)
      = map Some (slotsFrom 0 (length (GetVisibleNodes (Update cameraPos pl q) outNodes)))"
    unfolding len .
  have "GetVisibleNodeCount (Update cameraPos pl q) = int (length (activeNodes rt'))"
    using UpdateNode_slots(1) [OF assms(2), of cameraPos pl q0]
    unfolding GetVisibleNodeCount_def c rt'_def q0_def by simp
  with slots len show ?thesis by simp
qed

lemma positiveVertex_corner: "positiveVertex b pl \<in> set (boxCorners b)"
  by (simp add: positiveVertex_def boxCorners_def)

lemma entirelyNegative_not_Intersects:
  assumes "i < 6" and "entirelyNegative b (pl i)"
  shows "\<not> Intersects b pl"
proof -
  from assms(2) have "planeDistance (pl i) (positiveVertex b (pl i)) < Fnum 0"
    unfolding entirelyNegative_def list_all_iff using positiveVertex_corner by blast
  moreover from assms(1) have "i = 0 \<or> i = 1 \<or> i = 2 \<or> i = 3 \<or> i = 4 \<or> i = 5" by arith
  ultimately show ?thesis unfolding Intersects_unfold by blast
qed

lemma UpdateNode_passedTree:
  "hiddenTree n \<Longrightarrow> passedTree pl (fst (UpdateNode n cameraPos pl q))"
  "hiddenTree_list cs \<Longrightarrow> passedTree_list pl (fst (UpdateChildren cs cameraPos pl q))"
proof (induction n cameraPos pl q and cs cameraPos pl q rule: UpdateNode_UpdateChildren.induct)
  case (1 f cs cameraPos pl q)
  from "1.prems" have hl: "hiddenTree_list cs" by simp
  consider (culled) "\<not> Intersects (Bounds f) pl"
    | (subdivided) "Intersects (Bounds f) pl" "\<not> IsLeaf f" "ShouldSubdivide f cameraPos"
    | (activated) "Intersects (Bounds f) pl" "IsLeaf f \<or> \<not> ShouldSubdivide f cameraPos"
    by blast
  then show ?case
  proof cases
    case culled
    show ?thesis unfolding UpdateNode_culled [OF culled] using hl by simp
  next
    case subdivided
    have a: "\<not> \<not> IsVisible (f\<lparr>IsVisible := Intersects (Bounds f) pl\<rparr>)"
      using subdivided by simp
    have b: "\<not> IsLeaf (f\<lparr>IsVisible := Intersects (Bounds f) pl,
                  LODLevel := CalculateLOD q (f\<lparr>IsVisible := Intersects (Bounds f) pl\<rparr>) cameraPos\<rparr>)
          \<and> ShouldSubdivide (f\<lparr>IsVisible := Intersects (Bounds f) pl,
                  LODLevel := CalculateLOD q (f\<lparr>IsVisible := Intersects (Bounds f) pl\<rparr>) cameraPos\<rparr>)
                cameraPos"
      using subdivided by simp
    note IH = "1.IH" [OF refl a refl refl b refl hl]
    show ?thesis
      unfolding UpdateNode_subdivided [OF subdivided] using IH subdivided by simp
  next
    case activated
    show ?thesis unfolding UpdateNode_activated [OF activated] using activated(1) by simp
  qed
next
  case (2 cameraPos pl q)
  show ?case by simp
next
  case (3 cs cameraPos pl q)
  then show ?case unfolding UpdateChildren_None by simp
next
  case (4 c cs cameraPos pl q)
  from "4.prems" have hc: "hiddenTree c" and hl: "hiddenTree_list cs" by simp_all
  note IH1 = "4.IH"(1) [OF hc]
  note IH2 = "4.IH"(2) [OF refl prod.collapse hl]
  show ?case unfolding UpdateChildren_Some using IH1 IH2 by simp
qed

lemma hiddenTree_Collect:
  "hiddenTree n \<Longrightarrow> CollectVisibleNodes n p outNodes = outNodes"
  "hiddenTree_list cs \<Longrightarrow> CollectChildren cs p i outNodes = outNodes"
  by (induction n p outNodes and cs p i outNodes rule: CollectVisibleNodes_CollectChildren.induct)
     auto

lemma passedTree_list_nth:
  "passedTree_list pl cs \<Longrightarrow> j < length cs \<Longrightarrow> cs ! j = Some c \<Longrightarrow> passedTree pl c"
proof (induction cs arbitrary: j)
  case Nil
  then show ?case by simp
next
  case (Cons c' cs)
  then show ?case by (cases c'; cases j) auto
qed

lemma passedTree_ancestors:
  "passedTree pl n \<Longrightarrow> r \<in> set (CollectVisibleNodes n p []) \<Longrightarrow>
   prefix a (drop (length p) r) \<Longrightarrow>
   \<exists>m. deref n a = Some m \<and> Intersects (Bounds (Fields m)) pl"
proof (induction n arbitrary: p r a)
  case (TerrainNode f cs)
  show ?case
  proof (cases "IsVisible f")
    case True
    with TerrainNode.prems have "a = []" "Intersects (Bounds f) pl" by simp_all
    then show ?thesis by simp
  next
    case False
    with TerrainNode.prems(2) have nl: "\<not> IsLeaf f" and rc: "r \<in> set (CollectChildren cs p 0 [])"
      by (auto split: if_splits)
    have "\<not> hiddenTree_list cs"
      using rc hiddenTree_Collect(2) [of cs p 0 "[]"] by auto
    with TerrainNode.prems(1) False nl have f: "Intersects (Bounds f) pl"
      and cs: "passedTree_list pl cs" by simp_all
    from CollectChildren_member [OF rc] obtain j c where j: "j < length cs" "cs ! j = Some c"
      and rj: "r \<in> set (CollectVisibleNodes c (p @ [j]) [])" by auto
    from CollectVisibleNodes_valid [OF rj] obtain s where r: "r = (p @ [j]) @ s" by blast
    show ?thesis
    proof (cases a)
      case Nil
      with f show ?thesis by simp
    next
      case (Cons k a')
      with TerrainNode.prems(3) r have k: "k = j" and a': "prefix a' s" by simp_all
      have m1: "Some c \<in> set cs" using j by (metis nth_mem)
      have m2: "c \<in> set_option (Some c)" by simp
      have pc: "passedTree pl c" by (rule passedTree_list_nth [OF cs j])
      have pa: "prefix a' (drop (length (p @ [j])) r)" using a' r by simp
      have "\<exists>m. deref c a' = Some m \<and> Intersects (Bounds (Fields m)) pl"
        by (rule TerrainNode.IH [OF m1 m2 pc rj pa])
      then show ?thesis using Cons k j by simp
    qed
  qed
qed

text \<open>On a tree with clear flags, no node returned after one \<open>Update\<close>, and no ancestor of
  such a node, has its box entirely on the negative side of one of the six planes.\<close>

theorem first_Update_culling:
  assumes "mRoot q = Some rt" and "hiddenTree rt"
    and "r \<in> set (GetVisibleNodes (Update cameraPos pl q) outNodes)"
    and "prefix a r" and "i < 6"
  shows "nodeAt (Update cameraPos pl q) a \<noteq> None \<and> \<not> outsidePlane (Update cameraPos pl q) pl i a"
proof -
  define q0 where "q0 = q\<lparr>mVisibleNodeCount := 0, mNextObjectCBIndex := 0\<rparr>"
  define rt' where "rt' = fst (UpdateNode rt cameraPos pl q0)"
  have root: "mRoot (Update cameraPos pl q) = Some rt'"
    using Update_root [OF assms(1)] unfolding rt'_def q0_def by simp
  have p: "passedTree pl rt'"
    unfolding rt'_def by (rule UpdateNode_passedTree(1) [OF assms(2)])
  from assms(3) have "r \<in> set (CollectVisibleNodes rt' [] [])"
    by (simp add: GetVisibleNodes_def root)
  from passedTree_ancestors [OF p this, of a] assms(4)
  obtain m where m: "deref rt' a = Some m" "Intersects (Bounds (Fields m)) pl" by auto
  then have "\<not> entirelyNegative (Bounds (Fields m)) (pl i)"
    using entirelyNegative_not_Intersects [OF assms(5)] by blast
  with m show ?thesis by (simp add: nodeAt_def outsidePlane_def root)
qed

end
